(* ===== verification/Rust_Prelude.thy ===== *)
theory Rust_Prelude
  imports Main "HOL-Library.Word"
begin

text \<open>
  Shared vocabulary of the development: Rust's \<open>Result\<close> with the \<open>?\<close> operator, machine
  words, bytes and UTF-8 strings, the string operations of the standard library that the
  sources use (ASCII case folding, trimming, splitting, number printing and parsing), and
  the automation that the component theories share.

  A Rust \<open>&str\<close> is a HOL \<^typ>\<open>string\<close> whose characters are the bytes of its UTF-8
  encoding, so \<open>length\<close> is \<open>str::len\<close> and slicing is by byte index. An instant
  (\<open>SystemTime\<close>, \<open>Instant\<close>) and a \<open>Duration\<close> are integers counted in seconds.
\<close>

unbundle bit_operations_syntax

section \<open>Collections of rewrite rules\<close>

named_theorems result_simps \<open>inversion of computations in the result type\<close>
named_theorems byte_simps \<open>evaluation of bytes and characters\<close>
named_theorems rust_defs \<open>definitions of standard library operations\<close>

section \<open>Results\<close>

type_synonym ('e, 'a) result = "'e + 'a"

abbreviation Ok :: "'a \<Rightarrow> ('e, 'a) result" where "Ok \<equiv> Inr"
abbreviation Err :: "'e \<Rightarrow> ('e, 'a) result" where "Err \<equiv> Inl"

text \<open>\<open>and_then m f\<close> is \<open>let x = m?; f(x)\<close>.\<close>

definition and_then :: "('e, 'a) result \<Rightarrow> ('a \<Rightarrow> ('e, 'b) result) \<Rightarrow> ('e, 'b) result" where
  "and_then m f = (case m of Inl e \<Rightarrow> Err e | Inr x \<Rightarrow> f x)"

definition map_err :: "('e \<Rightarrow> 'f) \<Rightarrow> ('e, 'a) result \<Rightarrow> ('f, 'a) result" where
  "map_err g m = (case m of Inl e \<Rightarrow> Err (g e) | Inr x \<Rightarrow> Ok x)"

definition ok_or :: "'e \<Rightarrow> 'a option \<Rightarrow> ('e, 'a) result" where
  "ok_or e m = (case m of None \<Rightarrow> Err e | Some x \<Rightarrow> Ok x)"

definition result_ok :: "('e, 'a) result \<Rightarrow> 'a option" where
  "result_ok m = (case m of Inl _ \<Rightarrow> None | Inr x \<Rightarrow> Some x)"

definition is_ok :: "('e, 'a) result \<Rightarrow> bool" where
  "is_ok m = (case m of Inl _ \<Rightarrow> False | Inr _ \<Rightarrow> True)"

definition is_err :: "('e, 'a) result \<Rightarrow> bool" where
  "is_err m = (case m of Inl _ \<Rightarrow> True | Inr _ \<Rightarrow> False)"

text \<open>\<open>ensure c e\<close> is the guard \<open>if !c { return Err(e) }\<close>.\<close>

definition ensure :: "bool \<Rightarrow> 'e \<Rightarrow> ('e, unit) result" where
  "ensure c e = (if c then Ok () else Err e)"

lemma and_then_simps [simp]:
  "and_then (Ok x) f = f x"
  "and_then (Err e) f = Err e"
  by (simp_all add: and_then_def)

lemma and_then_Ok [result_simps]:
  "(and_then m f = Ok y) = (\<exists>x. m = Ok x \<and> f x = Ok y)"
  by (cases m) simp_all

lemma and_then_Err [result_simps]:
  "(and_then m f = Err e) = (m = Err e \<or> (\<exists>x. m = Ok x \<and> f x = Err e))"
  by (cases m) simp_all

lemma and_then_assoc: "and_then (and_then m f) g = and_then m (\<lambda>x. and_then (f x) g)"
  by (cases m) simp_all

lemma map_err_simps [simp]:
  "map_err g (Ok x) = Ok x"
  "map_err g (Err e) = Err (g e)"
  by (simp_all add: map_err_def)

lemma map_err_Ok [result_simps]: "(map_err g m = Ok y) = (m = Ok y)"
  by (cases m) simp_all

lemma map_err_Err [result_simps]: "(map_err g m = Err e) = (\<exists>e'. m = Err e' \<and> e = g e')"
  by (cases m) auto

lemma ok_or_simps [simp]:
  "ok_or e None = Err e"
  "ok_or e (Some x) = Ok x"
  by (simp_all add: ok_or_def)

lemma ok_or_Ok [result_simps]: "(ok_or e m = Ok y) = (m = Some y)"
  by (cases m) simp_all

lemma ok_or_Err [result_simps]: "(ok_or e m = Err e') = (m = None \<and> e' = e)"
  by (cases m) auto

lemma ensure_simps [simp]:
  "ensure True e = Ok ()"
  "ensure False e = Err e"
  by (simp_all add: ensure_def)

lemma ensure_Ok [result_simps]: "(ensure c e = Ok u) = c"
  by (cases c) simp_all

lemma ensure_Err [result_simps]: "(ensure c e = Err e') = (\<not> c \<and> e' = e)"
  by (cases c) auto

lemma result_ok_simps [simp]:
  "result_ok (Ok x) = Some x"
  "result_ok (Err e) = None"
  by (simp_all add: result_ok_def)

lemma is_ok_simps [simp]:
  "is_ok (Ok x) = True" "is_ok (Err e) = False"
  "is_err (Ok x) = False" "is_err (Err e) = True"
  by (simp_all add: is_ok_def is_err_def)

lemma is_ok_ex: "is_ok m = (\<exists>x. m = Ok x)"
  by (cases m) simp_all

text \<open>A fallible computation over every element of a list, stopping at the first error.\<close>

fun try_map :: "('a \<Rightarrow> ('e, 'b) result) \<Rightarrow> 'a list \<Rightarrow> ('e, 'b list) result" where
  "try_map f [] = Ok []"
| "try_map f (x # xs) = and_then (f x) (\<lambda>y. and_then (try_map f xs) (\<lambda>ys. Ok (y # ys)))"

lemma try_map_Ok: "(try_map f xs = Ok ys) = list_all2 (\<lambda>x y. f x = Ok y) xs ys"
  by (induction xs arbitrary: ys) (auto simp: result_simps list_all2_Cons1)

lemma try_map_mem:
  "try_map f xs = Ok ys \<Longrightarrow> y \<in> set ys \<Longrightarrow> \<exists>x\<in>set xs. f x = Ok y"
  by (auto simp: try_map_Ok list_all2_conv_all_nth set_conv_nth)

lemma try_map_mem_rev:
  "try_map f xs = Ok ys \<Longrightarrow> x \<in> set xs \<Longrightarrow> \<exists>y\<in>set ys. f x = Ok y"
  by (auto simp: try_map_Ok list_all2_conv_all_nth set_conv_nth)

lemma try_map_Err: "try_map f xs = Err e \<Longrightarrow> \<exists>x\<in>set xs. f x = Err e"
  by (induction xs) (auto simp: result_simps)

fun try_each :: "('a \<Rightarrow> ('e, unit) result) \<Rightarrow> 'a list \<Rightarrow> ('e, unit) result" where
  "try_each f [] = Ok ()"
| "try_each f (x # xs) = and_then (f x) (\<lambda>_. try_each f xs)"

lemma try_each_Ok [result_simps]: "(try_each f xs = Ok u) = (\<forall>x\<in>set xs. f x = Ok ())"
  by (induction xs) (auto simp: result_simps)

lemma try_each_Err:
  "try_each f xs = Err e \<Longrightarrow> \<exists>ys x zs. xs = ys @ x # zs \<and> (\<forall>y\<in>set ys. f y = Ok ()) \<and> f x = Err e"
proof (induction xs)
  case (Cons x xs)
  show ?case
  proof (cases "f x")
    case (Inl e')
    with Cons.prems show ?thesis by (intro exI [of _ "[]"]) auto
  next
    case (Inr u)
    with Cons obtain ys y zs where
      "xs = ys @ y # zs" "\<forall>z\<in>set ys. f z = Ok ()" "f y = Err e" by auto
    with Inr show ?thesis by (intro exI [of _ "x # ys"]) auto
  qed
qed simp

section \<open>Machine words\<close>

type_synonym u8 = "8 word"
type_synonym u16 = "16 word"
type_synonym u32 = "32 word"
type_synonym u64 = "64 word"
type_synonym i8 = "8 word"
type_synonym i32 = "32 word"
type_synonym bytes = "u8 list"

text \<open>\<open>usize\<close> is a natural number below this bound (the targets are 64-bit).\<close>

definition usize_max :: nat where "usize_max = 2 ^ 64 - 1"

definition usize_checked_add :: "nat \<Rightarrow> nat \<Rightarrow> nat option" where
  "usize_checked_add a b = (if a + b \<le> usize_max then Some (a + b) else None)"

text \<open>Evaluation compares against large bounds in binary.\<close>

lemma usize_checked_add_code [code]:
  "usize_checked_add a b = (if int a + int b \<le> 18446744073709551615 then Some (a + b) else None)"
proof -
  have "int a + int b \<le> 18446744073709551615 \<longleftrightarrow> a + b \<le> 18446744073709551615" by linarith
  then show ?thesis by (simp add: usize_checked_add_def usize_max_def)
qed

text \<open>\<open>be_acc\<close> folds bytes into a big-endian number: \<open>acc = (acc << 8) | b\<close>.\<close>

fun be_acc :: "nat \<Rightarrow> bytes \<Rightarrow> nat" where
  "be_acc acc [] = acc"
| "be_acc acc (b # bs) = be_acc (acc * 256 + unat b) bs"

lemma unat_u8_lt: "unat (b :: u8) < 256"
  using unsigned_less [of b] by simp

lemma be_acc_bound: "be_acc acc bs < (acc + 1) * 256 ^ length bs"
proof (induction bs arbitrary: acc)
  case (Cons b bs)
  have "acc * 256 + unat b + 1 \<le> (acc + 1) * 256"
    using unat_u8_lt [of b] by simp
  then have le: "(acc * 256 + unat b + 1) * 256 ^ length bs \<le> (acc + 1) * 256 * 256 ^ length bs"
    by (rule mult_right_mono) simp
  have "be_acc acc (b # bs) < (acc * 256 + unat b + 1) * 256 ^ length bs"
    using Cons.IH [of "acc * 256 + unat b"] by simp
  also note le
  finally show ?case by (simp only: list.size power_Suc mult.assoc add_0_right add_Suc_right)
qed simp

lemma be_acc_append: "be_acc acc (xs @ ys) = be_acc (be_acc acc xs) ys"
  by (induction xs arbitrary: acc) auto

lemma be_acc_zeros: "be_acc 0 (replicate n 0 @ bs) = be_acc 0 bs"
  by (induction n) auto

lemma unat_and_low7 [simp]: "unat (b AND 127 :: u8) = unat b mod 128"
proof -
  have "b AND 127 = take_bit 7 b"
    by (simp add: take_bit_eq_mask mask_numeral)
  then show ?thesis by (simp only: unsigned_take_bit_eq) (simp add: take_bit_eq_mod)
qed

lemma and_high_bit_eq_0 [simp]: "(b AND 128 = (0 :: u8)) = (unat b < 128)"
proof -
  have "(b AND 128 = 0) = (\<not> bit b 7)"
    using and_exp_eq_0_iff_not_bit [of b 7] by simp
  also have "bit b 7 = bit (unat b) 7"
    by (simp add: bit_unsigned_iff)
  also have "\<dots> = odd (unat b div 128)"
    by (simp add: bit_iff_odd)
  also have "\<dots> = (128 \<le> unat b)"
  proof -
    have "unat b div 128 < 2" using unat_u8_lt [of b] by simp
    then have "unat b div 128 = 0 \<or> unat b div 128 = 1" by linarith
    then show ?thesis by (auto simp: div_eq_0_iff not_le)
  qed
  finally show ?thesis by (simp add: not_le)
qed

section \<open>Bytes and strings\<close>

definition char_of_byte :: "u8 \<Rightarrow> char" where
  "char_of_byte b = char_of (unat b)"

definition byte_of_char :: "char \<Rightarrow> u8" where
  "byte_of_char c = of_char c"

definition str_of_bytes :: "bytes \<Rightarrow> string" where
  "str_of_bytes bs = map char_of_byte bs"

definition as_bytes :: "string \<Rightarrow> bytes" where
  "as_bytes s = map byte_of_char s"

lemma byte_of_char_of_byte [simp]: "byte_of_char (char_of_byte b) = b"
proof -
  have "(of_char (char_of (unat b)) :: u8) = of_nat (of_char (char_of (unat b) :: char))"
    by (simp only: of_nat_of_char)
  also have "\<dots> = of_nat (unat b)"
    using unat_u8_lt [of b] by (simp add: of_char_of)
  finally show ?thesis by (simp add: byte_of_char_def char_of_byte_def)
qed

lemma char_of_byte_of_char [simp]: "char_of_byte (byte_of_char c) = c"
proof -
  have "unat (of_char c :: u8) = of_char c"
  proof -
    have "(of_char c :: u8) = of_nat (of_char c)" by (simp only: of_nat_of_char)
    then show ?thesis
      by (simp only: unsigned_of_nat) (simp add: take_bit_eq_mod)
  qed
  then show ?thesis by (simp add: byte_of_char_def char_of_byte_def)
qed

lemma as_bytes_str_of_bytes [simp]: "as_bytes (str_of_bytes bs) = bs"
  by (simp add: as_bytes_def str_of_bytes_def comp_def)

lemma str_of_bytes_as_bytes [simp]: "str_of_bytes (as_bytes s) = s"
  by (simp add: as_bytes_def str_of_bytes_def comp_def)

lemma length_str_of_bytes [simp]: "length (str_of_bytes bs) = length bs"
  by (simp add: str_of_bytes_def)

lemma length_as_bytes [simp]: "length (as_bytes s) = length s"
  by (simp add: as_bytes_def)

subsection \<open>UTF-8\<close>

definition utf8_cont :: "u8 \<Rightarrow> bool" where
  "utf8_cont b \<longleftrightarrow> 0x80 \<le> b \<and> b \<le> 0xBF"

text \<open>The well-formed byte sequences accepted by \<open>std::str::from_utf8\<close>.\<close>

fun utf8_valid :: "bytes \<Rightarrow> bool" where
  "utf8_valid [] = True"
| "utf8_valid (b0 # bs) =
     (if b0 < 0x80 then utf8_valid bs
      else if 0xC2 \<le> b0 \<and> b0 \<le> 0xDF then
        (case bs of b1 # r \<Rightarrow> utf8_cont b1 \<and> utf8_valid r | _ \<Rightarrow> False)
      else if 0xE0 \<le> b0 \<and> b0 \<le> 0xEF then
        (case bs of b1 # b2 # r \<Rightarrow>
             (if b0 = 0xE0 then 0xA0 \<le> b1 else 0x80 \<le> b1) \<and>
             (if b0 = 0xED then b1 \<le> 0x9F else b1 \<le> 0xBF) \<and>
             utf8_cont b2 \<and> utf8_valid r
         | _ \<Rightarrow> False)
      else if 0xF0 \<le> b0 \<and> b0 \<le> 0xF4 then
        (case bs of b1 # b2 # b3 # r \<Rightarrow>
             (if b0 = 0xF0 then 0x90 \<le> b1 else 0x80 \<le> b1) \<and>
             (if b0 = 0xF4 then b1 \<le> 0x8F else b1 \<le> 0xBF) \<and>
             utf8_cont b2 \<and> utf8_cont b3 \<and> utf8_valid r
         | _ \<Rightarrow> False)
      else False)"

definition from_utf8 :: "bytes \<Rightarrow> string option" where
  "from_utf8 bs = (if utf8_valid bs then Some (str_of_bytes bs) else None)"

text \<open>\<open>str::is_char_boundary\<close>: a slice \<open>s[..i]\<close> panics where this is false.\<close>

definition is_char_boundary :: "string \<Rightarrow> nat \<Rightarrow> bool" where
  "is_char_boundary s i \<longleftrightarrow>
     i = 0 \<or> i = length s \<or> (i < length s \<and> \<not> utf8_cont (byte_of_char (s ! i)))"

text \<open>\<open>s.chars().take(n).collect()\<close>: continuation bytes belong to the character before them.\<close>

fun take_chars :: "nat \<Rightarrow> string \<Rightarrow> string" where
  "take_chars n [] = []"
| "take_chars n (c # cs) =
     (if utf8_cont (byte_of_char c) then c # take_chars n cs
      else case n of 0 \<Rightarrow> [] | Suc m \<Rightarrow> c # take_chars m cs)"

lemma utf8_valid_ascii: "(\<And>b. b \<in> set bs \<Longrightarrow> b < 0x80) \<Longrightarrow> utf8_valid bs"
  by (induction bs) auto

lemma utf8_append_aux:
  fixes V :: "bytes \<Rightarrow> bool"
  assumes "\<And>x. V (b0 # x) =
      (if A then V x
       else if B then (case x of b1 # r \<Rightarrow> P b1 \<and> V r | _ \<Rightarrow> False)
       else if C then (case x of b1 # b2 # r \<Rightarrow> Q b1 b2 \<and> V r | _ \<Rightarrow> False)
       else if D then (case x of b1 # b2 # b3 # r \<Rightarrow> R b1 b2 b3 \<and> V r | _ \<Rightarrow> False) else False)"
    and k: "\<And>k. V (drop k bs) \<Longrightarrow> V (drop k bs @ b)" and "V (b0 # bs)"
  shows "V (b0 # bs @ b)"
  using assms(1,3) k [of 0] k [of 1] k [of 2] k [of 3]
  by (cases bs rule: remdups_adj.cases) (auto split: list.splits if_splits)

lemma utf8_valid_append: "utf8_valid a \<Longrightarrow> utf8_valid b \<Longrightarrow> utf8_valid (a @ b)"
proof (induction a rule: length_induct)
  case (1 a)
  show ?case
  proof (cases a)
    case (Cons b0 bs)
    have "utf8_valid (b0 # bs @ b)"
    proof (rule utf8_append_aux [where V = utf8_valid and
        P = utf8_cont and
        Q = "\<lambda>b1 b2. (if b0 = 0xE0 then 0xA0 \<le> b1 else 0x80 \<le> b1) \<and>
             (if b0 = 0xED then b1 \<le> 0x9F else b1 \<le> 0xBF) \<and> utf8_cont b2" and
        R = "\<lambda>b1 b2 b3. (if b0 = 0xF0 then 0x90 \<le> b1 else 0x80 \<le> b1) \<and>
             (if b0 = 0xF4 then b1 \<le> 0x8F else b1 \<le> 0xBF) \<and> utf8_cont b2 \<and> utf8_cont b3"])
      show "utf8_valid (drop k bs @ b)" if "utf8_valid (drop k bs)" for k
        using 1 that Cons by (simp add: less_Suc_eq_le)
      show "utf8_valid (b0 # bs)" using 1 Cons by simp
    qed (simp only: utf8_valid.simps conj_assoc)
    with Cons show ?thesis by simp
  qed (use 1 in simp)
qed

lemma from_utf8_Some [result_simps]:
  "(from_utf8 bs = Some s) = (utf8_valid bs \<and> s = str_of_bytes bs)"
  by (auto simp: from_utf8_def)

subsection \<open>ASCII case\<close>

definition ascii_lower :: "char \<Rightarrow> char" where
  "ascii_lower c = (if 65 \<le> byte_of_char c \<and> byte_of_char c \<le> 90
                    then char_of_byte (byte_of_char c + 32) else c)"

definition to_ascii_lowercase :: "string \<Rightarrow> string" where
  "to_ascii_lowercase s = map ascii_lower s"

definition eq_ignore_ascii_case :: "string \<Rightarrow> string \<Rightarrow> bool" where
  "eq_ignore_ascii_case s t \<longleftrightarrow> to_ascii_lowercase s = to_ascii_lowercase t"

definition is_ascii_hexdigit :: "char \<Rightarrow> bool" where
  "is_ascii_hexdigit c \<longleftrightarrow>
     (let b = byte_of_char c in
      48 \<le> b \<and> b \<le> 57 \<or> 65 \<le> b \<and> b \<le> 70 \<or> 97 \<le> b \<and> b \<le> 102)"

lemma ascii_lower_idem [simp]: "ascii_lower (ascii_lower c) = ascii_lower c"
proof (cases "65 \<le> byte_of_char c \<and> byte_of_char c \<le> 90")
  case True
  then have "\<not> byte_of_char c + 32 \<le> 90"
    by (auto simp: word_le_nat_alt unat_word_ariths)
  with True show ?thesis by (simp add: ascii_lower_def)
qed (auto simp: ascii_lower_def)

lemma to_ascii_lowercase_idem [simp]:
  "to_ascii_lowercase (to_ascii_lowercase s) = to_ascii_lowercase s"
  by (simp add: to_ascii_lowercase_def comp_def)

lemma length_to_ascii_lowercase [simp]: "length (to_ascii_lowercase s) = length s"
  by (simp add: to_ascii_lowercase_def)

lemma eq_ignore_ascii_case_refl [simp]: "eq_ignore_ascii_case s s"
  by (simp add: eq_ignore_ascii_case_def)

lemma eq_ignore_ascii_case_lower [simp]:
  "eq_ignore_ascii_case (to_ascii_lowercase s) t = eq_ignore_ascii_case s t"
  "eq_ignore_ascii_case s (to_ascii_lowercase t) = eq_ignore_ascii_case s t"
  by (simp_all add: eq_ignore_ascii_case_def)

subsection \<open>Splitting and trimming\<close>

definition split_once :: "char \<Rightarrow> string \<Rightarrow> (string \<times> string) option" where
  "split_once c s = (case dropWhile (\<lambda>x. x \<noteq> c) s of
     [] \<Rightarrow> None
   | _ # r \<Rightarrow> Some (takeWhile (\<lambda>x. x \<noteq> c) s, r))"

fun splitn :: "nat \<Rightarrow> char \<Rightarrow> string \<Rightarrow> string list" where
  "splitn 0 c s = []"
| "splitn (Suc 0) c s = [s]"
| "splitn (Suc (Suc n)) c s =
     (case split_once c s of None \<Rightarrow> [s] | Some (a, b) \<Rightarrow> a # splitn (Suc n) c b)"

lemma split_once_append: "c \<notin> set a \<Longrightarrow> split_once c (a @ c # b) = Some (a, b)"
proof -
  assume c: "c \<notin> set a"
  then have "dropWhile (\<lambda>x. x \<noteq> c) (a @ c # b) = c # b"
    by (subst dropWhile_append2) auto
  moreover from c have "takeWhile (\<lambda>x. x \<noteq> c) (a @ c # b) = a"
    by (subst takeWhile_append2) auto
  ultimately show ?thesis by (simp add: split_once_def)
qed

lemma split_once_None: "c \<notin> set s \<Longrightarrow> split_once c s = None"
proof -
  assume "c \<notin> set s"
  then have "\<forall>x\<in>set s. x \<noteq> c" by blast
  then have "dropWhile (\<lambda>x. x \<noteq> c) s = []" by (simp only: dropWhile_eq_Nil_conv)
  then show ?thesis by (simp only: split_once_def list.case)
qed

lemma split_once_Some:
  "split_once c s = Some (a, b) \<Longrightarrow> s = a @ c # b \<and> c \<notin> set a"
proof -
  assume h: "split_once c s = Some (a, b)"
  then obtain x where d: "dropWhile (\<lambda>x. x \<noteq> c) s = x # b" and a: "a = takeWhile (\<lambda>x. x \<noteq> c) s"
    by (auto simp: split_once_def split: list.splits)
  from d have "x = c" using hd_dropWhile [of "\<lambda>x. x \<noteq> c" s] by auto
  with a d have "s = a @ c # b" using takeWhile_dropWhile_id [of "\<lambda>x. x \<noteq> c" s] by simp
  moreover have "c \<notin> set a" using a by (auto dest: set_takeWhileD)
  ultimately show ?thesis by simp
qed

text \<open>The UTF-8 encodings of the characters with the Unicode property \<open>White_Space\<close>.\<close>

definition white_space :: "string list" where
  "white_space =
     map (\<lambda>b. [char_of_byte b]) [0x09, 0x0A, 0x0B, 0x0C, 0x0D, 0x20] @
     map str_of_bytes
       ([[0xC2, 0x85], [0xC2, 0xA0], [0xE1, 0x9A, 0x80]] @
        map (\<lambda>b. [0xE2, 0x80, b])
          [0x80, 0x81, 0x82, 0x83, 0x84, 0x85, 0x86, 0x87, 0x88, 0x89, 0x8A, 0xA8, 0xA9, 0xAF] @
        [[0xE2, 0x81, 0x9F], [0xE3, 0x80, 0x80]])"

definition strip_one :: "string list \<Rightarrow> string \<Rightarrow> string option" where
  "strip_one ps s = (case find (\<lambda>p. take (length p) s = p) ps of
     None \<Rightarrow> None | Some p \<Rightarrow> Some (drop (length p) s))"

fun strip_prefixes :: "nat \<Rightarrow> string list \<Rightarrow> string \<Rightarrow> string" where
  "strip_prefixes 0 ps s = s"
| "strip_prefixes (Suc n) ps s =
     (case strip_one ps s of None \<Rightarrow> s | Some r \<Rightarrow> strip_prefixes n ps r)"

text \<open>Every round removes at least one byte, so the length of the string is enough fuel.\<close>

definition trim_start :: "string \<Rightarrow> string" where
  "trim_start s = strip_prefixes (length s) white_space s"

definition trim_end :: "string \<Rightarrow> string" where
  "trim_end s = rev (strip_prefixes (length s) (map rev white_space) (rev s))"

definition trim :: "string \<Rightarrow> string" where
  "trim s = trim_end (trim_start s)"

text \<open>\<open>trim_start_matches("0x")\<close>: every leading repetition is removed.\<close>

fun trim_start_matches2 :: "char \<Rightarrow> char \<Rightarrow> string \<Rightarrow> string" where
  "trim_start_matches2 a b (x # y # s) =
     (if x = a \<and> y = b then trim_start_matches2 a b s else x # y # s)"
| "trim_start_matches2 a b s = s"

lemma strip_one_shrinks:
  "strip_one ps s = Some r \<Longrightarrow> [] \<notin> set ps \<Longrightarrow> length r < length s"
  by (auto simp: strip_one_def find_Some_iff split: option.splits)
    (metis append_Nil2 diff_less length_greater_0_conv nth_mem take_Nil take_eq_Nil)

lemma strip_prefixes_clean:
  assumes "\<And>p. p \<in> set ps \<Longrightarrow> take (length p) s \<noteq> p"
  shows "strip_prefixes n ps s = s"
proof (cases n)
  case (Suc m)
  have "find (\<lambda>p. take (length p) s = p) ps = None"
    using assms by (auto simp: find_None_iff)
  then show ?thesis by (simp add: Suc strip_one_def)
qed simp

text \<open>A fully stripped string starts with none of the prefixes: the fuel is enough.\<close>

lemma strip_prefixes_done:
  assumes "[] \<notin> set ps" and "p \<in> set ps" and "length s \<le> n"
  shows "take (length p) (strip_prefixes n ps s) \<noteq> p"
  using assms(3)
proof (induction n arbitrary: s)
  case 0
  with assms(1,2) show ?case by auto
next
  case (Suc n)
  show ?case
  proof (cases "strip_one ps s")
    case None
    with assms(2) show ?thesis
      by (auto simp: strip_one_def find_None_iff split: option.splits)
  next
    case (Some r)
    then have "length r \<le> n" using strip_one_shrinks [OF Some assms(1)] Suc.prems by simp
    with Some Suc.IH show ?thesis by simp
  qed
qed

text \<open>Strings that begin and end with a printing ASCII character are left alone by \<open>trim\<close>.\<close>

definition ascii_graphic :: "char \<Rightarrow> bool" where
  "ascii_graphic c \<longleftrightarrow> (33 :: nat) \<le> of_char c \<and> of_char c \<le> (126 :: nat)"

lemma white_space_ends:
  "\<forall>p\<in>set white_space. p \<noteq> [] \<and> \<not> ascii_graphic (hd p) \<and> \<not> ascii_graphic (last p)"
  by (simp add: white_space_def str_of_bytes_def char_of_byte_def ascii_graphic_def)

lemma strip_prefixes_hd:
  assumes "\<forall>p\<in>set ps. p \<noteq> [] \<and> \<not> P (hd p)" and "s \<noteq> []" and "P (hd s)"
  shows "strip_prefixes n ps s = s"
proof (rule strip_prefixes_clean)
  fix p assume p: "p \<in> set ps"
  show "take (length p) s \<noteq> p"
  proof
    assume e: "take (length p) s = p"
    from p assms(1) have "p \<noteq> []" by blast
    with e assms(2) have "hd p = hd s" by (metis hd_take length_greater_0_conv)
    with p assms show False by auto
  qed
qed

lemma trim_id:
  assumes "s \<noteq> []" and "ascii_graphic (hd s)" and "ascii_graphic (last s)"
  shows "trim s = s"
proof -
  have "trim_start s = s"
    unfolding trim_start_def
    by (rule strip_prefixes_hd [where P = ascii_graphic]) (use assms white_space_ends in auto)
  moreover have "trim_end s = s"
  proof -
    have "strip_prefixes (length s) (map rev white_space) (rev s) = rev s"
      by (rule strip_prefixes_hd [where P = ascii_graphic])
        (use assms white_space_ends in \<open>auto simp: hd_rev\<close>)
    then show ?thesis by (simp add: trim_end_def)
  qed
  ultimately show ?thesis by (simp add: trim_def)
qed

subsection \<open>Printing and parsing numbers\<close>

definition digit_char :: "nat \<Rightarrow> char" where
  "digit_char d = char_of (if d < 10 then 48 + d else 87 + d)"

function to_radix :: "nat \<Rightarrow> nat \<Rightarrow> string" where
  "to_radix r n = (if r < 2 \<or> n < r then [digit_char n]
                   else to_radix r (n div r) @ [digit_char (n mod r)])"
  by auto
termination
  by (relation "measure snd") auto

declare to_radix.simps [simp del]

definition to_decimal :: "nat \<Rightarrow> string" where
  "to_decimal n = to_radix 10 n"

text \<open>\<open>{b:02x}\<close>: a byte as two lowercase hexadecimal digits.\<close>

definition hex02 :: "u8 \<Rightarrow> string" where
  "hex02 b = [digit_char (unat b div 16), digit_char (unat b mod 16)]"

definition to_digit :: "nat \<Rightarrow> char \<Rightarrow> nat option" where
  "to_digit r c =
     (let b = of_char c :: nat;
          d = (if 48 \<le> b \<and> b \<le> 57 then b - 48
               else if 97 \<le> b \<and> b \<le> 122 then b - 87
               else if 65 \<le> b \<and> b \<le> 90 then b - 55 else r)
      in if d < r then Some d else None)"

fun from_digits :: "nat \<Rightarrow> nat \<Rightarrow> string \<Rightarrow> nat option" where
  "from_digits r acc [] = Some acc"
| "from_digits r acc (c # cs) =
     (case to_digit r c of None \<Rightarrow> None | Some d \<Rightarrow> from_digits r (acc * r + d) cs)"

definition bounded_digits :: "nat \<Rightarrow> nat \<Rightarrow> string \<Rightarrow> nat option" where
  "bounded_digits r hi s =
     (if s = [] then None
      else case from_digits r 0 s of
        None \<Rightarrow> None
      | Some n \<Rightarrow> if n \<le> hi then Some n else None)"

text \<open>\<open>from_str_radix\<close> of an unsigned type with maximum \<open>hi\<close>: an optional plus sign, then
  at least one digit, no overflow.\<close>

definition unsigned_from_str_radix :: "nat \<Rightarrow> nat \<Rightarrow> string \<Rightarrow> nat option" where
  "unsigned_from_str_radix hi r s =
     (case s of
        c # cs \<Rightarrow> if c = CHR ''+'' then bounded_digits r hi cs else bounded_digits r hi s
      | [] \<Rightarrow> None)"

definition parse_i8 :: "string \<Rightarrow> i8 option" where
  "parse_i8 s =
     (case s of
        c # cs \<Rightarrow>
          if c = CHR ''+'' then map_option of_nat (bounded_digits 10 127 cs)
          else if c = CHR ''-'' then map_option (\<lambda>n. - of_nat n) (bounded_digits 10 128 cs)
          else map_option of_nat (bounded_digits 10 127 s)
      | [] \<Rightarrow> None)"

text \<open>\<open>Display\<close> of an \<open>i8\<close>.\<close>

definition show_i8 :: "i8 \<Rightarrow> string" where
  "show_i8 w = (if sint w < 0 then CHR ''-'' # to_decimal (nat (- sint w))
                else to_decimal (nat (sint w)))"

lemma of_char_digit_char:
  "d < 36 \<Longrightarrow> (of_char (digit_char d) :: nat) = (if d < 10 then 48 + d else 87 + d)"
  by (simp add: digit_char_def)

lemma to_digit_digit_char: "d < r \<Longrightarrow> r \<le> 36 \<Longrightarrow> to_digit r (digit_char d) = Some d"
  using of_char_digit_char [of d] by (simp add: to_digit_def Let_def)

lemma from_digits_append:
  "from_digits r acc (xs @ ys) =
     (case from_digits r acc xs of None \<Rightarrow> None | Some a \<Rightarrow> from_digits r a ys)"
  by (induction xs arbitrary: acc) (auto split: option.splits)

lemma to_radix_ne: "to_radix r n \<noteq> []"
  by (subst to_radix.simps) simp

lemma from_digits_to_radix:
  assumes "2 \<le> r" and "r \<le> 36"
  shows "from_digits r 0 (to_radix r n) = Some n"
proof (induction n rule: less_induct)
  case (less n)
  show ?case
  proof (cases "n < r")
    case True
    with assms show ?thesis
      by (simp add: to_radix.simps [of r n] to_digit_digit_char)
  next
    case False
    with assms have "n div r < n" by simp
    with less.IH False assms show ?thesis
      by (simp add: to_radix.simps [of r n] from_digits_append to_digit_digit_char)
  qed
qed

lemma set_to_radix: "2 \<le> r \<Longrightarrow> set (to_radix r n) \<subseteq> digit_char ` {..<r}"
proof (induction n rule: less_induct)
  case (less n)
  then show ?case
    by (cases "n < r") (simp_all add: to_radix.simps [of r n])
qed

lemma digit_char_graphic:
  "d < 36 \<Longrightarrow> ascii_graphic (digit_char d)"
  by (simp add: ascii_graphic_def of_char_digit_char)

lemma digit_char_neq:
  "d < 36 \<Longrightarrow> (of_char c :: nat) < 48 \<or> (of_char c :: nat) = 58 \<Longrightarrow> digit_char d \<noteq> c"
  by (auto simp: of_char_digit_char split: if_splits)

lemma bounded_digits_to_radix:
  "2 \<le> r \<Longrightarrow> r \<le> 36 \<Longrightarrow> n \<le> hi \<Longrightarrow> bounded_digits r hi (to_radix r n) = Some n"
  by (simp add: bounded_digits_def from_digits_to_radix to_radix_ne)

lemma to_radix_no:
  assumes "2 \<le> r" and "r \<le> 36" and "(of_char c :: nat) < 48 \<or> (of_char c :: nat) = 58"
  shows "c \<notin> set (to_radix r n)"
proof
  assume "c \<in> set (to_radix r n)"
  with set_to_radix [OF assms(1)] obtain d where "d < r" "c = digit_char d" by blast
  with digit_char_neq [OF _ assms(3), of d] assms(2) show False by simp
qed

lemma to_radix_hd: "2 \<le> r \<Longrightarrow> r \<le> 36 \<Longrightarrow> (of_char c :: nat) < 48 \<Longrightarrow> hd (to_radix r n) \<noteq> c"
  using to_radix_no [of r c n] to_radix_ne [of r n] by (metis hd_in_set)

lemma to_radix_last_graphic: "2 \<le> r \<Longrightarrow> r \<le> 36 \<Longrightarrow> ascii_graphic (last (to_radix r n))"
proof -
  assume r: "2 \<le> r" "r \<le> 36"
  have "last (to_radix r n) \<in> set (to_radix r n)" using to_radix_ne by simp
  with set_to_radix [of r n] r obtain d where "d < r" "last (to_radix r n) = digit_char d" by fastforce
  with r digit_char_graphic [of d] show ?thesis by simp
qed

lemma unsigned_from_str_radix_to_radix:
  assumes "2 \<le> r" and "r \<le> 36" and "n \<le> hi"
  shows "unsigned_from_str_radix hi r (to_radix r n) = Some n"
proof -
  obtain c cs where e: "to_radix r n = c # cs" using to_radix_ne by (metis neq_Nil_conv)
  have "hd (to_radix r n) \<noteq> CHR ''+''" by (rule to_radix_hd) (use assms in simp_all)
  then have "c \<noteq> CHR ''+''" by (simp add: e)
  with bounded_digits_to_radix [OF assms] show ?thesis
    by (simp add: unsigned_from_str_radix_def e)
qed

lemma parse_i8_show_i8: "parse_i8 (show_i8 w) = Some w"
proof (cases "sint w < 0")
  case True
  have "nat (- sint w) \<le> 128" using sint_ge [of w] by simp
  then have b: "bounded_digits 10 128 (to_radix 10 (nat (- sint w))) = Some (nat (- sint w))"
    by (intro bounded_digits_to_radix) simp_all
  have "(- of_nat (nat (- sint w)) :: i8) = - of_int (- sint w)"
    using True by simp
  also have "\<dots> = w" by simp
  finally show ?thesis using True b by (simp add: parse_i8_def show_i8_def to_decimal_def)
next
  case False
  let ?s = "to_radix 10 (nat (sint w))"
  have "nat (sint w) \<le> 127" using sint_less [of w] by simp
  then have b: "bounded_digits 10 127 ?s = Some (nat (sint w))"
    by (intro bounded_digits_to_radix) simp_all
  obtain c cs where e: "?s = c # cs" using to_radix_ne by (metis neq_Nil_conv)
  have "hd ?s \<noteq> CHR ''+''" "hd ?s \<noteq> CHR ''-''" by (rule to_radix_hd; simp)+
  then have "c \<noteq> CHR ''+''" "c \<noteq> CHR ''-''" by (simp_all add: e)
  moreover have "(of_nat (nat (sint w)) :: i8) = w" using False by simp
  ultimately show ?thesis using False b
    by (simp add: parse_i8_def show_i8_def to_decimal_def e)
qed

lemma show_i8_chars: "c \<in> set (show_i8 w) \<Longrightarrow> c = CHR ''-'' \<or> c \<in> digit_char ` {..<10}"
  using set_to_radix [of 10] by (auto simp: show_i8_def to_decimal_def split: if_splits)

lemma show_i8_no_colon: "CHR '':'' \<notin> set (show_i8 w)"
  using to_radix_no [of 10 "CHR '':''"] by (auto simp: show_i8_def to_decimal_def)

lemma trim_start_matches2_id: "b \<notin> set s \<Longrightarrow> trim_start_matches2 a b s = s"
  by (induction a b s rule: trim_start_matches2.induct) auto

subsection \<open>Big-endian bytes\<close>

fun be_digits :: "nat \<Rightarrow> nat \<Rightarrow> bytes" where
  "be_digits 0 n = []"
| "be_digits (Suc k) n = be_digits k (n div 256) @ [of_nat n]"

definition to_be_bytes :: "u64 \<Rightarrow> bytes" where
  "to_be_bytes w = be_digits 8 (unat w)"

definition from_be_bytes :: "bytes \<Rightarrow> u64" where
  "from_be_bytes bs = of_nat (be_acc 0 bs)"

lemma length_be_digits [simp]: "length (be_digits k n) = k"
  by (induction k arbitrary: n) auto

lemma be_acc_be_digits: "be_acc 0 (be_digits k n) = n mod 256 ^ k"
proof (induction k arbitrary: n)
  case (Suc k)
  have "unat (of_nat n :: u8) = n mod 256" by (simp add: unsigned_of_nat take_bit_eq_mod)
  then have "be_acc 0 (be_digits (Suc k) n) = 256 * (n div 256 mod 256 ^ k) + n mod 256"
    using Suc by (simp add: be_acc_append)
  also have "\<dots> = n mod (256 * 256 ^ k)" by (simp add: mod_mult2_eq)
  finally show ?case by simp
qed simp

lemma from_be_bytes_to_be_bytes: "from_be_bytes (to_be_bytes w) = w"
proof -
  have "unat w < 256 ^ 8" using unsigned_less [of w] by simp
  then have "be_acc 0 (be_digits 8 (unat w)) = unat w" by (simp only: be_acc_be_digits mod_less)
  then show ?thesis by (simp add: from_be_bytes_def to_be_bytes_def)
qed

lemma be_acc_dropWhile: "be_acc 0 (dropWhile (\<lambda>b. b = 0) bs) = be_acc 0 bs"
  by (induction bs) auto

text \<open>\<open>slice::get\<close>.\<close>

definition slice_get :: "'a list \<Rightarrow> nat \<Rightarrow> 'a option" where
  "slice_get xs i = (if i < length xs then Some (xs ! i) else None)"

lemma slice_get_Cons [simp]:
  "slice_get [] i = None" "slice_get (x # xs) 0 = Some x" "slice_get (x # xs) (Suc i) = slice_get xs i"
  by (simp_all add: slice_get_def)

end
