(* ===== verification/Der.thy ===== *)
theory Der
  imports Rust_Prelude
begin

text \<open>
  The minimal DER reader of \<open>x509/der.rs\<close> together with the error type of \<open>x509/error.rs\<close> it
  raises: one tag-length-value element (\<open>read_tlv\<close>, \<open>read_tlv_expect\<close>) and the dotted form of
  an object identifier (\<open>oid_to_dotted\<close>). A slice is a list of bytes; an index range
  \<open>input[a..b]\<close> is a \<open>take\<close> of a \<open>drop\<close>, taken only after the length check the source makes.
  \<open>encode_tlv\<close> and \<open>encode_oid\<close> are the reference encoders the reader is compared with.
\<close>

section \<open>Errors\<close>

text \<open>An \<open>openssl::error::ErrorStack\<close> and a \<open>GostEngineError\<close> are their rendered text.\<close>

datatype trust_error =
    CertParse string
  | FieldMissing string
  | Validity string
  | SignatureAlgorithm string
  | KeyUsage
  | Eku
  | BasicConstraints string
  | PathBuild string
  | DepthExceeded nat nat
  | AnchorMismatch
  | BadSignature nat
  | Crl string
  | Revoked string
  | PinMismatch
  | Openssl string
  | EngineLoadFailed string

fun trust_error_to_string :: "trust_error \<Rightarrow> string" where
  "trust_error_to_string (CertParse m) = ''certificate parse error: '' @ m"
| "trust_error_to_string (FieldMissing m) = ''certificate field missing: '' @ m"
| "trust_error_to_string (Validity m) = ''validity error: '' @ m"
| "trust_error_to_string (SignatureAlgorithm m) = ''signature algorithm not allowed: '' @ m"
| "trust_error_to_string KeyUsage = ''key usage missing required bit''"
| "trust_error_to_string Eku = ''extended key usage does not include clientAuth''"
| "trust_error_to_string (BasicConstraints m) = ''basic constraints violation: '' @ m"
| "trust_error_to_string (PathBuild m) = ''path building failed: '' @ m"
| "trust_error_to_string (DepthExceeded a b) =
     ''chain depth exceeded: '' @ to_decimal a @ '' > '' @ to_decimal b"
| "trust_error_to_string AnchorMismatch =
     ''anchor mismatch: presented anchor not in trust store''"
| "trust_error_to_string (BadSignature d) =
     ''signature verification failed at depth '' @ to_decimal d"
| "trust_error_to_string (Crl m) = ''CRL error: '' @ m"
| "trust_error_to_string (Revoked s) = ''certificate revoked: serial='' @ s"
| "trust_error_to_string PinMismatch = ''SPKI pin mismatch''"
| "trust_error_to_string (Openssl m) = ''openssl error: '' @ m"
| "trust_error_to_string (EngineLoadFailed m) =
     ''gost-engine unavailable for chain verification: '' @ m"

section \<open>One element\<close>

definition TAG_BOOLEAN :: u8 where "TAG_BOOLEAN = 0x01"
definition TAG_INTEGER :: u8 where "TAG_INTEGER = 0x02"
definition TAG_BIT_STRING :: u8 where "TAG_BIT_STRING = 0x03"
definition TAG_OCTET_STRING :: u8 where "TAG_OCTET_STRING = 0x04"
definition TAG_OID :: u8 where "TAG_OID = 0x06"
definition TAG_SEQUENCE :: u8 where "TAG_SEQUENCE = 0x30"

lemmas tag_defs = TAG_BOOLEAN_def TAG_INTEGER_def TAG_BIT_STRING_def TAG_OCTET_STRING_def
  TAG_OID_def TAG_SEQUENCE_def

record tlv =
  tlv_tag :: u8
  tlv_value :: bytes
  tlv_rest :: bytes

text \<open>The length field: the content length and the size of the header. At most four length
  bytes are folded, so \<open>acc << 8 | b\<close> stays below \<open>2 ^ 32\<close> and never loses bits of a \<open>usize\<close>.\<close>

definition tlv_length :: "bytes \<Rightarrow> (trust_error, nat \<times> nat) result" where
  "tlv_length input =
     (let len_byte = input ! 1 in
      if len_byte AND 0x80 = 0 then Ok (unat len_byte, 2)
      else let n_bytes = unat (len_byte AND 0x7F) in
        if n_bytes = 0 \<or> n_bytes > 4 then Err (CertParse ''der: indefinite or oversized length'')
        else if length input < 2 + n_bytes then Err (CertParse ''der: length truncated'')
        else Ok (be_acc 0 (take n_bytes (drop 2 input)), 2 + n_bytes))"

definition read_tlv :: "bytes \<Rightarrow> (trust_error, tlv) result" where
  "read_tlv input =
     (if length input < 2 then Err (CertParse ''der: header truncated'')
      else and_then (tlv_length input) (\<lambda>(len, header_len).
        and_then (ok_or (CertParse ''der: length overflow'') (usize_checked_add header_len len)) (\<lambda>e.
          if length input < e then Err (CertParse ''der: value truncated'')
          else Ok \<lparr>tlv_tag = input ! 0,
                   tlv_value = take (e - header_len) (drop header_len input),
                   tlv_rest = drop e input\<rparr>)))"

definition read_tlv_expect :: "bytes \<Rightarrow> u8 \<Rightarrow> (trust_error, tlv) result" where
  "read_tlv_expect input tag =
     and_then (read_tlv input) (\<lambda>t.
       if tlv_tag t \<noteq> tag
       then Err (CertParse (''der: expected tag 0x'' @ hex02 tag @ '', got 0x'' @ hex02 (tlv_tag t)))
       else Ok t)"

section \<open>Object identifiers\<close>

definition u128_max :: nat where "u128_max = 2 ^ 128 - 1"

text \<open>The inner loop: one base-128 arc, with the overflow test before every shift.\<close>

fun oid_arc :: "nat \<Rightarrow> bytes \<Rightarrow> (trust_error, nat \<times> bytes) result" where
  "oid_arc v [] = Err (CertParse ''der: truncated oid arc'')"
| "oid_arc v (b # bs) =
     (if v > u128_max div 128 then Err (CertParse ''der: oid arc overflow'')
      else let v' = v * 128 + unat (b AND 0x7F) in
        if b AND 0x80 = 0 then Ok (v', bs) else oid_arc v' bs)"

lemma oid_arc_code [code]:
  "oid_arc v [] = Err (CertParse ''der: truncated oid arc'')"
  "oid_arc v (b # bs) =
     (if int v > 2658455991569831745807614120560689151 then Err (CertParse ''der: oid arc overflow'')
      else let v' = v * 128 + unat (b AND 0x7F) in
        if b AND 0x80 = 0 then Ok (v', bs) else oid_arc v' bs)"
proof -
  have "u128_max div 128 = 2658455991569831745807614120560689151" by (simp add: u128_max_def)
  then have "(int v > 2658455991569831745807614120560689151) = (v > u128_max div 128)" by linarith
  then show "oid_arc v (b # bs) =
     (if int v > 2658455991569831745807614120560689151 then Err (CertParse ''der: oid arc overflow'')
      else let v' = v * 128 + unat (b AND 0x7F) in
        if b AND 0x80 = 0 then Ok (v', bs) else oid_arc v' bs)"
    by (simp only: oid_arc.simps)
qed simp

lemma oid_arc_shorter: "oid_arc v bs = Ok (n, r) \<Longrightarrow> length r < length bs"
  by (induction v bs arbitrary: n r rule: oid_arc.induct) (fastforce simp: Let_def split: if_splits)+

function oid_arcs :: "bytes \<Rightarrow> (trust_error, nat list) result" where
  "oid_arcs [] = Ok []"
| "oid_arcs (b # bs) =
     (case oid_arc 0 (b # bs) of
        Inl e \<Rightarrow> Err e
      | Inr (n, r) \<Rightarrow> and_then (oid_arcs r) (\<lambda>ns. Ok (n # ns)))"
  by pat_completeness auto
termination
  by (relation "measure length") (use oid_arc_shorter in fastforce)+

fun join :: "string \<Rightarrow> string list \<Rightarrow> string" where
  "join sep [] = []"
| "join sep [x] = x"
| "join sep (x # y # ys) = x @ sep @ join sep (y # ys)"

definition oid_to_dotted :: "bytes \<Rightarrow> (trust_error, string) result" where
  "oid_to_dotted content =
     (case content of
        [] \<Rightarrow> Err (CertParse ''der: empty oid'')
      | first # later \<Rightarrow>
          and_then (oid_arcs later) (\<lambda>parts.
            Ok (join ''.'' (map to_decimal (unat (first div 40) # unat (first mod 40) # parts)))))"

section \<open>Reference encoders\<close>

text \<open>The definite-length DER encoding of an element with fewer than \<open>2 ^ 32\<close> content bytes.\<close>

definition u8_of :: "nat \<Rightarrow> u8" where "u8_of n = of_nat n"

definition der_len :: "nat \<Rightarrow> bytes" where
  "der_len n =
     (if n < 128 then [u8_of n]
      else if n < 256 then [0x81, u8_of n]
      else if n < 65536 then [0x82, u8_of (n div 256), u8_of (n mod 256)]
      else if n < 16777216 then
        [0x83, u8_of (n div 65536), u8_of (n div 256 mod 256), u8_of (n mod 256)]
      else [0x84, u8_of (n div 16777216), u8_of (n div 65536 mod 256),
            u8_of (n div 256 mod 256), u8_of (n mod 256)])"

definition encode_tlv :: "u8 \<Rightarrow> bytes \<Rightarrow> bytes" where
  "encode_tlv tag v = tag # der_len (length v) @ v"

text \<open>A base-128 arc: continuation bytes carry the high bit.\<close>

function arc_high :: "nat \<Rightarrow> bytes" where
  "arc_high n = (if n = 0 then [] else arc_high (n div 128) @ [u8_of (128 + n mod 128)])"
  by auto
termination
  by (relation "measure id") auto

declare arc_high.simps [simp del]

definition encode_arc :: "nat \<Rightarrow> bytes" where
  "encode_arc n = arc_high (n div 128) @ [u8_of (n mod 128)]"

definition encode_oid :: "nat \<Rightarrow> nat \<Rightarrow> nat list \<Rightarrow> bytes" where
  "encode_oid a b arcs = u8_of (a * 40 + b) # concat (map encode_arc arcs)"

section \<open>Facts about elements\<close>

lemma unat_u8_of [simp]: "unat (u8_of n) = n mod 256"
  by (simp add: u8_of_def unsigned_of_nat take_bit_eq_mod)

lemma tlv_length_header:
  "tlv_length input = Ok (len, h) \<Longrightarrow> 2 \<le> length input \<Longrightarrow> 2 \<le> h \<and> h \<le> 6 \<and> h \<le> length input \<and> len < 2 ^ 32"
proof -
  assume t: "tlv_length input = Ok (len, h)" and i: "2 \<le> length input"
  show ?thesis
  proof (cases "input ! 1 AND 0x80 = 0")
    case True
    with t have "len = unat (input ! 1)" "h = 2" by (auto simp: tlv_length_def Let_def)
    with i unat_u8_lt [of "input ! 1"] show ?thesis by simp
  next
    case False
    let ?n = "unat (input ! 1 AND 0x7F)"
    from t False have h: "h = 2 + ?n" and n: "?n \<le> 4" "2 + ?n \<le> length input"
      and l: "len = be_acc 0 (take ?n (drop 2 input))"
      by (auto simp: tlv_length_def Let_def simp del: unat_and_low7 split: if_splits)
    have "len < 256 ^ length (take ?n (drop 2 input))"
      using be_acc_bound [of 0 "take ?n (drop 2 input)"] l by simp
    also have "\<dots> \<le> 256 ^ 4" using n by (intro power_increasing) auto
    finally show ?thesis using h n by simp
  qed
qed

lemma read_tlv_Ok:
  assumes "read_tlv input = Ok t"
  obtains len h where "2 \<le> length input" "tlv_length input = Ok (len, h)"
    "h + len \<le> length input" "tlv_tag t = input ! 0"
    "tlv_value t = take len (drop h input)" "tlv_rest t = drop (h + len) input"
  using assms that
  by (auto simp: read_tlv_def usize_checked_add_def result_simps split: if_splits)

text \<open>Reading an element consumes input: the loops over elements terminate.\<close>

lemma read_tlv_shorter: "read_tlv input = Ok t \<Longrightarrow> length (tlv_rest t) < length input"
  by (elim read_tlv_Ok) (auto dest: tlv_length_header)

lemma read_tlv_expect_Ok [result_simps]:
  "(read_tlv_expect input tag = Ok t) = (read_tlv input = Ok t \<and> tlv_tag t = tag)"
  by (auto simp: read_tlv_expect_def result_simps split: if_splits)

lemma read_tlv_expect_shorter:
  "read_tlv_expect input tag = Ok t \<Longrightarrow> length (tlv_rest t) < length input"
  by (simp add: result_simps read_tlv_shorter)

lemma tlv_length_append:
  "tlv_length input = Ok (len, h) \<Longrightarrow> 2 \<le> length input \<Longrightarrow> tlv_length (input @ x) = Ok (len, h)"
  by (auto simp: tlv_length_def Let_def nth_append simp del: unat_and_low7 split: if_splits)

lemma read_tlv_split:
  assumes "read_tlv input = Ok t"
  obtains hdr where "input = hdr @ tlv_value t @ tlv_rest t"
    and "2 \<le> length hdr" and "length hdr \<le> 6" and "hd hdr = tlv_tag t"
proof -
  from assms obtain len h where r: "2 \<le> length input" "tlv_length input = Ok (len, h)"
    "h + len \<le> length input" "tlv_tag t = input ! 0"
    "tlv_value t = take len (drop h input)" "tlv_rest t = drop (h + len) input"
    by (rule read_tlv_Ok)
  have "input = take h input @ tlv_value t @ tlv_rest t"
    using r(5,6) by (simp add: add.commute [of h] flip: drop_drop)
  moreover have "length (take h input) = h" "2 \<le> h" "h \<le> 6"
    using tlv_length_header [OF r(2,1)] by auto
  moreover have "hd (take h input) = tlv_tag t"
    using r(1,4) tlv_length_header [OF r(2,1)] by (cases input) (auto simp: hd_take)
  ultimately show ?thesis using that by metis
qed

lemma be_digits_2: "(n :: nat) div 256 * 256 + n mod 256 = n"
  by simp

lemma be_digits_3: "((n :: nat) div 65536 * 256 + n div 256 mod 256) * 256 + n mod 256 = n"
proof -
  have "n div 65536 = n div 256 div 256" by (simp add: div_mult2_eq [symmetric])
  then show ?thesis by simp
qed

lemma be_digits_4:
  "(((n :: nat) div 16777216 * 256 + n div 65536 mod 256) * 256 + n div 256 mod 256) * 256 + n mod 256 = n"
proof -
  have "n div 16777216 = n div 256 div 65536" "n div 65536 = n div 256 div 256"
    by (simp_all add: div_mult2_eq [symmetric])
  with be_digits_3 [of "n div 256"] show ?thesis by simp
qed

lemma tlv_length_der_len:
  assumes "n < 2 ^ 32"
  shows "tlv_length (tag # der_len n @ x) = Ok (n, 1 + length (der_len n))"
proof -
  consider "n < 128" | "128 \<le> n" "n < 256" | "256 \<le> n" "n < 65536" | "65536 \<le> n" "n < 16777216"
    | "16777216 \<le> n" by linarith
  then show ?thesis
  proof cases
    case 1 then show ?thesis by (simp add: tlv_length_def der_len_def)
  next
    case 2 then show ?thesis by (simp add: tlv_length_def der_len_def)
  next
    case 3
    then have "n div 256 < 256" by (simp add: div_less_iff_less_mult)
    with 3 be_digits_2 [of n] show ?thesis by (simp add: tlv_length_def der_len_def)
  next
    case 4
    then have "n div 65536 < 256" by (simp add: div_less_iff_less_mult)
    with 4 be_digits_3 [of n] show ?thesis by (simp add: tlv_length_def der_len_def)
  next
    case 5
    with assms have "n div 16777216 < 256" by (simp add: div_less_iff_less_mult)
    with 5 be_digits_4 [of n] show ?thesis by (simp add: tlv_length_def der_len_def)
  qed
qed

lemma read_tlv_encode_tlv:
  assumes "length v < 2 ^ 32"
  shows "read_tlv (encode_tlv tag v @ r) = Ok \<lparr>tlv_tag = tag, tlv_value = v, tlv_rest = r\<rparr>"
proof -
  let ?h = "1 + length (der_len (length v))"
  have l: "tlv_length (encode_tlv tag v @ r) = Ok (length v, ?h)"
    using tlv_length_der_len [OF assms] by (simp add: encode_tlv_def)
  have b: "?h \<le> 6" by (simp add: der_len_def)
  have "usize_checked_add ?h (length v) = Some (?h + length v)"
    using assms b by (simp add: usize_checked_add_def usize_max_def)
  moreover have "\<not> length (encode_tlv tag v @ r) < 2" "der_len (length v) \<noteq> []"
    by (simp_all add: encode_tlv_def der_len_def)
  ultimately show ?thesis
    by (simp only: read_tlv_def l if_False and_then_simps split_beta fst_conv snd_conv ok_or_simps)
      (simp add: encode_tlv_def)
qed

lemma read_tlv_expect_encode_tlv:
  "length v < 2 ^ 32 \<Longrightarrow>
   read_tlv_expect (encode_tlv tag v @ r) tag = Ok \<lparr>tlv_tag = tag, tlv_value = v, tlv_rest = r\<rparr>"
  by (simp add: read_tlv_expect_def read_tlv_encode_tlv)

lemma encode_tlv_ne [simp]: "encode_tlv tag v \<noteq> []"
  by (simp add: encode_tlv_def)

text \<open>The same without trailing bytes.\<close>

lemma read_tlv_expect_encode_tlv0:
  "length v < 2 ^ 32 \<Longrightarrow>
   read_tlv_expect (encode_tlv tag v) tag = Ok \<lparr>tlv_tag = tag, tlv_value = v, tlv_rest = []\<rparr>"
  using read_tlv_expect_encode_tlv [of v tag "[]"] by simp

section \<open>Facts about object identifiers\<close>

lemma oid_arc_arc_high:
  assumes "n \<le> u128_max div 128"
  shows "oid_arc 0 (arc_high n @ bs) = oid_arc n bs"
  using assms
proof (induction n arbitrary: bs rule: less_induct)
  case (less n)
  show ?case
  proof (cases "n = 0")
    case True
    then show ?thesis by (simp add: arc_high.simps)
  next
    case False
    then have lt: "n div 128 < n" by simp
    with less.prems have le: "n div 128 \<le> u128_max div 128" by linarith
    have "arc_high n = arc_high (n div 128) @ [u8_of (128 + n mod 128)]"
      using False by (subst arc_high.simps) simp
    then have "oid_arc 0 (arc_high n @ bs) = oid_arc (n div 128) (u8_of (128 + n mod 128) # bs)"
      using less.IH [OF lt le, of "u8_of (128 + n mod 128) # bs"] by simp
    moreover have "(128 + n mod 128) mod 256 = 128 + n mod 128"
      using mod_less_divisor [of 128 n] by (intro mod_less) linarith
    ultimately show ?thesis using le by (simp add: mod_add_self1 flip: not_le)
  qed
qed

lemma oid_arc_encode_arc:
  assumes "n \<le> u128_max"
  shows "oid_arc 0 (encode_arc n @ bs) = Ok (n, bs)"
proof -
  have le: "n div 128 \<le> u128_max div 128" using assms by (rule div_le_mono)
  have "n mod 128 < 128" by simp
  moreover from this have "n mod 128 mod 256 = n mod 128" by (intro mod_less) linarith
  ultimately show ?thesis
    using oid_arc_arc_high [OF le, of "u8_of (n mod 128) # bs"] le
    by (simp add: encode_arc_def flip: not_le)
qed

lemma oid_arcs_encode:
  "\<forall>n\<in>set ns. n \<le> u128_max \<Longrightarrow> oid_arcs (concat (map encode_arc ns)) = Ok ns"
proof (induction ns)
  case (Cons n ns)
  let ?r = "concat (map encode_arc ns)"
  obtain b bs where e: "encode_arc n @ ?r = b # bs" by (cases "encode_arc n @ ?r") (auto simp: encode_arc_def)
  have "oid_arc 0 (b # bs) = Ok (n, ?r)"
    using oid_arc_encode_arc [of n ?r] Cons.prems by (simp add: e)
  then show ?case using Cons by (simp add: e del: oid_arc.simps)
qed simp

lemma oid_to_dotted_encode_oid:
  assumes "a * 40 + b < 256" and "b < 40" and "\<forall>n\<in>set ns. n \<le> u128_max"
  shows "oid_to_dotted (encode_oid a b ns) = Ok (join ''.'' (map to_decimal (a # b # ns)))"
proof -
  have "unat (u8_of (a * 40 + b) div 40) = a" "unat (u8_of (a * 40 + b) mod 40) = b"
    using assms(1,2) by (simp_all add: unat_div unat_mod)
  then show ?thesis
    using oid_arcs_encode [OF assms(3)] by (simp add: oid_to_dotted_def encode_oid_def)
qed

section \<open>Properties\<close>

text \<open>
  C31. Elements read back: the reader returns exactly the tag, the content and the remainder of an
  encoded element of up to four gigabytes, in short and long length form; and whatever it accepts
  it cuts exactly, the input being a header of two to six bytes that starts with the tag, the
  content, and the remainder.
\<close>

theorem tlv_roundtrip:
  assumes "length v < 2 ^ 32"
  shows "read_tlv (encode_tlv tag v @ r) = Ok \<lparr>tlv_tag = tag, tlv_value = v, tlv_rest = r\<rparr> \<and>
         (\<forall>input t. read_tlv input = Ok t \<longrightarrow>
            (\<exists>hdr. input = hdr @ tlv_value t @ tlv_rest t \<and> 2 \<le> length hdr \<and> length hdr \<le> 6 \<and> hd hdr = tlv_tag t))"
  using read_tlv_encode_tlv [OF assms] by (auto elim: read_tlv_split)

lemma tlv_roundtrip_witness:
  "read_tlv (encode_tlv TAG_INTEGER [1, 2] @ [3]) = Ok \<lparr>tlv_tag = TAG_INTEGER, tlv_value = [1, 2], tlv_rest = [3]\<rparr>"
  using tlv_roundtrip [of "[1, 2]" TAG_INTEGER "[3]"] by simp

text \<open>
  Object identifiers print in dotted form: the identifier with the arcs \<open>a\<close>, \<open>b\<close> and \<open>ns\<close>
  prints as these numbers, for every list of arcs up to 128 bits, as long as the first two arcs
  fit one byte and the second is below 40.
\<close>

theorem oid_prints_arcs:
  assumes "a * 40 + b < 256" and "b < 40" and "\<forall>n\<in>set ns. n \<le> u128_max"
  shows "oid_to_dotted (encode_oid a b ns) = Ok (join ''.'' (map to_decimal (a # b # ns)))"
  using assms by (rule oid_to_dotted_encode_oid)

lemma oid_prints_arcs_witness: "oid_to_dotted (encode_oid 2 5 [29, 15]) = Ok (join ''.'' (map to_decimal [2, 5, 29, 15]))"
  using oid_prints_arcs [of 2 5 "[29, 15]"] by (simp add: u128_max_def)

end
