(* ===== verification/Cert_Ext.thy ===== *)
theory Cert_Ext
  imports Der
begin

text \<open>
  Certificates and their extensions: the accessors of an OpenSSL certificate as a record, the
  wrapper \<open>Certificate\<close> of \<open>x509/mod.rs\<close>, the extension walkers of \<open>x509/ext.rs\<close> and
  \<open>x509/der_helpers.rs\<close> and the typed views \<open>keyUsage\<close>, \<open>extendedKeyUsage\<close> and
  \<open>basicConstraints\<close>. \<open>encode_cert\<close> is the reference encoding of a certificate the walkers are
  compared with.

  OpenSSL itself is not part of the repository: the record \<open>x509\<close> holds what its accessors
  return for one certificate, and \<open>crypto\<close> the functions the sources call on such values.
  A failing call carries the rendered \<open>ErrorStack\<close>.
\<close>

section \<open>OpenSSL values\<close>

text \<open>A distinguished name: the canonical encoding that \<open>try_cmp\<close> compares (None when it cannot
  be produced), and its entries as short name and decoded value.\<close>

record x509_name =
  nm_canon :: "bytes option"
  nm_entries :: "(string option \<times> string option) list"

text \<open>\<open>Asn1Time\<close> values appear only through \<open>epoch.diff(t)\<close>, a pair of days and seconds.\<close>

type_synonym time_diff = "(int \<times> int) option"

type_synonym pkey = nat

record x509 =
  xf_to_der :: "(string, bytes) result"
  xf_version :: int
  xf_not_before :: time_diff
  xf_not_after :: time_diff
  xf_issuer_name :: x509_name
  xf_subject_name :: x509_name
  xf_alt_name_emails :: "string option list option"
  xf_serial :: "string option"
  xf_signature_algorithm :: string
  xf_ski :: "bytes option"
  xf_aki :: "bytes option"
  xf_public_key :: "(string, pkey) result"
  xf_digest_sha256 :: "bytes option"

record x509_crl =
  rl_last_update :: time_diff
  rl_next_update :: "time_diff option"
  rl_revoked :: "string option list option"
  rl_issuer_der :: "(string, bytes) result"

record crypto =
  c_oid_from_str :: "string \<Rightarrow> (string, bytes) result"
  c_sha256 :: "bytes \<Rightarrow> bytes"
  c_x509_from_der :: "bytes \<Rightarrow> (string, x509) result"
  c_x509_from_pem :: "bytes \<Rightarrow> (string, x509) result"
  c_x509_verify :: "x509 \<Rightarrow> pkey \<Rightarrow> (string, bool) result"
  c_public_key_to_der :: "pkey \<Rightarrow> (string, bytes) result"
  c_crl_from_pem :: "bytes \<Rightarrow> (string, x509_crl) result"
  c_crl_from_der :: "bytes \<Rightarrow> (string, x509_crl) result"
  c_crl_verify :: "x509_crl \<Rightarrow> pkey \<Rightarrow> (string, bool) result"

section \<open>Finding an extension\<close>

text \<open>The walk over the fields of \<open>tbsCertificate\<close> up to the \<open>[3] EXPLICIT\<close> element.\<close>

function tbs_extensions :: "bytes \<Rightarrow> (trust_error, bytes option) result" where
  "tbs_extensions rest =
     (if rest = [] then Ok None
      else case read_tlv rest of
        Inl e \<Rightarrow> Err e
      | Inr t \<Rightarrow> if tlv_tag t = 0xA3 then Ok (Some (tlv_value t)) else tbs_extensions (tlv_rest t))"
  by auto
termination
  by (relation "measure length") (auto dest: read_tlv_shorter)

declare tbs_extensions.simps [simp del]

definition skip_critical :: "bytes \<Rightarrow> (trust_error, bytes) result" where
  "skip_critical inner =
     (if inner = [] then Ok inner
      else and_then (read_tlv inner) (\<lambda>peek.
        Ok (if tlv_tag peek = TAG_BOOLEAN then tlv_rest peek else inner)))"

text \<open>One element of the extension list: its value when the identifier is the wanted one.\<close>

definition match_extension ::
  "(bytes \<Rightarrow> (trust_error, bool) result) \<Rightarrow> bytes \<Rightarrow> (trust_error, bytes option) result" where
  "match_extension matches inner =
     and_then (read_tlv_expect inner TAG_OID) (\<lambda>oid.
     and_then (skip_critical (tlv_rest oid)) (\<lambda>inner'.
     and_then (read_tlv_expect inner' TAG_OCTET_STRING) (\<lambda>octet.
     and_then (matches (tlv_value oid)) (\<lambda>m.
       Ok (if m then Some (tlv_value octet) else None)))))"

function walk_extensions ::
  "(bytes \<Rightarrow> (trust_error, bool) result) \<Rightarrow> bytes \<Rightarrow> (trust_error, bytes option) result" where
  "walk_extensions matches walker =
     (if walker = [] then Ok None
      else case read_tlv_expect walker TAG_SEQUENCE of
        Inl e \<Rightarrow> Err e
      | Inr ext_tlv \<Rightarrow>
          (case match_extension matches (tlv_value ext_tlv) of
             Inl e \<Rightarrow> Err e
           | Inr (Some v) \<Rightarrow> Ok (Some v)
           | Inr None \<Rightarrow> walk_extensions matches (tlv_rest ext_tlv)))"
  by auto
termination
  by (relation "measure (length \<circ> snd)") (auto dest: read_tlv_expect_shorter)

declare walk_extensions.simps [simp del]

text \<open>The walk both extractors share; they differ in how an identifier is compared.\<close>

definition cert_extension ::
  "(bytes \<Rightarrow> (trust_error, bool) result) \<Rightarrow> bytes \<Rightarrow> (trust_error, bytes option) result" where
  "cert_extension matches cert_der =
     and_then (read_tlv_expect cert_der TAG_SEQUENCE) (\<lambda>outer.
     and_then (read_tlv_expect (tlv_value outer) TAG_SEQUENCE) (\<lambda>tbs.
     and_then (tbs_extensions (tlv_value tbs)) (\<lambda>extensions_octets.
       case extensions_octets of
         None \<Rightarrow> Ok None
       | Some ext_outer \<Rightarrow>
           and_then (read_tlv_expect ext_outer TAG_SEQUENCE) (\<lambda>ext_seq.
             walk_extensions matches (tlv_value ext_seq)))))"

text \<open>\<open>der_helpers.rs\<close>: by the DER content of the identifier.\<close>

definition TAG_UTF8_STRING :: u8 where "TAG_UTF8_STRING = 0x0C"

datatype der_error =
    UnexpectedTag u8
  | InvalidUtf8
  | Truncated
  | Tlv string
  | InvalidOid string

fun der_error_to_string :: "der_error \<Rightarrow> string" where
  "der_error_to_string (UnexpectedTag t) = ''der: unexpected tag 0x'' @ hex02 t"
| "der_error_to_string InvalidUtf8 = ''der: invalid utf-8 in utf8string''"
| "der_error_to_string Truncated = ''der: input truncated''"
| "der_error_to_string (Tlv m) = ''der: tlv parse error: '' @ m"
| "der_error_to_string (InvalidOid m) = ''der: invalid target oid: '' @ m"

definition der_error_from :: "trust_error \<Rightarrow> der_error" where
  "der_error_from e = Tlv (trust_error_to_string e)"

definition extract_extension_by_oid ::
  "crypto \<Rightarrow> bytes \<Rightarrow> string \<Rightarrow> (der_error, bytes option) result" where
  "extract_extension_by_oid C cert_der target_oid =
     and_then (map_err InvalidOid (c_oid_from_str C target_oid)) (\<lambda>target_bytes.
       map_err der_error_from (cert_extension (\<lambda>oid. Ok (oid = target_bytes)) cert_der))"

function utf8_elements :: "bytes \<Rightarrow> (der_error, string list) result" where
  "utf8_elements rest =
     (if rest = [] then Ok []
      else case read_tlv rest of
        Inl e \<Rightarrow> Err (der_error_from e)
      | Inr t \<Rightarrow>
          if tlv_tag t \<noteq> TAG_UTF8_STRING then Err (UnexpectedTag (tlv_tag t))
          else (case from_utf8 (tlv_value t) of
             None \<Rightarrow> Err InvalidUtf8
           | Some s \<Rightarrow> and_then (utf8_elements (tlv_rest t)) (\<lambda>out. Ok (s # out))))"
  by auto
termination
  by (relation "measure length") (auto dest: read_tlv_shorter)

declare utf8_elements.simps [simp del]

definition parse_seq_of_utf8 :: "bytes \<Rightarrow> (der_error, string list) result" where
  "parse_seq_of_utf8 value_der =
     (if value_der = [] then Err Truncated
      else and_then (map_err der_error_from (read_tlv_expect value_der TAG_SEQUENCE)) (\<lambda>seq.
        utf8_elements (tlv_value seq)))"

text \<open>\<open>ext.rs\<close>: by the dotted form of the identifier.\<close>

definition extension_value :: "x509 \<Rightarrow> string \<Rightarrow> (trust_error, bytes option) result" where
  "extension_value cert target_oid =
     (case xf_to_der cert of
        Inl e \<Rightarrow> Err (Openssl e)
      | Inr stack \<Rightarrow>
          cert_extension (\<lambda>oid. and_then (oid_to_dotted oid) (\<lambda>dotted. Ok (dotted = target_oid))) stack)"

section \<open>Typed views\<close>

definition OID_KEY_USAGE :: string where "OID_KEY_USAGE = ''2.5.29.15''"
definition OID_BASIC_CONSTRAINTS :: string where "OID_BASIC_CONSTRAINTS = ''2.5.29.19''"
definition OID_EXT_KEY_USAGE :: string where "OID_EXT_KEY_USAGE = ''2.5.29.37''"

record basic_constraints_view =
  bc_is_ca :: bool
  bc_path_len :: "u32 option"

function eku_elements :: "bytes \<Rightarrow> (trust_error, string list) result" where
  "eku_elements rest =
     (if rest = [] then Ok []
      else case read_tlv_expect rest TAG_OID of
        Inl e \<Rightarrow> Err e
      | Inr oid \<Rightarrow>
          and_then (oid_to_dotted (tlv_value oid)) (\<lambda>d.
          and_then (eku_elements (tlv_rest oid)) (\<lambda>out. Ok (d # out))))"
  by auto
termination
  by (relation "measure length") (auto dest: read_tlv_expect_shorter)

declare eku_elements.simps [simp del]

definition eku_oids :: "x509 \<Rightarrow> (trust_error, string list) result" where
  "eku_oids cert =
     and_then (extension_value cert OID_EXT_KEY_USAGE) (\<lambda>value.
       case value of
         None \<Rightarrow> Ok []
       | Some v \<Rightarrow> and_then (read_tlv_expect v TAG_SEQUENCE) (\<lambda>seq. eku_elements (tlv_value seq)))"

text \<open>The bit test on the content of the \<open>BIT STRING\<close>. \<open>8 - unused\<close> is arithmetic on \<open>u8\<close>: the
  release profile has no overflow checks, so it wraps when \<open>unused\<close> exceeds 8.\<close>

definition key_usage_bit_of :: "bytes \<Rightarrow> u8 \<Rightarrow> bool" where
  "key_usage_bit_of content k =
     (case content of
        [] \<Rightarrow> False
      | unused # bytes \<Rightarrow>
          if bytes = [] then False
          else let byte_index = unat (k div 8) in
            if byte_index \<ge> length bytes then False
            else let bit_in_byte = k mod 8;
                     mask = drop_bit (unat bit_in_byte) (0x80 :: u8);
                     last_byte = length bytes - 1
              in if byte_index = last_byte \<and> bit_in_byte \<ge> 8 - unused then False
                 else bytes ! byte_index AND mask \<noteq> 0)"

definition key_usage_bit :: "x509 \<Rightarrow> u8 \<Rightarrow> (trust_error, bool) result" where
  "key_usage_bit cert k =
     and_then (extension_value cert OID_KEY_USAGE) (\<lambda>value.
       case value of
         None \<Rightarrow> Ok False
       | Some v \<Rightarrow> and_then (read_tlv_expect v TAG_BIT_STRING) (\<lambda>bs.
           Ok (key_usage_bit_of (tlv_value bs) k)))"

definition u32_max :: nat where "u32_max = 2 ^ 32 - 1"

text \<open>The \<open>pathLenConstraint\<close> loop: the accumulator is at most \<open>u32::MAX\<close> before each shift, so
  it stays within a \<open>u64\<close>.\<close>

fun path_len_acc :: "nat \<Rightarrow> bytes \<Rightarrow> (trust_error, nat) result" where
  "path_len_acc acc [] = Ok acc"
| "path_len_acc acc (b # bs) =
     (let acc' = acc * 256 + unat b in
      if acc' > u32_max then Err (CertParse ''basicConstraints: pathLen overflow'')
      else path_len_acc acc' bs)"

lemma path_len_acc_code [code]:
  "path_len_acc acc [] = Ok acc"
  "path_len_acc acc (b # bs) =
     (let acc' = acc * 256 + unat b in
      if int acc' > 4294967295 then Err (CertParse ''basicConstraints: pathLen overflow'')
      else path_len_acc acc' bs)"
proof -
  have "(int n > 4294967295) = (n > u32_max)" for n by (simp add: u32_max_def)
  then show "path_len_acc acc (b # bs) =
     (let acc' = acc * 256 + unat b in
      if int acc' > 4294967295 then Err (CertParse ''basicConstraints: pathLen overflow'')
      else path_len_acc acc' bs)"
    by (simp only: path_len_acc.simps)
qed simp

definition bc_boolean :: "bytes \<Rightarrow> (trust_error, bool \<times> bytes) result" where
  "bc_boolean rest =
     (if rest = [] then Ok (False, rest)
      else and_then (read_tlv rest) (\<lambda>first.
        Ok (if tlv_tag first = TAG_BOOLEAN
            then (case tlv_value first of [] \<Rightarrow> False | b # _ \<Rightarrow> b \<noteq> 0, tlv_rest first)
            else (False, rest))))"

definition bc_integer :: "bytes \<Rightarrow> (trust_error, u32 option) result" where
  "bc_integer rest =
     (if rest = [] then Ok None
      else and_then (read_tlv rest) (\<lambda>nxt.
        if tlv_tag nxt = TAG_INTEGER
        then and_then (path_len_acc 0 (tlv_value nxt)) (\<lambda>acc. Ok (Some (of_nat acc)))
        else Ok None))"

definition basic_constraints_of :: "bytes \<Rightarrow> (trust_error, basic_constraints_view) result" where
  "basic_constraints_of v =
     and_then (read_tlv_expect v TAG_SEQUENCE) (\<lambda>seq.
     and_then (bc_boolean (tlv_value seq)) (\<lambda>(is_ca, rest).
     and_then (bc_integer rest) (\<lambda>path_len.
       Ok \<lparr>bc_is_ca = is_ca, bc_path_len = path_len\<rparr>)))"

definition basic_constraints ::
  "x509 \<Rightarrow> (trust_error, basic_constraints_view option) result" where
  "basic_constraints cert =
     and_then (extension_value cert OID_BASIC_CONSTRAINTS) (\<lambda>value.
       case value of
         None \<Rightarrow> Ok None
       | Some v \<Rightarrow> and_then (basic_constraints_of v) (\<lambda>b. Ok (Some b)))"

section \<open>The certificate wrapper\<close>

record certificate =
  cert_inner :: x509
  cert_der_cache :: bytes

definition certificate_from_der :: "crypto \<Rightarrow> bytes \<Rightarrow> (trust_error, certificate) result" where
  "certificate_from_der C der =
     and_then (map_err CertParse (c_x509_from_der C der)) (\<lambda>inner.
       Ok \<lparr>cert_inner = inner, cert_der_cache = der\<rparr>)"

definition certificate_from_pem :: "crypto \<Rightarrow> bytes \<Rightarrow> (trust_error, certificate) result" where
  "certificate_from_pem C pem =
     and_then (map_err CertParse (c_x509_from_pem C pem)) (\<lambda>inner.
     and_then (map_err CertParse (xf_to_der inner)) (\<lambda>der.
       Ok \<lparr>cert_inner = inner, cert_der_cache = der\<rparr>))"

text \<open>The first entry with the given attribute decides: a value that does not decode is not
  skipped.\<close>

definition first_text_by_nid :: "x509_name \<Rightarrow> string \<Rightarrow> string option" where
  "first_text_by_nid name nid =
     (case filter (\<lambda>(k, _). k = Some nid) (nm_entries name) of
        [] \<Rightarrow> None
      | (_, v) # _ \<Rightarrow> v)"

definition subject_cn :: "certificate \<Rightarrow> (trust_error, string) result" where
  "subject_cn c =
     ok_or (FieldMissing ''subject CN'') (first_text_by_nid (xf_subject_name (cert_inner c)) ''CN'')"

definition san_emails :: "certificate \<Rightarrow> string list" where
  "san_emails c =
     (case xf_alt_name_emails (cert_inner c) of
        None \<Rightarrow> [] | Some names \<Rightarrow> List.map_filter id names)"

definition unwrap_or_default :: "string option \<Rightarrow> string" where
  "unwrap_or_default m = (case m of None \<Rightarrow> [] | Some s \<Rightarrow> s)"

definition serial_hex :: "certificate \<Rightarrow> string" where
  "serial_hex c = unwrap_or_default (xf_serial (cert_inner c))"

text \<open>Seconds since the epoch, negative before it.\<close>

definition asn1_to_system :: "time_diff \<Rightarrow> int" where
  "asn1_to_system t = (case t of None \<Rightarrow> 0 | Some (days, secs) \<Rightarrow> days * 86400 + secs)"

definition not_before :: "certificate \<Rightarrow> int" where
  "not_before c = asn1_to_system (xf_not_before (cert_inner c))"

definition not_after :: "certificate \<Rightarrow> int" where
  "not_after c = asn1_to_system (xf_not_after (cert_inner c))"

definition signature_algorithm :: "certificate \<Rightarrow> string" where
  "signature_algorithm c = xf_signature_algorithm (cert_inner c)"

definition key_usage_digital_signature :: "certificate \<Rightarrow> (trust_error, bool) result" where
  "key_usage_digital_signature c = key_usage_bit (cert_inner c) 0"

definition key_usage_key_cert_sign :: "certificate \<Rightarrow> (trust_error, bool) result" where
  "key_usage_key_cert_sign c = key_usage_bit (cert_inner c) 5"

definition eku_client_auth :: "certificate \<Rightarrow> (trust_error, bool) result" where
  "eku_client_auth c =
     and_then (eku_oids (cert_inner c)) (\<lambda>oids. Ok (list_ex (\<lambda>o'. o' = ''1.3.6.1.5.5.7.3.2'') oids))"

definition certificate_public_key :: "certificate \<Rightarrow> (trust_error, pkey) result" where
  "certificate_public_key c = map_err Openssl (xf_public_key (cert_inner c))"

text \<open>The identifiers recorded with every audit event of a verified certificate.\<close>

record cert_ident =
  ci_serial :: string
  ci_issuer :: string
  ci_cn :: string
  ci_fingerprint :: string

definition cert_ident_from :: "x509 \<Rightarrow> cert_ident" where
  "cert_ident_from x =
     \<lparr>ci_serial = unwrap_or_default (xf_serial x),
      ci_issuer = join '','' (map (\<lambda>(k, v). unwrap_or_default k @ ''='' @ unwrap_or_default v)
                               (nm_entries (xf_issuer_name x))),
      ci_cn = unwrap_or_default (first_text_by_nid (xf_subject_name x) ''CN''),
      ci_fingerprint = (case xf_digest_sha256 x of None \<Rightarrow> [] | Some d \<Rightarrow> concat (map hex02 d))\<rparr>"

section \<open>Reference encoding of a certificate\<close>

type_synonym ext = "bytes \<times> bool \<times> bytes"

definition ext_body :: "bytes \<Rightarrow> bool \<Rightarrow> bytes \<Rightarrow> bytes" where
  "ext_body oid critical v =
     encode_tlv TAG_OID oid @
     (if critical then encode_tlv TAG_BOOLEAN [0xFF] else []) @
     encode_tlv TAG_OCTET_STRING v"

fun encode_ext :: "ext \<Rightarrow> bytes" where
  "encode_ext (oid, critical, v) = encode_tlv TAG_SEQUENCE (ext_body oid critical v)"

text \<open>\<open>fs\<close> are the elements of \<open>tbsCertificate\<close> before the extensions, \<open>sig\<close> the two elements
  that follow it.\<close>

definition encode_tbs :: "(u8 \<times> bytes) list \<Rightarrow> ext list \<Rightarrow> bytes" where
  "encode_tbs fs exts =
     concat (map (\<lambda>(t, v). encode_tlv t v) fs) @
     encode_tlv 0xA3 (encode_tlv TAG_SEQUENCE (concat (map encode_ext exts)))"

definition encode_cert :: "(u8 \<times> bytes) list \<Rightarrow> ext list \<Rightarrow> bytes \<Rightarrow> bytes" where
  "encode_cert fs exts sig =
     encode_tlv TAG_SEQUENCE (encode_tlv TAG_SEQUENCE (encode_tbs fs exts) @ sig)"

definition encode_seq_of_utf8 :: "string list \<Rightarrow> bytes" where
  "encode_seq_of_utf8 ss =
     encode_tlv TAG_SEQUENCE (concat (map (\<lambda>s. encode_tlv TAG_UTF8_STRING (as_bytes s)) ss))"

definition ext_lookup :: "ext list \<Rightarrow> bytes \<Rightarrow> bytes option" where
  "ext_lookup exts oid = map_of (map (\<lambda>(o', _, v). (o', v)) exts) oid"

section \<open>The walkers find what was encoded\<close>

text \<open>Concrete encodings are measured against a bound that is quick to evaluate.\<close>

lemma small_encoding: "length (bs :: bytes) \<le> 500 \<Longrightarrow> length bs < 2 ^ 32"
  by simp

lemma length_encode_tlv: "length v < length (encode_tlv tag v)"
  by (simp add: encode_tlv_def)

lemma length_ext_body:
  "length oid < length (ext_body oid c v)" "length v < length (ext_body oid c v)"
  using length_encode_tlv [of oid TAG_OID] length_encode_tlv [of v TAG_OCTET_STRING]
  by (auto simp: ext_body_def)

lemma match_extension_encode:
  assumes "length oid < 2 ^ 32" and "length v < 2 ^ 32"
  shows "match_extension matches (ext_body oid c v)
         = and_then (matches oid) (\<lambda>m. Ok (if m then Some v else None))"
proof -
  have "read_tlv (encode_tlv TAG_OCTET_STRING v) =
          Ok \<lparr>tlv_tag = TAG_OCTET_STRING, tlv_value = v, tlv_rest = []\<rparr>"
    using read_tlv_encode_tlv [OF assms(2), of TAG_OCTET_STRING "[]"] by simp
  then have "skip_critical ((if c then encode_tlv TAG_BOOLEAN [0xFF] else []) @
        encode_tlv TAG_OCTET_STRING v) = Ok (encode_tlv TAG_OCTET_STRING v)"
    by (simp add: skip_critical_def read_tlv_encode_tlv tag_defs)
  with assms show ?thesis
    by (simp only: match_extension_def ext_body_def read_tlv_expect_encode_tlv
          read_tlv_expect_encode_tlv0 and_then_simps tlv.simps)
qed

lemma walk_extensions_encode:
  assumes "length (concat (map encode_ext exts)) < 2 ^ 32"
    and "\<And>o' c v. (o', c, v) \<in> set exts \<Longrightarrow> matches o' = Ok (o' = oid)"
  shows "walk_extensions matches (concat (map encode_ext exts)) = Ok (ext_lookup exts oid)"
  using assms
proof (induction exts)
  case Nil
  then show ?case by (simp add: walk_extensions.simps ext_lookup_def)
next
  case (Cons x exts)
  obtain o' c v where x: "x = (o', c, v)" by (cases x)
  have b: "length (ext_body o' c v) < 2 ^ 32"
    using Cons.prems(1) length_encode_tlv [of "ext_body o' c v" TAG_SEQUENCE] x by simp
  then have r: "read_tlv_expect (encode_ext x @ concat (map encode_ext exts)) TAG_SEQUENCE =
      Ok \<lparr>tlv_tag = TAG_SEQUENCE, tlv_value = ext_body o' c v, tlv_rest = concat (map encode_ext exts)\<rparr>"
    unfolding x encode_ext.simps by (rule read_tlv_expect_encode_tlv)
  have m: "match_extension matches (ext_body o' c v) = Ok (if o' = oid then Some v else None)"
    using length_ext_body(1) [of o' c v] length_ext_body(2) [of v o' c] b Cons.prems(2) [of o' c v] x
    by (subst match_extension_encode) auto
  have "walk_extensions matches (concat (map encode_ext exts)) = Ok (ext_lookup exts oid)"
    by (rule Cons.IH) (use Cons.prems in \<open>auto intro: Cons.prems(2)\<close>)
  with r m show ?case
    by (subst walk_extensions.simps) (simp add: x ext_lookup_def)
qed

lemma tbs_extensions_encode:
  assumes "length (concat (map (\<lambda>(t, v). encode_tlv t v) fs)) < 2 ^ 32"
    and "\<forall>(t, v)\<in>set fs. t \<noteq> 0xA3" and "length w < 2 ^ 32"
  shows "tbs_extensions (concat (map (\<lambda>(t, v). encode_tlv t v) fs) @ encode_tlv 0xA3 w) =
           Ok (Some w)"
  using assms(1,2)
proof (induction fs)
  case Nil
  have "read_tlv (encode_tlv 0xA3 w) = Ok \<lparr>tlv_tag = 0xA3, tlv_value = w, tlv_rest = []\<rparr>"
    using read_tlv_encode_tlv [OF assms(3), of "0xA3" "[]"] by simp
  then show ?case by (simp add: tbs_extensions.simps)
next
  case (Cons f fs)
  obtain t v where f: "f = (t, v)" by (cases f)
  have "length v < 2 ^ 32" using Cons.prems(1) length_encode_tlv [of v t] by (simp add: f)
  with Cons f show ?case
    by (subst tbs_extensions.simps) (simp add: read_tlv_encode_tlv)
qed

lemma cert_extension_encode:
  assumes "length (encode_cert fs exts sig) < 2 ^ 32"
    and "\<forall>(t, v)\<in>set fs. t \<noteq> 0xA3"
    and "\<And>o' c v. (o', c, v) \<in> set exts \<Longrightarrow> matches o' = Ok (o' = oid)"
  shows "cert_extension matches (encode_cert fs exts sig) = Ok (ext_lookup exts oid)"
proof -
  let ?e = "concat (map encode_ext exts)" and ?f = "concat (map (\<lambda>(t, v). encode_tlv t v) fs)"
  let ?seq = "encode_tlv TAG_SEQUENCE ?e" and ?tbs = "encode_tbs fs exts"
  have l: "length ?e < length ?seq" "length ?seq < length (encode_tlv 0xA3 ?seq)"
    "length ?tbs < length (encode_tlv TAG_SEQUENCE ?tbs)"
    "length (encode_tlv TAG_SEQUENCE ?tbs @ sig) < length (encode_cert fs exts sig)"
    by (simp_all only: length_encode_tlv encode_cert_def)
  have "length ?tbs = length ?f + length (encode_tlv 0xA3 ?seq)" by (simp add: encode_tbs_def)
  with l assms(1) have b: "length ?e < 2 ^ 32" "length ?seq < 2 ^ 32" "length ?f < 2 ^ 32"
    "length ?tbs < 2 ^ 32" "length (encode_tlv TAG_SEQUENCE ?tbs @ sig) < 2 ^ 32"
    by simp_all
  have "tbs_extensions ?tbs = Ok (Some ?seq)"
    unfolding encode_tbs_def by (rule tbs_extensions_encode) (use b assms(2) in auto)
  moreover have "walk_extensions matches ?e = Ok (ext_lookup exts oid)"
    by (rule walk_extensions_encode) (use b assms(3) in auto)
  ultimately show ?thesis
    using b
    by (simp only: cert_extension_def encode_cert_def read_tlv_expect_encode_tlv
          read_tlv_expect_encode_tlv0 and_then_simps tlv.simps option.case)
qed

lemma extract_extension_encode:
  assumes "c_oid_from_str C target = Ok oid"
    and "length (encode_cert fs exts sig) < 2 ^ 32" and "\<forall>(t, v)\<in>set fs. t \<noteq> 0xA3"
  shows "extract_extension_by_oid C (encode_cert fs exts sig) target = Ok (ext_lookup exts oid)"
  using cert_extension_encode [OF assms(2,3), of "\<lambda>o'. Ok (o' = oid)" oid] assms(1)
  by (simp add: extract_extension_by_oid_def)

lemma utf8_elements_encode:
  assumes "length (concat (map (\<lambda>s. encode_tlv TAG_UTF8_STRING (as_bytes s)) ss)) < 2 ^ 32"
    and "\<forall>s\<in>set ss. utf8_valid (as_bytes s)"
  shows "utf8_elements (concat (map (\<lambda>s. encode_tlv TAG_UTF8_STRING (as_bytes s)) ss)) = Ok ss"
  using assms
proof (induction ss)
  case (Cons s ss)
  have "length (as_bytes s) < 2 ^ 32"
    using Cons.prems(1) length_encode_tlv [of "as_bytes s" TAG_UTF8_STRING] by simp
  with Cons show ?case
    by (subst utf8_elements.simps) (simp add: read_tlv_encode_tlv from_utf8_def)
qed (simp add: utf8_elements.simps)

lemma parse_seq_of_utf8_encode:
  assumes "length (encode_seq_of_utf8 ss) < 2 ^ 32" and "\<forall>s\<in>set ss. utf8_valid (as_bytes s)"
  shows "parse_seq_of_utf8 (encode_seq_of_utf8 ss) = Ok ss"
proof -
  let ?c = "concat (map (\<lambda>s. encode_tlv TAG_UTF8_STRING (as_bytes s)) ss)"
  have "length ?c < 2 ^ 32"
    using assms(1) length_encode_tlv [of ?c TAG_SEQUENCE] by (simp add: encode_seq_of_utf8_def)
  then show ?thesis
    using utf8_elements_encode [OF _ assms(2)]
    by (simp add: parse_seq_of_utf8_def encode_seq_of_utf8_def read_tlv_expect_encode_tlv0)
qed

section \<open>Key usage and basic constraints\<close>

text \<open>Bit \<open>k\<close> of a \<open>BIT STRING\<close> counts from the most significant bit of the first byte.\<close>

definition bit_string_bit :: "bytes \<Rightarrow> nat \<Rightarrow> bool" where
  "bit_string_bit bs k \<longleftrightarrow> bit (bs ! (k div 8)) (7 - k mod 8)"

lemma drop_bit_0x80: "n < 8 \<Longrightarrow> drop_bit n (0x80 :: u8) = 2 ^ (7 - n)"
proof -
  assume "n < 8"
  then have "n = 0 \<or> n = 1 \<or> n = 2 \<or> n = 3 \<or> n = 4 \<or> n = 5 \<or> n = 6 \<or> n = 7" by linarith
  then show ?thesis by (elim disjE) (simp_all add: drop_bit_eq_div)
qed

lemma key_usage_bit_of_spec:
  assumes "unat unused < 8" and "bs \<noteq> []" and "k < 256"
  shows "key_usage_bit_of (unused # bs) (u8_of k) \<longleftrightarrow>
           k < 8 * length bs - unat unused \<and> bit_string_bit bs k"
proof -
  have q: "unat (u8_of k div 8) = k div 8" "unat (u8_of k mod 8) = k mod 8"
    using assms(3) by (simp_all add: unat_div unat_mod)
  have s: "unat (8 - unused) = 8 - unat unused"
    using assms(1) by (simp add: unat_sub word_le_nat_alt)
  have m: "(bs ! (k div 8) AND drop_bit (k mod 8) 0x80 \<noteq> 0) = bit_string_bit bs k"
    by (simp add: drop_bit_0x80 bit_string_bit_def and_exp_eq_0_iff_not_bit)
  have "(k div 8 \<ge> length bs \<or> k div 8 = length bs - 1 \<and> k mod 8 \<ge> 8 - unat unused) =
        (\<not> k < 8 * length bs - unat unused)"
  proof -
    obtain a where a: "length bs = Suc a" using assms(2) by (cases bs) auto
    have k: "k = 8 * (k div 8) + k mod 8" "k mod 8 < 8" by simp_all
    show ?thesis using assms(1) k a by (cases "k div 8 < a"; cases "k div 8 = a") linarith+
  qed
  then show ?thesis using assms(2) m
    by (auto simp: key_usage_bit_of_def Let_def q s word_le_nat_alt)
qed

lemma path_len_acc_Ok: "path_len_acc acc bs = Ok n \<Longrightarrow> n = be_acc acc bs \<and> (bs \<noteq> [] \<longrightarrow> n \<le> u32_max)"
  by (induction acc bs rule: path_len_acc.induct) (auto simp: Let_def split: if_splits)

lemma be_acc_mono: "acc \<le> be_acc acc bs"
  by (induction acc bs rule: be_acc.induct) auto

lemma path_len_acc_be: "be_acc acc bs \<le> u32_max \<Longrightarrow> path_len_acc acc bs = Ok (be_acc acc bs)"
proof (induction acc bs rule: path_len_acc.induct)
  case (2 acc b bs)
  have "acc * 256 + unat b \<le> u32_max"
    using be_acc_mono [of "acc * 256 + unat b" bs] "2.prems" by simp
  with 2 show ?case by simp
qed simp

definition encode_basic_constraints :: "bool \<Rightarrow> bytes option \<Rightarrow> bytes" where
  "encode_basic_constraints ca path_len =
     encode_tlv TAG_SEQUENCE
       ((if ca then encode_tlv TAG_BOOLEAN [0xFF] else []) @
        (case path_len of None \<Rightarrow> [] | Some bs \<Rightarrow> encode_tlv TAG_INTEGER bs))"

lemma bc_integer_encode:
  assumes "length bs < 2 ^ 32" and "be_acc 0 bs \<le> u32_max"
  shows "bc_integer (encode_tlv TAG_INTEGER bs) = Ok (Some (of_nat (be_acc 0 bs)))"
  using read_tlv_encode_tlv [OF assms(1), of TAG_INTEGER "[]"] path_len_acc_be [OF assms(2)]
  by (simp add: bc_integer_def)

lemma bc_boolean_encode:
  "bc_boolean (encode_tlv TAG_BOOLEAN [0xFF] @ r) = Ok (True, r)"
  by (simp add: bc_boolean_def read_tlv_encode_tlv)

lemma bc_boolean_integer:
  "length bs < 2 ^ 32 \<Longrightarrow> bc_boolean (encode_tlv TAG_INTEGER bs) = Ok (False, encode_tlv TAG_INTEGER bs)"
  using read_tlv_encode_tlv [of bs TAG_INTEGER "[]"] by (simp add: bc_boolean_def tag_defs)

lemma basic_constraints_of_encode:
  assumes "length (encode_basic_constraints ca pl) < 2 ^ 32"
    and "\<forall>bs. pl = Some bs \<longrightarrow> be_acc 0 bs \<le> u32_max"
  shows "basic_constraints_of (encode_basic_constraints ca pl) =
           Ok \<lparr>bc_is_ca = ca, bc_path_len = map_option (\<lambda>bs. of_nat (be_acc 0 bs)) pl\<rparr>"
proof -
  let ?i = "case pl of None \<Rightarrow> [] | Some bs \<Rightarrow> encode_tlv TAG_INTEGER bs"
  let ?c = "(if ca then encode_tlv TAG_BOOLEAN [0xFF] else []) @ ?i"
  have l: "length ?c < 2 ^ 32"
    using assms(1) length_encode_tlv [of ?c TAG_SEQUENCE] by (simp add: encode_basic_constraints_def)
  then have p: "length bs < 2 ^ 32" if "pl = Some bs" for bs
    using that length_encode_tlv [of bs TAG_INTEGER] by (auto split: if_splits)
  have "bc_boolean ?c = Ok (ca, ?i)"
  proof (cases ca)
    case False
    then show ?thesis using bc_boolean_integer p by (cases pl) (simp_all add: bc_boolean_def)
  qed (simp add: bc_boolean_encode)
  moreover have "bc_integer ?i = Ok (map_option (\<lambda>bs. of_nat (be_acc 0 bs)) pl)"
    using bc_integer_encode p assms(2) by (cases pl) (simp_all add: bc_integer_def)
  ultimately show ?thesis using l
    by (simp only: basic_constraints_of_def encode_basic_constraints_def read_tlv_expect_encode_tlv0
          and_then_simps tlv.simps split_conv)
qed

section \<open>Properties\<close>

text \<open>
  C29. The extension with the wanted identifier is found: on the encoding of a certificate with any
  fields and any list of extensions, critical or not, the extractor returns the value of the first
  extension with that identifier and nothing when there is none.
\<close>

theorem extension_found:
  assumes "c_oid_from_str C target = Ok oid"
    and "length (encode_cert fs exts sig) < 2 ^ 32" and "\<forall>(t, v)\<in>set fs. t \<noteq> 0xA3"
  shows "extract_extension_by_oid C (encode_cert fs exts sig) target = Ok (ext_lookup exts oid)"
  using assms by (rule extract_extension_encode)

definition demo_ext_crypto :: crypto where
  "demo_ext_crypto =
     \<lparr>c_oid_from_str = (\<lambda>s. if s = ''2.5.29.15'' then Ok [0x55, 0x1D, 0x0F] else Err ''oid''),
      c_sha256 = (\<lambda>b. b), c_x509_from_der = (\<lambda>_. Err ''x509''), c_x509_from_pem = (\<lambda>_. Err ''x509''),
      c_x509_verify = (\<lambda>_ _. Ok False), c_public_key_to_der = (\<lambda>_. Ok []), c_crl_from_pem = (\<lambda>_. Err ''crl''),
      c_crl_from_der = (\<lambda>_. Err ''crl''), c_crl_verify = (\<lambda>_ _. Ok False)\<rparr>"

lemma extension_found_witness:
  "extract_extension_by_oid demo_ext_crypto (encode_cert [(0x02, [1])] [([0x55, 0x1D, 0x0F], True, [3, 2, 7, 0x80])] []) ''2.5.29.15'' =
     Ok (Some [3, 2, 7, 0x80])"
proof -
  have "length (encode_cert [(0x02, [1])] [([0x55, 0x1D, 0x0F], True, [3, 2, 7, 0x80])] []) \<le> 500"
    by (simp add: encode_cert_def encode_tbs_def ext_body_def encode_tlv_def der_len_def)
  from extension_found [OF _ small_encoding [OF this], of demo_ext_crypto "''2.5.29.15''" "[0x55, 0x1D, 0x0F]"]
  show ?thesis by (simp add: demo_ext_crypto_def ext_lookup_def)
qed

text \<open>
  Key usage bits are read as the standard numbers them: bit \<open>k\<close> of a \<open>BIT STRING\<close> with fewer
  than eight unused bits is reported exactly when it is one of the used bits and set, counting from
  the most significant bit of the first byte.
\<close>

theorem key_usage_bits:
  assumes "unat unused < 8" and "bs \<noteq> []" and "k < 256"
  shows "key_usage_bit_of (unused # bs) (u8_of k) \<longleftrightarrow>
           k < 8 * length bs - unat unused \<and> bit_string_bit bs k"
  using assms by (rule key_usage_bit_of_spec)

lemma key_usage_bits_witness: "key_usage_bit_of [2, 0x84] (u8_of 5) \<longleftrightarrow> bit_string_bit [0x84] 5"
  using key_usage_bits [of 2 "[0x84]" 5] by simp

text \<open>
  Basic constraints read back: the \<open>CA\<close> flag and the path length of an encoded extension,
  with either of them absent, are what was encoded, for every path length of 32 bits.
\<close>

theorem basic_constraints_read:
  assumes "length (encode_basic_constraints ca pl) < 2 ^ 32"
    and "\<forall>bs. pl = Some bs \<longrightarrow> be_acc 0 bs \<le> u32_max"
  shows "basic_constraints_of (encode_basic_constraints ca pl) =
           Ok \<lparr>bc_is_ca = ca, bc_path_len = map_option (\<lambda>bs. of_nat (be_acc 0 bs)) pl\<rparr>"
  using assms by (rule basic_constraints_of_encode)

lemma basic_constraints_read_witness:
  "basic_constraints_of (encode_basic_constraints True (Some [0])) = Ok \<lparr>bc_is_ca = True, bc_path_len = Some 0\<rparr>"
proof -
  have "length (encode_basic_constraints True (Some [0])) \<le> 500"
    by (simp add: encode_basic_constraints_def encode_tlv_def der_len_def)
  from basic_constraints_read [OF small_encoding [OF this]] show ?thesis
    by (simp add: u32_max_def)
qed

end
