(* ===== verification/Cert_Scope.thy ===== *)
theory Cert_Scope
  imports Cert_Ext
begin

text \<open>
  Which user on which host: the parsers of the private extensions
  (\<open>x509/host_binding_ext.rs\<close>, \<open>x509/user_binding_ext.rs\<close>), the gate over both
  (\<open>host_binding.rs\<close>) and the fallback mapping of certificate subjects to accounts
  (\<open>mapping.rs\<close>). A slice at an index that is not a character boundary panics; the panic is the
  error \<open>HostExtPanic\<close>, which becomes \<open>BindingPanicked\<close>.
\<close>

section \<open>The host and user binding extensions\<close>

definition HOST_BINDING_OID :: string where
  "HOST_BINDING_OID = ''2.25.183976554325829274683049824615098''"

definition USER_BINDING_OID :: string where
  "USER_BINDING_OID = ''2.25.215438916728501023845629178354627''"

datatype host_descriptor = HostWildcard | Sha256Hex string | Raw string

datatype host_binding_ext_error =
    HostExtMissing
  | HostExtMalformed string
  | HostExtEmpty
  | HostExtPanic

text \<open>The rejected digest in the message of a malformed entry is kept verbatim, without the
  escapes of the debug format.\<close>

definition classify :: "string \<Rightarrow> (host_binding_ext_error, host_descriptor) result" where
  "classify s =
     (if s = ''*'' then Ok HostWildcard
      else if length s \<ge> 7 \<and> \<not> is_char_boundary s 7 then Err HostExtPanic
      else if length s \<ge> 7 \<and> eq_ignore_ascii_case (take 7 s) ''sha256:'' then
        (let rest = drop 7 s; lowered = to_ascii_lowercase rest in
         if length lowered \<noteq> 64 \<or> \<not> list_all is_ascii_hexdigit lowered
         then Err (HostExtMalformed (''sha256 digest must be 64 lowercase hex chars, got '' @ rest))
         else Ok (Sha256Hex lowered))
      else Ok (Raw s))"

definition host_binding_parse ::
  "crypto \<Rightarrow> x509 \<Rightarrow> (host_binding_ext_error, host_descriptor list) result" where
  "host_binding_parse C cert =
     and_then (map_err (\<lambda>e. HostExtMalformed (''openssl: '' @ e)) (xf_to_der cert)) (\<lambda>der.
     and_then (case extract_extension_by_oid C der HOST_BINDING_OID of
                 Inr (Some v) \<Rightarrow> Ok v
               | Inr None \<Rightarrow> Err HostExtMissing
               | Inl e \<Rightarrow> Err (HostExtMalformed (der_error_to_string e))) (\<lambda>value.
     and_then (map_err (\<lambda>e. HostExtMalformed (der_error_to_string e)) (parse_seq_of_utf8 value))
       (\<lambda>strings. if strings = [] then Err HostExtEmpty else try_map classify strings)))"

datatype user_descriptor = UserWildcard | Exact string

datatype user_binding_ext_error = UserExtMissing | UserExtMalformed string | UserExtEmpty

definition user_descriptor_of :: "string \<Rightarrow> user_descriptor" where
  "user_descriptor_of s = (if s = ''*'' then UserWildcard else Exact s)"

definition user_binding_parse ::
  "crypto \<Rightarrow> x509 \<Rightarrow> (user_binding_ext_error, user_descriptor list) result" where
  "user_binding_parse C cert =
     and_then (map_err (\<lambda>e. UserExtMalformed (''openssl: '' @ e)) (xf_to_der cert)) (\<lambda>der.
     and_then (case extract_extension_by_oid C der USER_BINDING_OID of
                 Inr (Some v) \<Rightarrow> Ok v
               | Inr None \<Rightarrow> Err UserExtMissing
               | Inl e \<Rightarrow> Err (UserExtMalformed (der_error_to_string e))) (\<lambda>value.
     and_then (map_err (\<lambda>e. UserExtMalformed (der_error_to_string e)) (parse_seq_of_utf8 value))
       (\<lambda>strings. if strings = [] then Err UserExtEmpty
                  else Ok (map user_descriptor_of strings))))"

section \<open>The scope gate\<close>

datatype host_binding_error =
    HostExtensionMissing
  | UserExtensionMissing
  | HostExtensionMalformed string
  | UserExtensionMalformed string
  | HostNotAllowed string
  | UserNotAllowed string
  | BindingPanicked

fun from_host_ext_error :: "host_binding_ext_error \<Rightarrow> host_binding_error" where
  "from_host_ext_error HostExtMissing = HostExtensionMissing"
| "from_host_ext_error (HostExtMalformed m) = HostExtensionMalformed m"
| "from_host_ext_error HostExtEmpty = HostExtensionMalformed ''extension has no entries''"
| "from_host_ext_error HostExtPanic = BindingPanicked"

fun from_user_ext_error :: "user_binding_ext_error \<Rightarrow> host_binding_error" where
  "from_user_ext_error UserExtMissing = UserExtensionMissing"
| "from_user_ext_error (UserExtMalformed m) = UserExtensionMalformed m"
| "from_user_ext_error UserExtEmpty = UserExtensionMalformed ''extension has no entries''"

definition sha256_hex :: "crypto \<Rightarrow> string \<Rightarrow> string" where
  "sha256_hex C input = concat (map hex02 (c_sha256 C (as_bytes input)))"

fun host_descriptor_matches :: "crypto \<Rightarrow> string \<Rightarrow> host_descriptor \<Rightarrow> bool" where
  "host_descriptor_matches C h HostWildcard = True"
| "host_descriptor_matches C h (Sha256Hex hex) = eq_ignore_ascii_case hex h"
| "host_descriptor_matches C h (Raw s) = eq_ignore_ascii_case (sha256_hex C s) h"

definition verify_host_binding :: "crypto \<Rightarrow> x509 \<Rightarrow> string \<Rightarrow> (host_binding_error, unit) result" where
  "verify_host_binding C cert host_id_hash =
     and_then (map_err from_host_ext_error (host_binding_parse C cert)) (\<lambda>descriptors.
       if list_ex (host_descriptor_matches C host_id_hash) descriptors then Ok ()
       else Err (HostNotAllowed (take_chars 8 host_id_hash)))"

fun user_descriptor_matches :: "string \<Rightarrow> user_descriptor \<Rightarrow> bool" where
  "user_descriptor_matches u UserWildcard = True"
| "user_descriptor_matches u (Exact s) = (s = u)"

definition verify_user_binding :: "crypto \<Rightarrow> x509 \<Rightarrow> string \<Rightarrow> (host_binding_error, unit) result" where
  "verify_user_binding C cert pam_user =
     and_then (map_err from_user_ext_error (user_binding_parse C cert)) (\<lambda>descriptors.
       if list_ex (user_descriptor_matches pam_user) descriptors then Ok ()
       else Err (UserNotAllowed pam_user))"

definition verify_cert_scope ::
  "crypto \<Rightarrow> x509 \<Rightarrow> string \<Rightarrow> string \<Rightarrow> (host_binding_error, unit) result" where
  "verify_cert_scope C cert host_id_hash pam_user =
     and_then (verify_host_binding C cert host_id_hash) (\<lambda>_.
     and_then (verify_user_binding C cert pam_user) (\<lambda>_. Ok ()))"

section \<open>Mapping a subject to an account\<close>

datatype user_match_criteria = SubjectCn string | SanEmail string | SanUpn string

record user_mapping =
  um_pam_user :: string
  um_criteria :: user_match_criteria

datatype match_reason = CnExact | SanEmailMatch | SanUpnMatch

record matched_mapping =
  mm_pam_user :: string
  mm_matched_by :: match_reason

record subject_mismatch =
  sm_pam_user :: string
  sm_expected_cn :: "string option"
  sm_found_cn :: "string option"
  sm_expected_email :: "string option"
  sm_found_emails :: "string list"

datatype mapping_error =
    NoMappingForUser string
  | EmptyMapping string
  | SubjectMismatch subject_mismatch
  | MappingCert trust_error

definition get_or_insert :: "'a option \<Rightarrow> 'a \<Rightarrow> 'a option" where
  "get_or_insert m x = (case m of None \<Rightarrow> Some x | Some y \<Rightarrow> Some y)"

text \<open>The loop over the candidates: a match, or the first expected name and address seen.\<close>

fun match_candidates ::
  "string option \<Rightarrow> string list \<Rightarrow> user_mapping list \<Rightarrow> string option \<Rightarrow> string option \<Rightarrow>
   matched_mapping + (string option \<times> string option)" where
  "match_candidates cn sans [] ecn eemail = Inr (ecn, eemail)"
| "match_candidates cn sans (m # ms) ecn eemail =
     (case um_criteria m of
        SubjectCn want \<Rightarrow>
          if cn = Some want
          then Inl \<lparr>mm_pam_user = um_pam_user m, mm_matched_by = CnExact\<rparr>
          else match_candidates cn sans ms (get_or_insert ecn want) eemail
      | SanEmail want \<Rightarrow>
          if list_ex (\<lambda>e. e = want) sans
          then Inl \<lparr>mm_pam_user = um_pam_user m, mm_matched_by = SanEmailMatch\<rparr>
          else match_candidates cn sans ms ecn (get_or_insert eemail want)
      | SanUpn want \<Rightarrow> match_candidates cn sans ms ecn eemail)"

definition match_user ::
  "certificate \<Rightarrow> string \<Rightarrow> user_mapping list \<Rightarrow> (mapping_error, matched_mapping) result" where
  "match_user end_entity pam_user mappings =
     (let cn = result_ok (subject_cn end_entity);
          sans = san_emails end_entity;
          candidates = filter (\<lambda>m. um_pam_user m = pam_user) mappings
      in if candidates = [] then Err (NoMappingForUser pam_user)
         else case match_candidates cn sans candidates None None of
           Inl m \<Rightarrow> Ok m
         | Inr (ecn, eemail) \<Rightarrow>
             if ecn = None \<and> eemail = None then Err (EmptyMapping pam_user)
             else Err (SubjectMismatch
               \<lparr>sm_pam_user = pam_user, sm_expected_cn = ecn, sm_found_cn = cn,
                sm_expected_email = eemail, sm_found_emails = sans\<rparr>))"

section \<open>Facts about descriptors\<close>

text \<open>The contract of a host entry, read off the text of the entry itself.\<close>

definition host_entry_allows :: "crypto \<Rightarrow> string \<Rightarrow> string \<Rightarrow> bool" where
  "host_entry_allows C h s \<longleftrightarrow>
     s = ''*'' \<or>
     (if 7 \<le> length s \<and> eq_ignore_ascii_case (take 7 s) ''sha256:''
      then eq_ignore_ascii_case (drop 7 s) h
      else eq_ignore_ascii_case (sha256_hex C s) h)"

lemma classify_matches:
  "classify s = Ok d \<Longrightarrow> host_descriptor_matches C h d = host_entry_allows C h s"
  by (auto simp: classify_def host_entry_allows_def Let_def split: if_splits)

lemma classify_panics:
  "classify s = Err HostExtPanic \<longleftrightarrow> s \<noteq> ''*'' \<and> 7 \<le> length s \<and> \<not> is_char_boundary s 7"
  by (auto simp: classify_def Let_def)

lemma classify_matches_list:
  "try_map classify ss = Ok ds \<Longrightarrow>
   list_ex (host_descriptor_matches C h) ds = (\<exists>s\<in>set ss. host_entry_allows C h s)"
proof (induction ss arbitrary: ds)
  case (Cons s ss)
  from Cons.prems obtain d ds' where "classify s = Ok d" "try_map classify ss = Ok ds'" "ds = d # ds'"
    by (auto simp: result_simps)
  with Cons.IH classify_matches show ?case by simp
qed simp

lemma user_descriptor_of_matches:
  "list_ex (user_descriptor_matches u) (map user_descriptor_of ss) = (''*'' \<in> set ss \<or> u \<in> set ss)"
  by (induction ss) (auto simp: user_descriptor_of_def)

text \<open>A certificate on the wire: its two extensions hold lists of strings.\<close>

definition scoped_cert ::
  "crypto \<Rightarrow> x509 \<Rightarrow> (u8 \<times> bytes) list \<Rightarrow> ext list \<Rightarrow> bytes \<Rightarrow> bool" where
  "scoped_cert C cert fs exts sig \<longleftrightarrow>
     xf_to_der cert = Ok (encode_cert fs exts sig) \<and>
     length (encode_cert fs exts sig) < 2 ^ 32 \<and>
     (\<forall>(t, v)\<in>set fs. t \<noteq> 0xA3) \<and>
     is_ok (c_oid_from_str C HOST_BINDING_OID) \<and> is_ok (c_oid_from_str C USER_BINDING_OID)"

definition ext_strings :: "crypto \<Rightarrow> ext list \<Rightarrow> string \<Rightarrow> string list \<Rightarrow> bool" where
  "ext_strings C exts target ss \<longleftrightarrow>
     (\<exists>oid. c_oid_from_str C target = Ok oid \<and>
            ext_lookup exts oid = Some (encode_seq_of_utf8 ss)) \<and>
     length (encode_seq_of_utf8 ss) < 2 ^ 32 \<and> (\<forall>s\<in>set ss. utf8_valid (as_bytes s))"

lemma host_binding_parse_encode:
  assumes "scoped_cert C cert fs exts sig" and "ext_strings C exts HOST_BINDING_OID ss"
  shows "host_binding_parse C cert = (if ss = [] then Err HostExtEmpty else try_map classify ss)"
proof -
  obtain oid where "c_oid_from_str C HOST_BINDING_OID = Ok oid"
    "ext_lookup exts oid = Some (encode_seq_of_utf8 ss)"
    using assms(2) by (auto simp: ext_strings_def)
  then have "extract_extension_by_oid C (encode_cert fs exts sig) HOST_BINDING_OID =
      Ok (Some (encode_seq_of_utf8 ss))"
    using extract_extension_encode [of C HOST_BINDING_OID oid fs exts sig] assms(1)
    by (simp add: scoped_cert_def)
  moreover have "parse_seq_of_utf8 (encode_seq_of_utf8 ss) = Ok ss"
    using assms(2) by (intro parse_seq_of_utf8_encode) (simp_all add: ext_strings_def)
  ultimately show ?thesis using assms(1) by (simp add: host_binding_parse_def scoped_cert_def)
qed

lemma user_binding_parse_encode:
  assumes "scoped_cert C cert fs exts sig" and "ext_strings C exts USER_BINDING_OID ss"
  shows "user_binding_parse C cert =
           (if ss = [] then Err UserExtEmpty else Ok (map user_descriptor_of ss))"
proof -
  obtain oid where "c_oid_from_str C USER_BINDING_OID = Ok oid"
    "ext_lookup exts oid = Some (encode_seq_of_utf8 ss)"
    using assms(2) by (auto simp: ext_strings_def)
  then have "extract_extension_by_oid C (encode_cert fs exts sig) USER_BINDING_OID =
      Ok (Some (encode_seq_of_utf8 ss))"
    using extract_extension_encode [of C USER_BINDING_OID oid fs exts sig] assms(1)
    by (simp add: scoped_cert_def)
  moreover have "parse_seq_of_utf8 (encode_seq_of_utf8 ss) = Ok ss"
    using assms(2) by (intro parse_seq_of_utf8_encode) (simp_all add: ext_strings_def)
  ultimately show ?thesis using assms(1) by (simp add: user_binding_parse_def scoped_cert_def)
qed

lemma verify_host_binding_encode:
  assumes "scoped_cert C cert fs exts sig" and "ext_strings C exts HOST_BINDING_OID hs"
  shows "verify_host_binding C cert h = Ok () \<longleftrightarrow>
           is_ok (try_map classify hs) \<and> (\<exists>s\<in>set hs. host_entry_allows C h s)"
proof (cases "try_map classify hs")
  case (Inl e)
  then show ?thesis
    using host_binding_parse_encode [OF assms] by (simp add: verify_host_binding_def)
next
  case (Inr ds)
  then show ?thesis
    using host_binding_parse_encode [OF assms] classify_matches_list [OF Inr, of C h]
    by (auto simp: verify_host_binding_def)
qed

lemma verify_user_binding_encode:
  assumes "scoped_cert C cert fs exts sig" and "ext_strings C exts USER_BINDING_OID us"
  shows "verify_user_binding C cert u = Ok () \<longleftrightarrow> ''*'' \<in> set us \<or> u \<in> set us"
  using user_binding_parse_encode [OF assms] user_descriptor_of_matches [of u us]
  by (auto simp: verify_user_binding_def)

lemma try_map_is_ok: "is_ok (try_map f xs) = (\<forall>x\<in>set xs. is_ok (f x))"
proof (induction xs)
  case (Cons x xs)
  then show ?case by (cases "f x"; cases "try_map f xs") auto
qed simp

section \<open>Facts about the mapping\<close>

fun criterion_holds :: "certificate \<Rightarrow> user_match_criteria \<Rightarrow> bool" where
  "criterion_holds c (SubjectCn want) = (subject_cn c = Ok want)"
| "criterion_holds c (SanEmail want) = (want \<in> set (san_emails c))"
| "criterion_holds c (SanUpn want) = False"

lemma result_ok_Some [result_simps]: "(result_ok m = Some x) = (m = Ok x)"
  by (cases m) simp_all

lemma match_candidates_Inl:
  "match_candidates (result_ok (subject_cn c)) (san_emails c) ms ecn eem = Inl r \<Longrightarrow>
   \<exists>m\<in>set ms. criterion_holds c (um_criteria m) \<and> mm_pam_user r = um_pam_user m"
  by (induction ms arbitrary: ecn eem)
    (auto simp: result_simps list_ex_iff split: user_match_criteria.splits if_splits)

lemma match_candidates_Inr:
  "match_candidates (result_ok (subject_cn c)) (san_emails c) ms ecn eem = Inr r \<Longrightarrow>
   \<forall>m\<in>set ms. \<not> criterion_holds c (um_criteria m)"
  by (induction ms arbitrary: ecn eem)
    (auto simp: result_simps list_ex_iff split: user_match_criteria.splits if_splits)

lemma get_or_insert_None [simp]: "get_or_insert m x \<noteq> None"
  by (simp add: get_or_insert_def split: option.splits)

lemma match_candidates_expected:
  "match_candidates cn sans ms ecn eem = Inr (ecn', eem') \<Longrightarrow>
   (ecn' = None \<and> eem' = None) =
   (ecn = None \<and> eem = None \<and> (\<forall>m\<in>set ms. \<exists>w. um_criteria m = SanUpn w))"
proof (induction ms arbitrary: ecn eem)
  case (Cons m ms)
  show ?case
  proof (cases "um_criteria m")
    case (SubjectCn w)
    with Cons.prems Cons.IH [of "get_or_insert ecn w" eem] show ?thesis by (simp split: if_splits)
  next
    case (SanEmail w)
    with Cons.prems Cons.IH [of ecn "get_or_insert eem w"] show ?thesis by (simp split: if_splits)
  next
    case (SanUpn w)
    with Cons.prems Cons.IH [of ecn eem] show ?thesis by simp
  qed
qed simp

section \<open>Properties\<close>


definition demo_crypto :: crypto where
  "demo_crypto =
     \<lparr>c_oid_from_str = (\<lambda>s. if s = HOST_BINDING_OID then Ok [0x69, 1]
                           else if s = USER_BINDING_OID then Ok [0x69, 2] else Err ''unknown''),
      c_sha256 = (\<lambda>bs. replicate 32 (foldr (+) bs 0)),
      c_x509_from_der = (\<lambda>_. Err ''unused''), c_x509_from_pem = (\<lambda>_. Err ''unused''),
      c_x509_verify = (\<lambda>_ _. Ok True), c_public_key_to_der = (\<lambda>k. Ok [of_nat k]),
      c_crl_from_pem = (\<lambda>_. Err ''unused''), c_crl_from_der = (\<lambda>_. Err ''unused''),
      c_crl_verify = (\<lambda>_ _. Ok True)\<rparr>"

definition demo_fields :: "(u8 \<times> bytes) list" where
  "demo_fields = [(0xA0, [2, 1, 2]), (0x02, [7]), (0x30, [])]"

definition demo_exts :: "string list \<Rightarrow> string list \<Rightarrow> ext list" where
  "demo_exts hs us =
     [([0x55, 0x1D, 0x0F], True, [3, 2, 7, 0x80]),
      ([0x69, 1], False, encode_seq_of_utf8 hs), ([0x69, 2], True, encode_seq_of_utf8 us)]"

definition demo_x509 :: "bytes \<Rightarrow> x509" where
  "demo_x509 der =
     \<lparr>xf_to_der = Ok der, xf_version = 2, xf_not_before = Some (0, 0), xf_not_after = Some (40000, 0),
      xf_issuer_name = \<lparr>nm_canon = Some [1], nm_entries = [(Some ''CN'', Some ''Root'')]\<rparr>,
      xf_subject_name = \<lparr>nm_canon = Some [2], nm_entries = [(Some ''CN'', Some ''Alice'')]\<rparr>,
      xf_alt_name_emails = Some [Some ''alice@example.test'', None], xf_serial = Some ''0A'',
      xf_signature_algorithm = ''sha256WithRSAEncryption'', xf_ski = Some [2], xf_aki = Some [1],
      xf_public_key = Ok 2, xf_digest_sha256 = None\<rparr>"


text \<open>
  C39. A raw host entry of seven or more bytes whose seventh byte boundary falls inside a
  character aborts the check: when it is the first entry of the extension, the gate panics
  whatever the host and the user are, although the entry is a legal raw identifier.
\<close>

theorem verify_cert_scope_panics:
  assumes "scoped_cert C cert fs exts sig"
    and "ext_strings C exts HOST_BINDING_OID (s # hs)"
    and "7 \<le> length s" and "\<not> is_char_boundary s 7"
  shows "verify_cert_scope C cert h u = Err BindingPanicked"
proof -
  have "s \<noteq> ''*''" using assms(3) by auto
  then have "classify s = Err HostExtPanic" using classify_panics assms(3,4) by blast
  then show ?thesis
    using host_binding_parse_encode [OF assms(1,2)]
    by (simp add: verify_cert_scope_def verify_host_binding_def)
qed

definition demo_accented :: string where
  "demo_accented = ''machin'' @ str_of_bytes [0xC3, 0xA9]"

lemma verify_cert_scope_panics_witness:
  "verify_cert_scope demo_crypto
     (demo_x509 (encode_cert demo_fields (demo_exts [demo_accented, ''*''] [''*'']) []))
     ''00'' ''alice'' = Err BindingPanicked"
proof -
  let ?exts = "demo_exts [demo_accented, ''*''] [''*'']"
  have "scoped_cert demo_crypto (demo_x509 (encode_cert demo_fields ?exts [])) demo_fields ?exts []"
    unfolding scoped_cert_def by (intro conjI small_encoding) code_simp+
  moreover have "ext_strings demo_crypto ?exts HOST_BINDING_OID [demo_accented, ''*'']"
    unfolding ext_strings_def by (intro conjI exI [of _ "[0x69, 1]"] small_encoding) code_simp+
  moreover have "7 \<le> length demo_accented" "\<not> is_char_boundary demo_accented 7" by code_simp+
  ultimately show ?thesis by (rule verify_cert_scope_panics)
qed


text \<open>
  An account whose configured entries all use the principal name can never log in through the
  mapping: the lookup reports an empty mapping for every certificate.
\<close>

theorem match_user_upn_only:
  assumes "\<exists>m\<in>set ms. um_pam_user m = u"
    and "\<forall>m\<in>set ms. um_pam_user m = u \<longrightarrow> (\<exists>w. um_criteria m = SanUpn w)"
  shows "match_user c u ms = Err (EmptyMapping u)"
proof -
  let ?ms = "filter (\<lambda>m. um_pam_user m = u) ms"
  obtain r where r: "match_candidates (result_ok (subject_cn c)) (san_emails c) ?ms None None = Inr r"
    using match_candidates_Inl [of c ?ms None None] assms(2)
    by (cases "match_candidates (result_ok (subject_cn c)) (san_emails c) ?ms None None") fastforce+
  obtain a b where "r = (a, b)" by (cases r)
  with match_candidates_expected [of _ _ ?ms None None a b] r assms show ?thesis
    by (auto simp: match_user_def Let_def filter_empty_conv)
qed

definition demo_certificate :: certificate where
  "demo_certificate = \<lparr>cert_inner = demo_x509 [], cert_der_cache = []\<rparr>"

lemma match_user_upn_only_witness:
  "match_user demo_certificate ''op'' [\<lparr>um_pam_user = ''op'', um_criteria = SanUpn ''op@example.test''\<rparr>] =
     Err (EmptyMapping ''op'')"
  by (rule match_user_upn_only) simp_all


end
