(* ===== verification/Integrity_Label.thy ===== *)
theory Integrity_Label
  imports Cert_Ext
begin

text \<open>
  Integrity labels (\<open>mac/label.rs\<close>): the order on labels and its meet, the DER form carried by a
  certificate (\<open>to_der\<close>, \<open>from_der\<close>, and \<open>x509/max_integrity_ext.rs\<close> that extracts it), and the
  text form exchanged with \<open>libpdp\<close> (\<open>mac/text_codec.rs\<close>). The level is an \<open>i8\<close>, a byte read with
  sign; the categories are a 64-bit mask.
\<close>

section \<open>Labels\<close>

record integrity_label =
  il_level :: i8
  il_categories :: u64

definition i8_min :: "i8 \<Rightarrow> i8 \<Rightarrow> i8" where
  "i8_min a b = (if sint b < sint a then b else a)"

definition intersect :: "integrity_label \<Rightarrow> integrity_label \<Rightarrow> integrity_label" where
  "intersect a b =
     \<lparr>il_level = i8_min (il_level a) (il_level b),
      il_categories = il_categories a AND il_categories b\<rparr>"

definition intersect_cert_with_user :: "integrity_label \<Rightarrow> integrity_label \<Rightarrow> integrity_label" where
  "intersect_cert_with_user cert user =
     (let cats = (if il_categories cert = 0 then il_categories user
                  else il_categories cert AND il_categories user)
      in \<lparr>il_level = i8_min (il_level cert) (il_level user), il_categories = cats\<rparr>)"

definition strictly_below :: "integrity_label \<Rightarrow> integrity_label \<Rightarrow> bool" where
  "strictly_below a b \<longleftrightarrow>
     (let cats_subset = (il_categories a AND il_categories b) = il_categories a in
      (sint (il_level a) < sint (il_level b) \<and> cats_subset) \<or>
      (sint (il_level a) \<le> sint (il_level b) \<and> il_categories a \<noteq> il_categories b \<and> cats_subset))"

section \<open>DER form\<close>

datatype label_der_error = LevelOutOfRange | LabelMalformed string | LabelOpenssl string

definition u8_try_from :: "nat \<Rightarrow> u8 option" where
  "u8_try_from n = (if n < 256 then Some (of_nat n) else None)"

definition label_payload :: "u64 \<Rightarrow> bytes" where
  "label_payload cats =
     (let bytes = to_be_bytes cats;
          start = (if list_ex (\<lambda>b. b \<noteq> 0) bytes then length (takeWhile (\<lambda>b. b = 0) bytes) else 7)
      in drop start bytes)"

definition label_bit_string :: "u64 \<Rightarrow> (label_der_error, bytes) result" where
  "label_bit_string cats =
     (if cats = 0 then Ok [0x03, 0x01, 0x00]
      else let payload = label_payload cats in
        and_then (ok_or (LabelMalformed ''len'') (u8_try_from (length payload + 1))) (\<lambda>n.
          Ok ([0x03, n, 0x00] @ payload)))"

definition to_der :: "integrity_label \<Rightarrow> (label_der_error, bytes) result" where
  "to_der l =
     and_then (label_bit_string (il_categories l)) (\<lambda>bit_string.
       let inner = [0x02, 0x01, il_level l] @ bit_string in
       and_then (ok_or (LabelMalformed ''seq len'') (u8_try_from (length inner))) (\<lambda>n.
         Ok ([0x30, n] @ inner)))"

text \<open>The categories, from what follows the integer.\<close>

definition label_categories :: "bytes \<Rightarrow> (label_der_error, u64) result" where
  "label_categories bs =
     (if length bs < 2 \<or> bs ! 0 \<noteq> 0x03 then Err (LabelMalformed ''missing BIT STRING tag'')
      else let bs_len = unat (bs ! 1) in
        if bs_len = 0 \<or> 2 + bs_len > length bs then Err (LabelMalformed ''bad BIT STRING length'')
        else if 2 + bs_len \<noteq> length bs then Err (LabelMalformed ''trailing bytes after BIT STRING'')
        else let payload = take bs_len (drop 2 bs) in
          if payload = [] then Err (LabelMalformed ''BIT STRING missing unused-bits byte'')
          else if payload ! 0 > 7 then Err (LabelMalformed ''BIT STRING unused-bits > 7'')
          else let bits = drop 1 payload in
            if length bits > 8 then Err (LabelMalformed ''categories > 64 bits'')
            else Ok (from_be_bytes (replicate (8 - length bits) 0 @ bits)))"

definition from_der :: "bytes \<Rightarrow> (label_der_error, integrity_label) result" where
  "from_der der =
     (if length der < 2 \<or> der ! 0 \<noteq> 0x30 then Err (LabelMalformed ''not a SEQUENCE'')
      else let seq_len = unat (der ! 1) in
        if 2 + seq_len > length der \<or> der ! 1 AND 0x80 \<noteq> 0
        then Err (LabelMalformed ''bad seq length'')
        else if 2 + seq_len \<noteq> length der
        then Err (LabelMalformed ''trailing bytes after SEQUENCE'')
        else let body = take seq_len (drop 2 der) in
          if length body < 3 \<or> body ! 0 \<noteq> 0x02 then Err (LabelMalformed ''missing INTEGER tag'')
          else let int_len = unat (body ! 1) in
            if int_len = 0 \<or> 2 + int_len > length body
            then Err (LabelMalformed ''bad INTEGER length'')
            else let int_bytes = take int_len (drop 2 body) in
              if length int_bytes \<noteq> 1 then Err LevelOutOfRange
              else let level = int_bytes ! 0; after_int = 2 + int_len in
                and_then (if after_int = length body then Ok 0
                          else label_categories (drop after_int body)) (\<lambda>categories.
                  Ok \<lparr>il_level = level, il_categories = categories\<rparr>))"

text \<open>The certificate extension that carries a label.\<close>

definition MAX_INTEGRITY_OID :: string where
  "MAX_INTEGRITY_OID = ''2.25.273824307386008814506455310913083078403''"

datatype max_integrity_ext_error = CertDer string | Scan string | Parse label_der_error

definition extract_max_integrity ::
  "crypto \<Rightarrow> x509 \<Rightarrow> (max_integrity_ext_error, integrity_label option) result" where
  "extract_max_integrity C cert =
     and_then (map_err CertDer (xf_to_der cert)) (\<lambda>der.
       case extract_extension_by_oid C der MAX_INTEGRITY_OID of
         Inr (Some v) \<Rightarrow> and_then (map_err Parse (from_der v)) (\<lambda>label. Ok (Some label))
       | Inr None \<Rightarrow> Ok None
       | Inl e \<Rightarrow> Err (Scan (der_error_to_string e)))"

section \<open>Text form\<close>

datatype mac_error =
    Parsec string int
  | UserUnknown string
  | MacUnavailable
  | MacIo string
  | TextFormat string
  | CapMissing

datatype mc_flag = Irelax | Iinh | Ccnr | Ssi | Silev

fun mc_flag_as_str :: "mc_flag \<Rightarrow> string" where
  "mc_flag_as_str Irelax = ''irelax''"
| "mc_flag_as_str Iinh = ''iinh''"
| "mc_flag_as_str Ccnr = ''ccnr''"
| "mc_flag_as_str Ssi = ''ssi''"
| "mc_flag_as_str Silev = ''silev''"

definition encode_label_text :: "integrity_label \<Rightarrow> mc_flag list \<Rightarrow> string" where
  "encode_label_text l flags =
     (let base = ''0:'' @ show_i8 (il_level l) @ '':'' @ to_radix 16 (unat (il_categories l)) in
      if flags = [] then base else base @ '':'' @ join '','' (map mc_flag_as_str flags))"

definition u64_max :: nat where "u64_max = 2 ^ 64 - 1"

text \<open>The messages keep the offending field and drop the reason of the number parser.\<close>

definition decode_label_text :: "string \<Rightarrow> (mac_error, integrity_label) result" where
  "decode_label_text s =
     (let parts = splitn 4 (CHR '':'') (trim s) in
      and_then (case slice_get parts 1 of
                  None \<Rightarrow> Ok 0
                | Some lv \<Rightarrow> if lv = [] then Ok 0
                             else ok_or (TextFormat (''bad level '' @ lv)) (parse_i8 lv)) (\<lambda>level.
      and_then (case slice_get parts 2 of
                  None \<Rightarrow> Ok 0
                | Some hex \<Rightarrow> if hex = [] then Ok 0
                    else ok_or (TextFormat (''bad cat hex '' @ hex))
                      (unsigned_from_str_radix u64_max 16
                        (trim_start_matches2 (CHR ''0'') (CHR ''x'') hex))) (\<lambda>categories.
        Ok \<lparr>il_level = level, il_categories = of_nat categories\<rparr>)))"

section \<open>The order on labels\<close>

definition label_le :: "integrity_label \<Rightarrow> integrity_label \<Rightarrow> bool" where
  "label_le a b \<longleftrightarrow>
     sint (il_level a) \<le> sint (il_level b) \<and>
     il_categories a AND il_categories b = il_categories a"

lemma i8_min_sint [simp]: "sint (i8_min a b) = min (sint a) (sint b)"
  by (simp add: i8_min_def min_def)

lemma mask_subset_bits:
  "((a :: u64) AND b = a) = (\<forall>n. bit a n \<longrightarrow> bit b n)"
proof
  assume h: "a AND b = a"
  show "\<forall>n. bit a n \<longrightarrow> bit b n"
  proof (intro allI impI)
    fix n assume "bit a n"
    then have "bit (a AND b) n" by (simp only: h)
    then show "bit b n" by (simp add: bit_and_iff)
  qed
next
  assume "\<forall>n. bit a n \<longrightarrow> bit b n"
  then show "a AND b = a" by (intro bit_eqI) (auto simp: bit_and_iff)
qed

lemma label_le_refl [simp]: "label_le a a"
  by (simp add: label_le_def)

lemma label_le_trans: "label_le a b \<Longrightarrow> label_le b c \<Longrightarrow> label_le a c"
  by (auto simp: label_le_def mask_subset_bits)

lemma label_le_antisym: "label_le a b \<Longrightarrow> label_le b a \<Longrightarrow> a = b"
proof -
  assume "label_le a b" "label_le b a"
  then have "sint (il_level a) = sint (il_level b)" "il_categories a = il_categories b"
    by (auto simp: label_le_def and.commute)
  then show ?thesis by (simp add: signed_word_eqI)
qed

lemma intersect_le: "label_le (intersect a b) a" "label_le (intersect a b) b"
  by (auto simp: label_le_def intersect_def mask_subset_bits bit_and_iff)

lemma intersect_greatest: "label_le c a \<Longrightarrow> label_le c b \<Longrightarrow> label_le c (intersect a b)"
  by (auto simp: label_le_def intersect_def mask_subset_bits bit_and_iff)

lemma intersect_cert_with_user_eq:
  "intersect_cert_with_user cert user =
     (if il_categories cert = 0
      then intersect (cert\<lparr>il_categories := - 1\<rparr>) user else intersect cert user)"
  by (simp add: intersect_cert_with_user_def intersect_def Let_def)

lemma intersect_cert_with_user_le_user: "label_le (intersect_cert_with_user cert user) user"
  by (simp add: intersect_cert_with_user_eq intersect_le)

lemma intersect_cert_with_user_level:
  "sint (il_level (intersect_cert_with_user cert user)) \<le> sint (il_level cert)"
  by (simp add: intersect_cert_with_user_def Let_def)

lemma intersect_cert_with_user_le_cert:
  "il_categories cert \<noteq> 0 \<Longrightarrow> label_le (intersect_cert_with_user cert user) cert"
  by (simp add: intersect_cert_with_user_eq intersect_le)

lemma strictly_below_iff: "strictly_below a b = (label_le a b \<and> a \<noteq> b)"
proof (cases "sint (il_level a) < sint (il_level b)")
  case True
  then have "a \<noteq> b" by auto
  with True show ?thesis by (auto simp: strictly_below_def label_le_def Let_def)
next
  case False
  have "a = b" if "label_le a b" "il_categories a = il_categories b"
    using that False by (intro label_le_antisym) (auto simp: label_le_def)
  with False show ?thesis by (auto simp: strictly_below_def label_le_def Let_def)
qed

section \<open>The DER form round trip\<close>

lemma to_be_bytes_nonzero: "cats \<noteq> 0 \<Longrightarrow> list_ex (\<lambda>b. b \<noteq> 0) (to_be_bytes cats)"
proof (rule ccontr)
  assume c: "cats \<noteq> 0" and "\<not> list_ex (\<lambda>b. b \<noteq> 0) (to_be_bytes cats)"
  then have "\<forall>b\<in>set (to_be_bytes cats). b = 0" by (auto simp: list_ex_iff)
  then have "dropWhile (\<lambda>b. b = 0) (to_be_bytes cats) = []" by (simp only: dropWhile_eq_Nil_conv)
  with be_acc_dropWhile [of "to_be_bytes cats"] have "be_acc 0 (to_be_bytes cats) = be_acc 0 []"
    by (simp only:)
  then have "from_be_bytes (to_be_bytes cats) = 0" by (simp add: from_be_bytes_def)
  with c show False by (simp add: from_be_bytes_to_be_bytes)
qed

lemma label_payload_dropWhile:
  "cats \<noteq> 0 \<Longrightarrow> label_payload cats = dropWhile (\<lambda>b. b = 0) (to_be_bytes cats)"
  by (simp add: label_payload_def to_be_bytes_nonzero dropWhile_eq_drop Let_def)

lemma length_label_payload: "length (label_payload cats) \<le> 8"
  by (simp add: label_payload_def to_be_bytes_def Let_def)

lemma from_be_bytes_padded:
  "from_be_bytes (replicate n 0 @ bs) = from_be_bytes bs"
  by (simp add: from_be_bytes_def be_acc_zeros)

lemma label_bit_string_Ok:
  "\<exists>bs. label_bit_string cats = Ok bs \<and> length bs \<le> 11 \<and> bs \<noteq> [] \<and> label_categories bs = Ok cats"
proof (cases "cats = 0")
  case True
  then show ?thesis
    by (simp add: label_bit_string_def label_categories_def Let_def from_be_bytes_def be_acc_zeros
        be_acc_zeros [of _ "[]", simplified])
next
  case False
  let ?p = "label_payload cats"
  have l: "length ?p \<le> 8" by (rule length_label_payload)
  have e: "from_be_bytes ?p = cats"
    using False from_be_bytes_to_be_bytes [of cats] be_acc_dropWhile [of "to_be_bytes cats"]
    by (simp add: from_be_bytes_def label_payload_dropWhile)
  have u: "unat (of_nat (length ?p + 1) :: u8) = length ?p + 1"
    using l by (simp only: unsigned_of_nat) (simp add: take_bit_eq_mod)
  have "label_bit_string cats = Ok (0x03 # of_nat (length ?p + 1) # 0 # ?p)"
    using False l by (simp add: label_bit_string_def Let_def u8_try_from_def)
  moreover have "label_categories (0x03 # of_nat (length ?p + 1) # 0 # ?p) = Ok cats"
    using l u e
    by (simp add: label_categories_def Let_def from_be_bytes_padded del: of_nat_add of_nat_Suc)
  ultimately show ?thesis using l by simp
qed

lemma from_der_to_der: "\<exists>d. to_der l = Ok d \<and> length d \<le> 16 \<and> from_der d = Ok l"
proof -
  obtain bs where b: "label_bit_string (il_categories l) = Ok bs" "length bs \<le> 11" "bs \<noteq> []"
    "label_categories bs = Ok (il_categories l)"
    using label_bit_string_Ok by blast
  let ?inner = "[0x02, 0x01, il_level l] @ bs"
  have u: "unat (of_nat (length ?inner) :: u8) = length ?inner"
    using b(2) by (simp only: unsigned_of_nat) (simp add: take_bit_eq_mod)
  have "to_der l = Ok ([0x30, of_nat (length ?inner)] @ ?inner)"
    using b(1,2) by (simp add: to_der_def u8_try_from_def)
  moreover have "from_der ([0x30, of_nat (length ?inner)] @ ?inner) = Ok l"
    using b(2,3,4) u
    by (simp add: from_der_def Let_def del: of_nat_add of_nat_Suc)
  ultimately show ?thesis using b(2) by simp
qed

section \<open>The text form round trip\<close>

lemma mc_flag_graphic: "list_all ascii_graphic (mc_flag_as_str f) \<and> mc_flag_as_str f \<noteq> []"
  by (cases f) (simp_all add: ascii_graphic_def)

lemma join_flags_graphic:
  "fs \<noteq> [] \<Longrightarrow>
   list_all ascii_graphic (join '','' (map mc_flag_as_str fs)) \<and> join '','' (map mc_flag_as_str fs) \<noteq> []"
proof (induction fs rule: induct_list012)
  case (2 f)
  then show ?case using mc_flag_graphic [of f] by simp
next
  case (3 f g fs)
  moreover have "ascii_graphic (CHR '','')" by (simp add: ascii_graphic_def)
  ultimately show ?case using mc_flag_graphic [of f] by simp
qed simp

lemma to_radix16_no_x: "CHR ''x'' \<notin> set (to_radix 16 n)"
proof
  assume "CHR ''x'' \<in> set (to_radix 16 n)"
  with set_to_radix [of 16 n] obtain d where d: "d < 16" "CHR ''x'' = digit_char d" by auto
  then have "(of_char (CHR ''x'') :: nat) = (if d < 10 then 48 + d else 87 + d)"
    using of_char_digit_char [of d] by simp
  with d(1) show False by (simp split: if_splits)
qed

lemma show_i8_ne: "show_i8 w \<noteq> []"
  by (simp add: show_i8_def to_decimal_def to_radix_ne)

lemma trim_label_text: "trim (encode_label_text l flags) = encode_label_text l flags"
proof (rule trim_id)
  show "encode_label_text l flags \<noteq> []" "ascii_graphic (hd (encode_label_text l flags))"
    by (simp_all add: encode_label_text_def Let_def ascii_graphic_def)
  show "ascii_graphic (last (encode_label_text l flags))"
  proof (cases "flags = []")
    case True
    then show ?thesis
      using to_radix_last_graphic [of 16] to_radix_ne [of 16]
      by (simp add: encode_label_text_def Let_def)
  next
    case False
    let ?j = "join '','' (map mc_flag_as_str flags)"
    have "ascii_graphic (last ?j)" "?j \<noteq> []"
      using join_flags_graphic [OF False] by (auto simp: list_all_iff)
    with False show ?thesis by (simp add: encode_label_text_def Let_def)
  qed
qed

lemma split_label_text:
  "\<exists>more. splitn 4 (CHR '':'') (encode_label_text l flags) =
     ''0'' # show_i8 (il_level l) # to_radix 16 (unat (il_categories l)) # more"
proof -
  let ?l = "show_i8 (il_level l)" and ?h = "to_radix 16 (unat (il_categories l))"
  have n: "CHR '':'' \<notin> set ?h" using to_radix_no [of 16 "CHR '':''"] by simp
  have s4: "splitn 4 c s = splitn (Suc (Suc (Suc (Suc 0)))) c s" for c s
    by (simp add: eval_nat_numeral)
  have z: "split_once (CHR '':'') (CHR ''0'' # CHR '':'' # s) = Some (''0'', s)" for s
    using split_once_append [of "CHR '':''" "''0''" s] by simp
  show ?thesis
  proof (cases "flags = []")
    case True
    then show ?thesis using split_once_append [OF show_i8_no_colon] split_once_None [OF n]
      by (simp add: encode_label_text_def Let_def s4 z)
  next
    case False
    then show ?thesis using split_once_append [OF show_i8_no_colon] split_once_append [OF n]
      by (simp add: encode_label_text_def Let_def s4 z)
  qed
qed

lemma decode_encode_label_text: "decode_label_text (encode_label_text l flags) = Ok l"
proof -
  obtain more' where s: "splitn 4 (CHR '':'') (encode_label_text l flags) =
     ''0'' # show_i8 (il_level l) # to_radix 16 (unat (il_categories l)) # more'"
    using split_label_text by blast
  have "unat (il_categories l) < 2 ^ LENGTH(64)" by (rule unsigned_less)
  then have "unat (il_categories l) \<le> u64_max" by (simp add: u64_max_def)
  then have "unsigned_from_str_radix u64_max 16 (to_radix 16 (unat (il_categories l))) =
      Some (unat (il_categories l))"
    by (intro unsigned_from_str_radix_to_radix) simp_all
  then show ?thesis
    by (simp add: decode_label_text_def Let_def trim_label_text s show_i8_ne to_radix_ne
        parse_i8_show_i8 trim_start_matches2_id [OF to_radix16_no_x] numeral_2_eq_2)
qed

section \<open>Properties\<close>

text \<open>
  C30. The DER form of a label is lossless: every label, whatever its level and categories, is
  encoded within sixteen bytes and decodes to itself.
\<close>

theorem label_der_roundtrip: "\<exists>d. to_der l = Ok d \<and> length d \<le> 16 \<and> from_der d = Ok l"
  by (rule from_der_to_der)

text \<open>
  The text form of a label is lossless: decoding what \<open>encode_label_text\<close> printed, with or
  without flags, gives the label back.
\<close>

theorem label_text_roundtrip: "decode_label_text (encode_label_text l flags) = Ok l"
  by (rule decode_encode_label_text)

text \<open>
  The bound of a certificate is a meet: the combined label is below the user's maximum label,
  its level is at most the level of the certificate, a certificate with categories also bounds the
  categories, and it is the greatest label below both; \<open>strictly_below\<close>, which decides whether a
  capping event is logged, is the strict part of that order.
\<close>

theorem intersect_cert_with_user_bounds:
  "label_le (intersect_cert_with_user cert user) user \<and>
   sint (il_level (intersect_cert_with_user cert user)) \<le> sint (il_level cert) \<and>
   (il_categories cert \<noteq> 0 \<longrightarrow>
      label_le (intersect_cert_with_user cert user) cert \<and>
      (\<forall>c. label_le c cert \<longrightarrow> label_le c user \<longrightarrow> label_le c (intersect_cert_with_user cert user))) \<and>
   strictly_below (intersect_cert_with_user cert user) user =
     (intersect_cert_with_user cert user \<noteq> user)"
  using intersect_cert_with_user_le_user [of cert user] intersect_cert_with_user_level [of cert user]
    intersect_cert_with_user_le_cert [of cert user] intersect_greatest [of _ cert user]
  by (simp add: strictly_below_iff intersect_cert_with_user_eq)

lemma intersect_cert_with_user_bounds_witness:
  "label_le (intersect_cert_with_user \<lparr>il_level = 3, il_categories = 6\<rparr> \<lparr>il_level = 63, il_categories = 3\<rparr>)
     \<lparr>il_level = 3, il_categories = 6\<rparr>"
  using intersect_cert_with_user_bounds
    [of "\<lparr>il_level = 3, il_categories = 6\<rparr>" "\<lparr>il_level = 63, il_categories = 3\<rparr>"] by simp

end
