(* ===== verification/Mac_Policy.thy ===== *)
theory Mac_Policy
  imports Integrity_Label "HOL-Library.AList"
begin

text \<open>
  The mandatory integrity policy of a session: the backend interface and its two implementations
  (\<open>mac/backend.rs\<close>, over \<open>mac/ffi.rs\<close>), the decision procedure \<open>apply_session_policy\<close>
  (\<open>mac/orchestrator.rs\<close>), the selection of the backend (\<open>build_backend\<close> of \<open>session.rs\<close>) and the
  rate limiter of the audit log (\<open>mac/audit.rs\<close>). \<open>libpdp\<close> is a parameter: the record \<open>libpdp\<close>
  holds what its functions answer. The policy returns its result together with the trace of
  backend calls and audit events it produced, in order.
\<close>

section \<open>The backend interface\<close>

datatype mac_runtime = RuntimeActive | RuntimeDisabled | RuntimeUnavailable

record mac_backend =
  mb_probe :: mac_runtime
  mb_get_user_mnkc :: "string \<Rightarrow> (mac_error, integrity_label) result"
  mb_apply_session :: "integrity_label \<Rightarrow> (mac_error, unit) result"
  mb_get_file_label :: "string \<Rightarrow> (mac_error, integrity_label) result"
  mb_set_file_label :: "string \<Rightarrow> integrity_label \<Rightarrow> bool \<Rightarrow> (mac_error, unit) result"
  mb_set_fd_label :: "int \<Rightarrow> integrity_label \<Rightarrow> bool \<Rightarrow> (mac_error, unit) result"

definition stub_backend :: mac_backend where
  "stub_backend =
     \<lparr>mb_probe = RuntimeUnavailable,
      mb_get_user_mnkc = (\<lambda>_. Ok \<lparr>il_level = 127, il_categories = - 1\<rparr>),
      mb_apply_session = (\<lambda>_. Ok ()),
      mb_get_file_label = (\<lambda>_. Ok \<lparr>il_level = 0, il_categories = 0\<rparr>),
      mb_set_file_label = (\<lambda>_ _ _. Ok ()),
      mb_set_fd_label = (\<lambda>_ _ _. Ok ())\<rparr>"

section \<open>The backend over libpdp\<close>

text \<open>A null pointer is None; a label handle is a number; \<open>pdp_capget\<close> is the effective set when
  the call succeeded.\<close>

record libpdp =
  pdp_strict_mode :: int
  pdp_get_from_text :: "string \<Rightarrow> nat option"
  pdp_get_text :: "nat \<Rightarrow> bytes option"
  pdp_set_pid :: "nat \<Rightarrow> int"
  pdp_get_lpath :: "string \<Rightarrow> nat option"
  pdp_set_path :: "string \<Rightarrow> nat \<Rightarrow> int"
  pdp_set_fd :: "int \<Rightarrow> nat \<Rightarrow> int"
  pdp_getmicnam :: "string \<Rightarrow> u32 option"
  pdp_capget :: "u64 option"

definition cstring_new :: "string \<Rightarrow> string \<Rightarrow> (mac_error, string) result" where
  "cstring_new what s =
     (if CHR 0x00 \<in> set s then Err (TextFormat (''interior NUL in '' @ what)) else Ok s)"

definition pdpl_from_label :: "libpdp \<Rightarrow> integrity_label \<Rightarrow> mc_flag list \<Rightarrow> (mac_error, nat) result" where
  "pdpl_from_label P label flags =
     and_then (cstring_new ''label text'' (encode_label_text label flags)) (\<lambda>c.
       ok_or (Parsec ''pdpl_get_from_text'' (- 1)) (pdp_get_from_text P c))"

definition pdpl_to_label :: "libpdp \<Rightarrow> nat \<Rightarrow> (mac_error, integrity_label) result" where
  "pdpl_to_label P h =
     and_then (ok_or (Parsec ''pdpl_get_text'' (- 1)) (pdp_get_text P h)) (\<lambda>raw.
     and_then (ok_or (TextFormat ''non-UTF8 label text'') (from_utf8 raw)) decode_label_text)"

definition probe_runtime :: "libpdp \<Rightarrow> mac_runtime" where
  "probe_runtime P =
     (if pdp_strict_mode P = 1 then RuntimeActive
      else if pdp_strict_mode P = 0 then RuntimeDisabled else RuntimeUnavailable)"

definition set_proc :: "libpdp \<Rightarrow> integrity_label \<Rightarrow> (mac_error, unit) result" where
  "set_proc P label =
     and_then (pdpl_from_label P label []) (\<lambda>p.
       let rc = pdp_set_pid P p in if rc \<noteq> 0 then Err (Parsec ''pdp_set_pid'' rc) else Ok ())"

definition PARSEC_CAP_CHMAC :: nat where "PARSEC_CAP_CHMAC = 3"

definition check_chmac_capability :: "libpdp \<Rightarrow> bool" where
  "check_chmac_capability P =
     (case pdp_capget P of
        None \<Rightarrow> False
      | Some cap_effective \<Rightarrow> cap_effective AND push_bit PARSEC_CAP_CHMAC 1 \<noteq> 0)"

definition ffi_get_user_mnkc :: "libpdp \<Rightarrow> string \<Rightarrow> (mac_error, integrity_label) result" where
  "ffi_get_user_mnkc P user =
     and_then (cstring_new ''user'' user) (\<lambda>c.
       case pdp_getmicnam P c of
         None \<Rightarrow> Err (UserUnknown user)
       | Some il \<Rightarrow> Ok \<lparr>il_level = (if unat il \<le> 127 then of_nat (unat il) else 127), il_categories = 0\<rparr>)"

definition ffi_get_file_label :: "libpdp \<Rightarrow> string \<Rightarrow> (mac_error, integrity_label) result" where
  "ffi_get_file_label P path =
     and_then (cstring_new ''path'' path) (\<lambda>c.
     and_then (ok_or (Parsec ''pdp_get_lpath'' (- 1)) (pdp_get_lpath P c)) (pdpl_to_label P))"

definition irelax_flags :: "bool \<Rightarrow> mc_flag list" where
  "irelax_flags irelax = (if irelax then [Irelax] else [])"

definition ffi_set_file_label ::
  "libpdp \<Rightarrow> string \<Rightarrow> integrity_label \<Rightarrow> bool \<Rightarrow> (mac_error, unit) result" where
  "ffi_set_file_label P path label irelax =
     and_then (pdpl_from_label P label (irelax_flags irelax)) (\<lambda>p.
     and_then (cstring_new ''path'' path) (\<lambda>c.
       let rc = pdp_set_path P c p in if rc \<noteq> 0 then Err (Parsec ''pdp_set_path'' rc) else Ok ()))"

definition ffi_set_fd_label ::
  "libpdp \<Rightarrow> int \<Rightarrow> integrity_label \<Rightarrow> bool \<Rightarrow> (mac_error, unit) result" where
  "ffi_set_fd_label P fd label irelax =
     and_then (pdpl_from_label P label (irelax_flags irelax)) (\<lambda>p.
       let rc = pdp_set_fd P fd p in if rc \<noteq> 0 then Err (Parsec ''pdp_set_fd'' rc) else Ok ())"

definition parsec_backend :: "libpdp \<Rightarrow> mac_backend" where
  "parsec_backend P =
     \<lparr>mb_probe = probe_runtime P,
      mb_get_user_mnkc = ffi_get_user_mnkc P,
      mb_apply_session = set_proc P,
      mb_get_file_label = ffi_get_file_label P,
      mb_set_file_label = ffi_set_file_label P,
      mb_set_fd_label = ffi_set_fd_label P\<rparr>"

section \<open>Events\<close>

datatype mac_event =
    EvSkipped string
  | EvRuntimeRequired string
  | EvCertLacksExt
  | EvUserUnknown
  | EvFallbackUsed integrity_label
  | EvCapped integrity_label integrity_label
  | EvHomedirAbove integrity_label integrity_label
  | CallApplySession integrity_label
  | EvApplied integrity_label
  | EvApplyFailed
  | EvCapsMissing
  | EvRuntimeFallback
  | EvRuntimeDisabled

section \<open>The session policy\<close>

datatype cert_integrity_mode = CertRequired | CertOptional | CertIgnore

datatype mac_runtime_mode = ModeRequired | ModeAuto | ModeDisabled

record mac_policy =
  mp_cert_integrity :: cert_integrity_mode
  mp_fallback_max_integrity :: "integrity_label option"
  mp_warn_on_homedir_label_mismatch :: bool
  mp_runtime :: mac_runtime_mode

record session_context =
  sc_pam_user :: string
  sc_pam_service :: string
  sc_cert_ident :: cert_ident
  sc_home_dir :: "string option"

datatype outcome_kind = Applied integrity_label | Skipped string

datatype orchestrator_error =
    CertLacksExt
  | RuntimeRequired mac_runtime
  | ApplyFailed mac_error

fun runtime_debug :: "mac_runtime \<Rightarrow> string" where
  "runtime_debug RuntimeActive = ''Active''"
| "runtime_debug RuntimeDisabled = ''Disabled''"
| "runtime_debug RuntimeUnavailable = ''Unavailable''"

definition is_interactive_service :: "string \<Rightarrow> bool" where
  "is_interactive_service svc \<longleftrightarrow>
     svc \<in> set [''login'', ''gdm-password'', ''lightdm'', ''sddm'', ''kdm'', ''sshd'', ''fly-dm'']"

text \<open>Steps 5 to 7: the effective label with the events on the way to it.\<close>

definition effective_label ::
  "mac_policy \<Rightarrow> integrity_label option \<Rightarrow> integrity_label \<Rightarrow> integrity_label \<times> mac_event list" where
  "effective_label policy cert_max user_mnkc =
     (case cert_max of
        Some cert_bound \<Rightarrow> (intersect_cert_with_user cert_bound user_mnkc, [])
      | None \<Rightarrow>
          (case mp_fallback_max_integrity policy of
             Some fallback \<Rightarrow> (intersect_cert_with_user fallback user_mnkc, [EvFallbackUsed fallback])
           | None \<Rightarrow> (user_mnkc, [])))"

definition capping_events :: "integrity_label \<Rightarrow> integrity_label \<Rightarrow> mac_event list" where
  "capping_events effective user_mnkc =
     (if strictly_below effective user_mnkc then [EvCapped effective user_mnkc] else [])"

definition label_above :: "integrity_label \<Rightarrow> integrity_label \<Rightarrow> bool" where
  "label_above a b \<longleftrightarrow> sint (il_level a) > sint (il_level b)"

definition homedir_events ::
  "mac_backend \<Rightarrow> mac_policy \<Rightarrow> session_context \<Rightarrow> integrity_label \<Rightarrow> mac_event list" where
  "homedir_events backend policy ctx effective =
     (if mp_warn_on_homedir_label_mismatch policy \<and> is_interactive_service (sc_pam_service ctx)
      then case sc_home_dir ctx of
          None \<Rightarrow> []
        | Some home \<Rightarrow>
            (case mb_get_file_label backend home of
               Inr home_label \<Rightarrow>
                 if label_above home_label effective
                 then [EvHomedirAbove home_label effective] else []
             | Inl _ \<Rightarrow> [])
      else [])"

definition apply_label ::
  "mac_backend \<Rightarrow> mac_policy \<Rightarrow> integrity_label option \<Rightarrow> session_context \<Rightarrow> integrity_label \<Rightarrow>
   (orchestrator_error, outcome_kind) result \<times> mac_event list" where
  "apply_label backend policy cert_max ctx user_mnkc =
     (let (effective, ev5) = effective_label policy cert_max user_mnkc;
          ev6 = capping_events effective user_mnkc;
          ev7 = homedir_events backend policy ctx effective
      in case mb_apply_session backend effective of
           Inr _ \<Rightarrow> (Ok (Applied effective), ev5 @ ev6 @ ev7 @ [CallApplySession effective, EvApplied effective])
         | Inl e \<Rightarrow> (Err (ApplyFailed e), ev5 @ ev6 @ ev7 @ [CallApplySession effective, EvApplyFailed]))"

definition apply_session_policy ::
  "mac_backend \<Rightarrow> mac_policy \<Rightarrow> integrity_label option \<Rightarrow> session_context \<Rightarrow>
   (orchestrator_error, outcome_kind) result \<times> mac_event list" where
  "apply_session_policy backend policy cert_max ctx =
     (if mp_cert_integrity policy = CertIgnore
      then (Ok (Skipped ''policy_ignore''), [EvSkipped ''policy_ignore''])
      else let runtime = mb_probe backend in
        if runtime \<noteq> RuntimeActive then
          (if mp_cert_integrity policy = CertRequired
           then (Err (RuntimeRequired runtime), [EvRuntimeRequired (runtime_debug runtime)])
           else (Ok (Skipped ''runtime_inactive''), [EvSkipped ''runtime_inactive'']))
        else if cert_max = None \<and> mp_cert_integrity policy = CertRequired
        then (Err CertLacksExt, [EvCertLacksExt])
        else case mb_get_user_mnkc backend (sc_pam_user ctx) of
            Inl (UserUnknown _) \<Rightarrow> (Err (ApplyFailed (UserUnknown (sc_pam_user ctx))), [EvUserUnknown])
          | Inl e \<Rightarrow> (Err (ApplyFailed e), [])
          | Inr user_mnkc \<Rightarrow> apply_label backend policy cert_max ctx user_mnkc)"

section \<open>Selecting the backend\<close>

text \<open>\<open>astra_mac\<close> is the compile-time feature; the result is a backend or a PAM code.\<close>

definition PAM_AUTH_ERR :: int where "PAM_AUTH_ERR = 7"
definition PAM_SESSION_ERR :: int where "PAM_SESSION_ERR = 14"

definition caps_events :: "libpdp \<Rightarrow> mac_event list" where
  "caps_events P = (if check_chmac_capability P then [] else [EvCapsMissing])"

definition build_backend ::
  "bool \<Rightarrow> libpdp \<Rightarrow> mac_runtime_mode \<Rightarrow> (int, mac_backend) result \<times> mac_event list" where
  "build_backend astra_mac P mode =
     (if astra_mac then
        (case mode of
           ModeDisabled \<Rightarrow> (Ok stub_backend, [EvRuntimeDisabled])
         | ModeRequired \<Rightarrow>
             if mb_probe (parsec_backend P) = RuntimeActive
             then (Ok (parsec_backend P), caps_events P)
             else (Err PAM_AUTH_ERR, caps_events P @ [EvRuntimeRequired ''kernel parsec subsystem not active''])
         | ModeAuto \<Rightarrow>
             if mb_probe (parsec_backend P) = RuntimeActive
             then (Ok (parsec_backend P), caps_events P)
             else (Ok stub_backend, caps_events P @ [EvRuntimeFallback]))
      else (Ok stub_backend, []))"

section \<open>The rate limiter of parse failures\<close>

definition PARSE_FAIL_RATE_WINDOW :: int where "PARSE_FAIL_RATE_WINDOW = 60"
definition PARSE_FAIL_CACHE_CAP :: nat where "PARSE_FAIL_CACHE_CAP = 256"

text \<open>The hash map in some iteration order.\<close>

type_synonym fail_cache = "(string \<times> int) list"

fun min_by_key :: "fail_cache \<Rightarrow> (string \<times> int) option" where
  "min_by_key [] = None"
| "min_by_key (x # xs) =
     (case min_by_key xs of None \<Rightarrow> Some x | Some y \<Rightarrow> if snd y < snd x then Some y else Some x)"

definition should_emit_parse_failed :: "int \<Rightarrow> string \<Rightarrow> fail_cache \<Rightarrow> bool \<times> fail_cache" where
  "should_emit_parse_failed now fp cache0 =
     (let cache = filter (\<lambda>(_, t). now - t < PARSE_FAIL_RATE_WINDOW) cache0 in
      if (case map_of cache fp of Some seen \<Rightarrow> now - seen < PARSE_FAIL_RATE_WINDOW | None \<Rightarrow> False)
      then (False, cache)
      else let cache' = (if length cache \<ge> PARSE_FAIL_CACHE_CAP
                         then case min_by_key cache of
                             Some (k, _) \<Rightarrow> AList.delete k cache | None \<Rightarrow> cache
                         else cache)
        in (True, AList.update fp now cache'))"

section \<open>Facts about the policy\<close>

lemma effective_label_bounds:
  assumes "effective_label policy cert_max m = (l, ev)"
  shows "label_le l m"
    and "cert_max = Some c \<Longrightarrow> sint (il_level l) \<le> sint (il_level c)"
    and "cert_max = Some c \<Longrightarrow> il_categories c \<noteq> 0 \<Longrightarrow> label_le l c"
    and "cert_max = None \<Longrightarrow> mp_fallback_max_integrity policy = Some f \<Longrightarrow>
           sint (il_level l) \<le> sint (il_level f)"
  using assms intersect_cert_with_user_le_user intersect_cert_with_user_level
    intersect_cert_with_user_le_cert
  by (auto simp: effective_label_def split: option.splits)

lemma effective_label_events:
  "effective_label policy cert_max m = (l, ev) \<Longrightarrow> CallApplySession x \<notin> set ev"
  by (auto simp: effective_label_def split: option.splits)

lemma capping_events_no_call [simp]: "CallApplySession x \<notin> set (capping_events a b)"
  by (simp add: capping_events_def)

lemma homedir_events_cases:
  "homedir_events bk p ctx l = [] \<or> (\<exists>h. homedir_events bk p ctx l = [EvHomedirAbove h l])"
  by (auto simp: homedir_events_def split: option.splits sum.splits)

lemma homedir_events_no_call [simp]: "CallApplySession x \<notin> set (homedir_events bk p ctx l)"
  using homedir_events_cases [of bk p ctx l] by auto

text \<open>Every run that reaches the backend: which label is passed to it.\<close>

lemma apply_session_policy_call:
  assumes "apply_session_policy backend policy cert_max ctx = (r, ev)"
    and "CallApplySession l \<in> set ev"
  obtains m ev5 where "mp_cert_integrity policy \<noteq> CertIgnore" and "mb_probe backend = RuntimeActive"
    and "mb_get_user_mnkc backend (sc_pam_user ctx) = Ok m"
    and "effective_label policy cert_max m = (l, ev5)"
    and "mp_cert_integrity policy = CertRequired \<longrightarrow> cert_max \<noteq> None"
  using assms that effective_label_events
  by (auto simp: apply_session_policy_def apply_label_def Let_def
      split: if_splits sum.splits mac_error.splits prod.splits)

lemma apply_session_policy_Applied:
  assumes "apply_session_policy backend policy cert_max ctx = (Ok (Applied l), ev)"
  shows "CallApplySession l \<in> set ev \<and> mb_apply_session backend l = Ok ()"
  using assms
  by (auto simp: apply_session_policy_def apply_label_def Let_def
      split: if_splits sum.splits mac_error.splits prod.splits)

lemma apply_session_policy_Skipped:
  "fst (apply_session_policy backend policy cert_max ctx) = Ok (Skipped why) \<longleftrightarrow>
     mp_cert_integrity policy = CertIgnore \<and> why = ''policy_ignore'' \<or>
     mp_cert_integrity policy = CertOptional \<and> mb_probe backend \<noteq> RuntimeActive \<and>
       why = ''runtime_inactive''"
  by (cases "mp_cert_integrity policy")
    (auto simp: apply_session_policy_def apply_label_def Let_def
      split: sum.splits mac_error.splits prod.splits)

section \<open>Facts about the rate limiter\<close>

lemma min_by_key_in: "min_by_key xs = Some x \<Longrightarrow> x \<in> set xs"
  by (induction xs arbitrary: x) (auto split: option.splits if_splits)

lemma min_by_key_None: "min_by_key xs = None \<longleftrightarrow> xs = []"
  by (cases xs) (auto split: option.splits)

lemma min_by_key_le: "min_by_key xs = Some x \<Longrightarrow> y \<in> set xs \<Longrightarrow> snd x \<le> snd y"
  by (induction xs arbitrary: x) (fastforce split: option.splits if_splits simp: min_by_key_None)+

definition cache_ok :: "fail_cache \<Rightarrow> bool" where
  "cache_ok cache \<longleftrightarrow> distinct (map fst cache) \<and> length cache \<le> PARSE_FAIL_CACHE_CAP"

lemma length_delete_in:
  "distinct (map fst xs) \<Longrightarrow> (k, v) \<in> set xs \<Longrightarrow> length (AList.delete k xs) < length xs"
proof (induction xs)
  case (Cons x xs)
  then show ?case by (cases "fst x = k") (auto simp: AList.delete_eq less_Suc_eq_le length_filter_le)
qed simp

lemma length_update_le: "length (AList.update k v xs) \<le> Suc (length xs)"
  by (induction xs) auto

lemma distinct_filter_fst: "distinct (map fst xs) \<Longrightarrow> distinct (map fst (filter P xs))"
  by (induction xs) auto

lemma evict_room:
  assumes "cache_ok cache"
  shows "length (if length cache \<ge> PARSE_FAIL_CACHE_CAP
                 then case min_by_key cache of Some (k, _) \<Rightarrow> AList.delete k cache | None \<Rightarrow> cache
                 else cache) < PARSE_FAIL_CACHE_CAP"
proof (cases "length cache \<ge> PARSE_FAIL_CACHE_CAP")
  case True
  then have "cache \<noteq> []" by (auto simp: PARSE_FAIL_CACHE_CAP_def)
  then obtain k t where m: "min_by_key cache = Some (k, t)"
    using min_by_key_None by (cases "min_by_key cache") auto
  then have "length (AList.delete k cache) < length cache"
    using assms length_delete_in min_by_key_in by (fastforce simp: cache_ok_def)
  with True m assms show ?thesis by (simp add: cache_ok_def)
qed simp

lemma cache_ok_filter: "cache_ok cache \<Longrightarrow> cache_ok (filter P cache)"
  using length_filter_le [of P cache] by (simp add: cache_ok_def distinct_filter_fst del: length_filter_le)

lemma should_emit_cache_ok:
  assumes "cache_ok cache0"
  shows "cache_ok (snd (should_emit_parse_failed now fp cache0))"
proof -
  let ?c = "filter (\<lambda>(_, t). now - t < PARSE_FAIL_RATE_WINDOW) cache0"
  let ?d = "if length ?c \<ge> PARSE_FAIL_CACHE_CAP
            then case min_by_key ?c of Some (k, _) \<Rightarrow> AList.delete k ?c | None \<Rightarrow> ?c else ?c"
  have c: "cache_ok ?c" using assms by (rule cache_ok_filter)
  have "length ?d < PARSE_FAIL_CACHE_CAP" using c by (rule evict_room)
  moreover have "distinct (map fst ?d)"
    using c by (auto simp: cache_ok_def AList.distinct_delete split: option.splits)
  ultimately have "cache_ok (AList.update fp now ?d)"
    using length_update_le [of fp now ?d] by (simp add: cache_ok_def AList.distinct_update)
  with c show ?thesis by (simp add: should_emit_parse_failed_def Let_def split: option.splits)
qed

lemma map_of_delete_other: "k' \<noteq> k \<Longrightarrow> map_of (AList.delete k xs) k' = map_of xs k'"
  by (simp add: AList.delete_conv')

lemma should_emit_records:
  assumes "should_emit_parse_failed now fp cache0 = (True, c')"
  shows "map_of c' fp = Some now"
  using assms
  by (auto simp: should_emit_parse_failed_def Let_def AList.update_conv' split: option.splits if_splits)

lemma map_of_filter_recent:
  "map_of xs k = Some t \<Longrightarrow> distinct (map fst xs) \<Longrightarrow> P (k, t) \<Longrightarrow> map_of (filter P xs) k = Some t"
  by (auto simp: distinct_filter_fst map_of_eq_Some_iff)

lemma should_emit_suppressed:
  assumes "cache_ok cache" and "map_of cache fp = Some t" and "now - t < PARSE_FAIL_RATE_WINDOW"
  shows "fst (should_emit_parse_failed now fp cache) = False"
  using map_of_filter_recent [OF assms(2), of "\<lambda>(_, t). now - t < PARSE_FAIL_RATE_WINDOW"] assms
  by (simp add: should_emit_parse_failed_def Let_def cache_ok_def)

section \<open>Properties\<close>

text \<open>
  C5. A session never gets a label above its bounds: whenever the policy calls \<open>apply_session\<close>, the
  runtime is active and the label it passes is below the maximum label of the user, below the
  level the certificate allows when it carries the extension (and below its categories when it
  names any), and below the level of the configured fallback when it does not.
\<close>

theorem session_label_bounded:
  assumes "apply_session_policy backend policy cert_max ctx = (r, ev)"
    and "CallApplySession l \<in> set ev"
  shows "mb_probe backend = RuntimeActive \<and>
         (\<exists>m. mb_get_user_mnkc backend (sc_pam_user ctx) = Ok m \<and> label_le l m) \<and>
         (\<forall>c. cert_max = Some c \<longrightarrow>
            sint (il_level l) \<le> sint (il_level c) \<and> (il_categories c \<noteq> 0 \<longrightarrow> label_le l c)) \<and>
         (\<forall>f. cert_max = None \<longrightarrow> mp_fallback_max_integrity policy = Some f \<longrightarrow>
            sint (il_level l) \<le> sint (il_level f))"
proof -
  obtain m ev5 where "mb_probe backend = RuntimeActive"
    "mb_get_user_mnkc backend (sc_pam_user ctx) = Ok m"
    "effective_label policy cert_max m = (l, ev5)"
    using assms by (rule apply_session_policy_call)
  then show ?thesis
    using effective_label_bounds(1) effective_label_bounds(2) effective_label_bounds(3)
      effective_label_bounds(4) by simp metis
qed

definition demo_pdp :: libpdp where
  "demo_pdp =
     \<lparr>pdp_strict_mode = 1, pdp_get_from_text = (\<lambda>_. Some 1), pdp_get_text = (\<lambda>_. None),
      pdp_set_pid = (\<lambda>_. 0), pdp_get_lpath = (\<lambda>_. None), pdp_set_path = (\<lambda>_ _. 0),
      pdp_set_fd = (\<lambda>_ _. 0), pdp_getmicnam = (\<lambda>_. Some 63), pdp_capget = Some 8\<rparr>"

definition demo_policy :: mac_policy where
  "demo_policy =
     \<lparr>mp_cert_integrity = CertRequired, mp_fallback_max_integrity = None,
      mp_warn_on_homedir_label_mismatch = True, mp_runtime = ModeRequired\<rparr>"

definition demo_session :: session_context where
  "demo_session =
     \<lparr>sc_pam_user = ''alice'', sc_pam_service = ''login'',
      sc_cert_ident = \<lparr>ci_serial = ''0A'', ci_issuer = ''CN=Root'', ci_cn = ''Alice'', ci_fingerprint = ''00''\<rparr>,
      sc_home_dir = Some ''/home/alice''\<rparr>"

definition demo_label :: integrity_label where
  "demo_label = \<lparr>il_level = 3, il_categories = 0\<rparr>"

lemma demo_run:
  "apply_session_policy (parsec_backend demo_pdp) demo_policy (Some demo_label) demo_session =
     (Ok (Applied demo_label),
      [EvCapped demo_label \<lparr>il_level = 63, il_categories = 0\<rparr>, CallApplySession demo_label, EvApplied demo_label])"
  by code_simp

lemma session_label_bounded_witness: "sint (il_level demo_label) \<le> 3"
  using session_label_bounded [OF demo_run, of demo_label] by (simp add: demo_label_def)

text \<open>
  C11. A required policy is never skipped: when \<open>cert_integrity\<close> is \<open>required\<close> and the policy accepts
  the session, the certificate carries the extension, the runtime is active, and a label within
  the certificate's level was applied and acknowledged by the backend.
\<close>

theorem required_policy_enforced:
  assumes "mp_cert_integrity policy = CertRequired"
    and "apply_session_policy backend policy cert_max ctx = (Ok k, ev)"
  shows "\<exists>l c. k = Applied l \<and> cert_max = Some c \<and> mb_probe backend = RuntimeActive \<and>
           mb_apply_session backend l = Ok () \<and> sint (il_level l) \<le> sint (il_level c)"
proof (cases k)
  case (Applied l)
  with assms(2) have a: "CallApplySession l \<in> set ev" "mb_apply_session backend l = Ok ()"
    using apply_session_policy_Applied by blast+
  obtain m ev5 where r: "mb_probe backend = RuntimeActive"
    "effective_label policy cert_max m = (l, ev5)"
    "mp_cert_integrity policy = CertRequired \<longrightarrow> cert_max \<noteq> None"
    using assms(2) a(1) by (rule apply_session_policy_call)
  with assms(1) obtain c where c: "cert_max = Some c" by auto
  then have "sint (il_level l) \<le> sint (il_level c)" using effective_label_bounds(2) [OF r(2)] by blast
  with Applied a(2) r(1) c show ?thesis by blast
next
  case (Skipped why)
  with apply_session_policy_Skipped [of backend policy cert_max ctx why] assms show ?thesis by simp
qed

lemma required_policy_enforced_witness:
  "mb_probe (parsec_backend demo_pdp) = RuntimeActive \<and> mp_cert_integrity demo_policy = CertRequired"
  using required_policy_enforced [OF _ demo_run] by (simp add: demo_policy_def)

text \<open>
  What the real backend applies is what the policy decided: when applying a label through
  \<open>libpdp\<close> succeeds, the library was given a text that decodes to exactly that label and
  \<open>pdp_set_pid\<close> accepted it; because user maxima are read without categories, the label has none.
\<close>

theorem parsec_applies_decided_label:
  assumes "apply_session_policy (parsec_backend P) policy cert_max ctx = (Ok (Applied l), ev)"
  shows "(\<exists>t h. decode_label_text t = Ok l \<and> pdp_get_from_text P t = Some h \<and> pdp_set_pid P h = 0) \<and>
         il_categories l = 0"
proof -
  from assms have a: "CallApplySession l \<in> set ev" "mb_apply_session (parsec_backend P) l = Ok ()"
    using apply_session_policy_Applied by blast+
  obtain m ev5 where m: "mb_get_user_mnkc (parsec_backend P) (sc_pam_user ctx) = Ok m"
    "effective_label policy cert_max m = (l, ev5)"
    using assms a(1) by (rule apply_session_policy_call)
  have "il_categories m = 0"
    using m(1) by (auto simp: parsec_backend_def ffi_get_user_mnkc_def result_simps split: option.splits)
  then have "il_categories l = 0"
    using effective_label_bounds(1) [OF m(2)] by (simp add: label_le_def)
  moreover have "\<exists>t h. decode_label_text t = Ok l \<and> pdp_get_from_text P t = Some h \<and> pdp_set_pid P h = 0"
    using a(2) decode_encode_label_text [of l "[]"]
    by (fastforce simp: parsec_backend_def set_proc_def pdpl_from_label_def cstring_new_def Let_def
        result_simps split: if_splits)
  ultimately show ?thesis by simp
qed

lemma parsec_applies_decided_label_witness: "il_categories demo_label = 0"
  using parsec_applies_decided_label [OF demo_run] by simp

text \<open>
  The rate limiter keeps its bound and its promise: the cache never exceeds its capacity, a
  fingerprint that was just reported is suppressed for the rest of the window, and suppression
  happens only for a fingerprint recorded within the window.
\<close>

theorem parse_failure_rate_limited:
  assumes "cache_ok cache" and "should_emit_parse_failed now fp cache = (e, c')"
  shows "cache_ok c' \<and>
         (e \<longrightarrow> (\<forall>now'. now' - now < PARSE_FAIL_RATE_WINDOW \<longrightarrow>
                    fst (should_emit_parse_failed now' fp c') = False)) \<and>
         (\<not> e \<longrightarrow> (\<exists>t. (fp, t) \<in> set cache \<and> now - t < PARSE_FAIL_RATE_WINDOW))"
proof (intro conjI impI allI)
  show c: "cache_ok c'" using should_emit_cache_ok [OF assms(1), of now fp] assms(2) by simp
  show "fst (should_emit_parse_failed now' fp c') = False" if e "now' - now < PARSE_FAIL_RATE_WINDOW" for now'
    using should_emit_suppressed [OF c should_emit_records] assms(2) that by simp
  show "\<exists>t. (fp, t) \<in> set cache \<and> now - t < PARSE_FAIL_RATE_WINDOW" if "\<not> e"
    using assms(2) that
    by (auto simp: should_emit_parse_failed_def Let_def dest!: map_of_SomeD split: option.splits if_splits)
qed

lemma parse_failure_rate_limited_witness:
  "fst (should_emit_parse_failed 130 ''ab'' (snd (should_emit_parse_failed 100 ''ab'' [(''cd'', 90)]))) = False"
proof -
  have "cache_ok [(''cd'', 90)]" by (simp add: cache_ok_def PARSE_FAIL_CACHE_CAP_def)
  moreover have "should_emit_parse_failed 100 ''ab'' [(''cd'', 90)] = (True, [(''cd'', 90), (''ab'', 100)])"
    by (simp add: should_emit_parse_failed_def PARSE_FAIL_CACHE_CAP_def PARSE_FAIL_RATE_WINDOW_def)
  ultimately show ?thesis
    using parse_failure_rate_limited [of "[(''cd'', 90)]" 100 "''ab''" True "[(''cd'', 90), (''ab'', 100)]"]
    by (simp add: PARSE_FAIL_RATE_WINDOW_def)
qed

end
