(* ===== verification/Trust_Chain.thy ===== *)
theory Trust_Chain
  imports Cert_Ext
begin

text \<open>
  Trust verification: classification of signature algorithms (\<open>x509/sig_alg.rs\<close>), the load-once
  gate of the GOST engine (\<open>gost/engine.rs\<close>), pre-validation of the leaf, path building, chain
  signatures, basic constraints and pinning (\<open>x509/\<close>), revocation (\<open>crl/store.rs\<close>) and the
  pipeline over them, \<open>verify_at\<close> (\<open>trust/openssl_verifier.rs\<close>). The process-wide \<open>OnceLock\<close> of the
  engine is state passed to and returned by the definitions that touch it.
\<close>

section \<open>Signature algorithms\<close>

datatype signature_alg =
    RsaWithSha256 | RsaWithSha384 | RsaWithSha512
  | EcdsaWithSha256 | EcdsaWithSha384 | EcdsaWithSha512
  | IdTc26SignWithDigestGostR341012_256 | IdTc26SignWithDigestGostR341012_512
  | Other string

definition from_oid_string :: "string \<Rightarrow> signature_alg" where
  "from_oid_string s =
     (if s \<in> set [''1.2.840.113549.1.1.11'', ''rsa-with-sha256'', ''sha256WithRSAEncryption''] then RsaWithSha256
      else if s \<in> set [''1.2.840.113549.1.1.12'', ''rsa-with-sha384'', ''sha384WithRSAEncryption''] then RsaWithSha384
      else if s \<in> set [''1.2.840.113549.1.1.13'', ''rsa-with-sha512'', ''sha512WithRSAEncryption''] then RsaWithSha512
      else if s \<in> set [''1.2.840.10045.4.3.2'', ''ecdsa-with-sha256'', ''ecdsa-with-SHA256''] then EcdsaWithSha256
      else if s \<in> set [''1.2.840.10045.4.3.3'', ''ecdsa-with-sha384'', ''ecdsa-with-SHA384''] then EcdsaWithSha384
      else if s \<in> set [''1.2.840.10045.4.3.4'', ''ecdsa-with-sha512'', ''ecdsa-with-SHA512''] then EcdsaWithSha512
      else if s \<in> set [''1.2.643.7.1.1.3.2'', ''id-tc26-signwithdigest-gost3410-2012-256'']
      then IdTc26SignWithDigestGostR341012_256
      else if s \<in> set [''1.2.643.7.1.1.3.3'', ''id-tc26-signwithdigest-gost3410-2012-512'']
      then IdTc26SignWithDigestGostR341012_512
      else Other s)"

fun sig_alg_oid :: "signature_alg \<Rightarrow> string" where
  "sig_alg_oid RsaWithSha256 = ''1.2.840.113549.1.1.11''"
| "sig_alg_oid RsaWithSha384 = ''1.2.840.113549.1.1.12''"
| "sig_alg_oid RsaWithSha512 = ''1.2.840.113549.1.1.13''"
| "sig_alg_oid EcdsaWithSha256 = ''1.2.840.10045.4.3.2''"
| "sig_alg_oid EcdsaWithSha384 = ''1.2.840.10045.4.3.3''"
| "sig_alg_oid EcdsaWithSha512 = ''1.2.840.10045.4.3.4''"
| "sig_alg_oid IdTc26SignWithDigestGostR341012_256 = ''1.2.643.7.1.1.3.2''"
| "sig_alg_oid IdTc26SignWithDigestGostR341012_512 = ''1.2.643.7.1.1.3.3''"
| "sig_alg_oid (Other s) = s"

fun is_gost :: "signature_alg \<Rightarrow> bool" where
  "is_gost IdTc26SignWithDigestGostR341012_256 = True"
| "is_gost IdTc26SignWithDigestGostR341012_512 = True"
| "is_gost _ = False"

definition certificate_signature_alg :: "certificate \<Rightarrow> signature_alg" where
  "certificate_signature_alg c = from_oid_string (signature_algorithm c)"

section \<open>The engine gate\<close>

datatype gost_engine_error =
    PathMissing string
  | NotAvailable string
  | LoadFailed string
  | SetDefaultFailed string
  | DigestUnavailable string

text \<open>libcrypto's engine interface and the file system, as the loader sees them.\<close>

record gost_sys =
  gs_exists :: "string \<Rightarrow> bool"
  gs_load_dynamic :: "string \<Rightarrow> string \<Rightarrow> (gost_engine_error, nat) result"
  gs_by_id :: "string \<Rightarrow> (gost_engine_error, nat) result"
  gs_set_default_all :: "nat \<Rightarrow> (gost_engine_error, unit) result"
  gs_digest_available :: "string \<Rightarrow> bool"

type_synonym engine_lock = "(gost_engine_error, nat) result option"

definition try_load_path :: "gost_sys \<Rightarrow> string option \<Rightarrow> (gost_engine_error, nat) result" where
  "try_load_path G path =
     and_then (case path of
         Some p \<Rightarrow> if \<not> gs_exists G p then Err (PathMissing p) else gs_load_dynamic G p ''gost''
       | None \<Rightarrow> gs_by_id G ''gost'') (\<lambda>handle.
     and_then (gs_set_default_all G handle) (\<lambda>_.
       if \<not> gs_digest_available G ''md_gost12_256'' \<and> \<not> gs_digest_available G ''streebog256''
       then Err (DigestUnavailable ''md_gost12_256 not registered after engine load'')
       else Ok handle))"

definition ensure_loaded_with_path ::
  "gost_sys \<Rightarrow> string option \<Rightarrow> engine_lock \<Rightarrow> (gost_engine_error, unit) result \<times> engine_lock" where
  "ensure_loaded_with_path G path lock =
     (let r = (case lock of Some cached \<Rightarrow> cached | None \<Rightarrow> try_load_path G path) in
      (case r of Inr _ \<Rightarrow> Ok () | Inl e \<Rightarrow> Err e, Some r))"

definition ensure_loaded_if_any_gost ::
  "gost_sys \<Rightarrow> certificate list \<Rightarrow> string option \<Rightarrow> engine_lock \<Rightarrow>
   (gost_engine_error, unit) result \<times> engine_lock" where
  "ensure_loaded_if_any_gost G certs path lock =
     (if list_ex (\<lambda>c. is_gost (certificate_signature_alg c)) certs
      then ensure_loaded_with_path G path lock else (Ok (), lock))"

definition ensure_loaded_if_signature_alg_gost ::
  "gost_sys \<Rightarrow> signature_alg \<Rightarrow> string option \<Rightarrow> engine_lock \<Rightarrow>
   (gost_engine_error, unit) result \<times> engine_lock" where
  "ensure_loaded_if_signature_alg_gost G sig_alg path lock =
     (if is_gost sig_alg then ensure_loaded_with_path G path lock else (Ok (), lock))"

definition engine_is_available :: "engine_lock \<Rightarrow> bool" where
  "engine_is_available lock = (case lock of Some (Inr _) \<Rightarrow> True | _ \<Rightarrow> False)"

fun gost_error_to_string :: "gost_engine_error \<Rightarrow> string" where
  "gost_error_to_string (PathMissing p) = ''gost-engine path is missing or not a regular file: '' @ p"
| "gost_error_to_string (NotAvailable m) = ''gost-engine is not available: '' @ m"
| "gost_error_to_string (LoadFailed m) = ''gost-engine load failed: '' @ m"
| "gost_error_to_string (SetDefaultFailed m) = ''gost-engine set_default failed: '' @ m"
| "gost_error_to_string (DigestUnavailable n) = ''gost digest unavailable: '' @ n"

section \<open>Pre-validation of the leaf\<close>

record pre_validate_config =
  pv_clock_skew :: int
  pv_signature_alg_whitelist :: "string list"

definition pre_validate_end_entity ::
  "certificate \<Rightarrow> pre_validate_config \<Rightarrow> int \<Rightarrow> (trust_error, unit) result" where
  "pre_validate_end_entity cert cfg now =
     and_then (ensure (xf_version (cert_inner cert) = 2) (Validity ''not X.509 v3'')) (\<lambda>_.
     and_then (ensure (\<not> now + pv_clock_skew cfg < not_before cert) (Validity ''not yet valid'')) (\<lambda>_.
     and_then (ensure (\<not> now > not_after cert + pv_clock_skew cfg) (Validity ''expired'')) (\<lambda>_.
     and_then (ensure (pv_signature_alg_whitelist cfg = [] \<or>
                       list_ex (\<lambda>w. w = signature_algorithm cert) (pv_signature_alg_whitelist cfg))
                (SignatureAlgorithm (signature_algorithm cert))) (\<lambda>_.
     and_then (key_usage_digital_signature cert) (\<lambda>ku.
     and_then (ensure ku KeyUsage) (\<lambda>_.
     and_then (eku_client_auth cert) (\<lambda>eku.
     and_then (ensure eku Eku) (\<lambda>_.
     and_then (basic_constraints (cert_inner cert)) (\<lambda>bc.
       case bc of
         Some b \<Rightarrow> if bc_is_ca b then Err (BasicConstraints ''end-entity must not be CA'') else Ok ()
       | None \<Rightarrow> Ok ())))))))))"

section \<open>Path building\<close>

definition name_eq :: "x509_name \<Rightarrow> x509_name \<Rightarrow> bool" where
  "name_eq a b = (case (nm_canon a, nm_canon b) of (Some x, Some y) \<Rightarrow> x = y | _ \<Rightarrow> False)"

definition is_self_signed :: "certificate \<Rightarrow> bool" where
  "is_self_signed cert \<longleftrightarrow>
     (if \<not> name_eq (xf_issuer_name (cert_inner cert)) (xf_subject_name (cert_inner cert)) then False
      else case (xf_aki (cert_inner cert), xf_ski (cert_inner cert)) of
          (Some aki, Some ski) \<Rightarrow> aki = ski
        | (None, _) \<Rightarrow> True
        | _ \<Rightarrow> False)"

definition issuer_matches :: "certificate \<Rightarrow> certificate \<Rightarrow> bool" where
  "issuer_matches cert cand \<longleftrightarrow>
     (let target_aki = xf_aki (cert_inner cert);
          aki_ski_ok = (case (target_aki, xf_ski (cert_inner cand)) of
                          (Some a, Some s) \<Rightarrow> a = s | _ \<Rightarrow> False);
          dn_ok = name_eq (xf_issuer_name (cert_inner cert)) (xf_subject_name (cert_inner cand))
      in dn_ok \<and> (target_aki = None \<or> aki_ski_ok))"

definition find_issuer :: "certificate \<Rightarrow> certificate list \<Rightarrow> certificate option" where
  "find_issuer cert haystack = find (issuer_matches cert) haystack"

function build_chain_loop ::
  "certificate list \<Rightarrow> certificate list \<Rightarrow> certificate list \<Rightarrow> nat \<Rightarrow> certificate list \<Rightarrow>
   (trust_error, certificate list) result" where
  "build_chain_loop presented pool anchors max_depth chain =
     (if chain = [] then Err (PathBuild ''internal: empty chain'')
      else let current = last chain in
        case find_issuer current anchors of
          Some anchor \<Rightarrow>
            if \<not> is_self_signed anchor then Err (PathBuild ''anchor not self-signed'')
            else Ok (chain @ [anchor])
        | None \<Rightarrow>
            (case (case find_issuer current presented of
                     Some p \<Rightarrow> Some p | None \<Rightarrow> find_issuer current pool) of
               Some parent \<Rightarrow>
                 if length chain + 1 > max_depth then Err (DepthExceeded (length chain + 1) max_depth)
                 else build_chain_loop presented pool anchors max_depth (chain @ [parent])
             | None \<Rightarrow> Err (PathBuild ''no issuer found'')))"
  by auto
termination
  by (relation "measure (\<lambda>(_, _, _, max_depth, chain). Suc max_depth - length chain)") auto

declare build_chain_loop.simps [simp del]

definition build_chain ::
  "certificate \<Rightarrow> certificate list \<Rightarrow> certificate list \<Rightarrow> certificate list \<Rightarrow> nat \<Rightarrow>
   (trust_error, certificate list) result" where
  "build_chain leaf presented pool anchors max_depth =
     (if max_depth = 0 then Err (DepthExceeded 1 0)
      else build_chain_loop presented pool anchors max_depth [leaf])"

section \<open>Checks on the chain\<close>

fun verify_links :: "crypto \<Rightarrow> nat \<Rightarrow> certificate list \<Rightarrow> (trust_error, unit) result" where
  "verify_links C depth (child # parent # rest) =
     and_then (certificate_public_key parent) (\<lambda>pk.
     and_then (map_err Openssl (c_x509_verify C (cert_inner child) pk)) (\<lambda>ok.
       if \<not> ok then Err (BadSignature depth) else verify_links C (Suc depth) (parent # rest)))"
| "verify_links C depth _ = Ok ()"

definition verify_chain_signatures :: "crypto \<Rightarrow> certificate list \<Rightarrow> (trust_error, unit) result" where
  "verify_chain_signatures C chain =
     (if length chain < 2 then Err (PathBuild ''chain too short'')
      else and_then (verify_links C 0 chain) (\<lambda>_.
        let last_idx = length chain - 1; anchor = last chain in
        and_then (certificate_public_key anchor) (\<lambda>pk.
        and_then (map_err Openssl (c_x509_verify C (cert_inner anchor) pk)) (\<lambda>ok.
          if \<not> ok then Err (BadSignature last_idx) else Ok ()))))"

definition required_bc :: "certificate \<Rightarrow> (trust_error, basic_constraints_view) result" where
  "required_bc cert =
     and_then (basic_constraints (cert_inner cert)) (\<lambda>bc.
       ok_or (BasicConstraints ''missing on intermediate/anchor'') bc)"

definition check_bc_at :: "nat \<times> certificate \<Rightarrow> (trust_error, unit) result" where
  "check_bc_at = (\<lambda>(i, cert).
     and_then (required_bc cert) (\<lambda>bc.
     and_then (ensure (bc_is_ca bc) (BasicConstraints ''intermediate not CA'')) (\<lambda>_.
       case bc_path_len bc of
         Some allowed \<Rightarrow>
           if i - 1 > unat allowed then Err (BasicConstraints ''pathLenConstraint exceeded'') else Ok ()
       | None \<Rightarrow> Ok ())))"

definition verify_basic_constraints :: "certificate list \<Rightarrow> (trust_error, unit) result" where
  "verify_basic_constraints chain =
     (if length chain < 2 then Err (PathBuild ''chain too short'')
      else try_each check_bc_at (drop 1 (enumerate 0 chain)))"

definition check_intermediate :: "int \<Rightarrow> int \<Rightarrow> certificate \<Rightarrow> (trust_error, unit) result" where
  "check_intermediate now clock_skew cert =
     and_then (ensure (\<not> now + clock_skew < not_before cert) (Validity ''intermediate not yet valid'')) (\<lambda>_.
     and_then (ensure (\<not> now > not_after cert + clock_skew) (Validity ''intermediate expired'')) (\<lambda>_.
     and_then (required_bc cert) (\<lambda>bc.
     and_then (ensure (bc_is_ca bc) (BasicConstraints ''intermediate not CA'')) (\<lambda>_.
     and_then (key_usage_key_cert_sign cert) (\<lambda>ku. ensure ku KeyUsage)))))"

definition verify_intermediate_constraints ::
  "certificate list \<Rightarrow> int \<Rightarrow> int \<Rightarrow> (trust_error, unit) result" where
  "verify_intermediate_constraints chain now clock_skew =
     (if length chain < 2 then Err (PathBuild ''chain too short'')
      else try_each (check_intermediate now clock_skew) (drop 1 chain))"

definition spki_sha256 :: "crypto \<Rightarrow> certificate \<Rightarrow> (trust_error, bytes) result" where
  "spki_sha256 C cert =
     and_then (certificate_public_key cert) (\<lambda>pk.
     and_then (map_err Openssl (c_public_key_to_der C pk)) (\<lambda>der. Ok (c_sha256 C der)))"

definition verify_pinning :: "crypto \<Rightarrow> certificate \<Rightarrow> bytes list \<Rightarrow> (trust_error, unit) result" where
  "verify_pinning C anchor pins =
     (if pins = [] then Ok ()
      else and_then (spki_sha256 C anchor) (\<lambda>actual.
        if actual \<in> set pins then Ok () else Err PinMismatch))"

section \<open>Revocation\<close>

record crl =
  crl_inner :: x509_crl
  crl_this_update :: int
  crl_next_update :: "int option"
  crl_revoked :: "string list"
  crl_issuer_dn_der :: bytes

text \<open>The conversion of \<open>crl/store.rs\<close> reports a failing \<open>diff\<close> instead of returning the epoch.\<close>

definition crl_asn1_to_system :: "time_diff \<Rightarrow> (trust_error, int) result" where
  "crl_asn1_to_system t =
     (case t of None \<Rightarrow> Err (Crl ''asn1 time'') | Some (days, secs) \<Rightarrow> Ok (days * 86400 + secs))"

definition crl_from_inner :: "x509_crl \<Rightarrow> (trust_error, crl) result" where
  "crl_from_inner inner =
     and_then (crl_asn1_to_system (rl_last_update inner)) (\<lambda>this_update.
     and_then (case rl_next_update inner of
                 Some t \<Rightarrow> and_then (crl_asn1_to_system t) (\<lambda>x. Ok (Some x))
               | None \<Rightarrow> Ok None) (\<lambda>next_update.
     let revoked = (case rl_revoked inner of
                      None \<Rightarrow> []
                    | Some rs \<Rightarrow> map to_ascii_lowercase (List.map_filter id rs)) in
     and_then (map_err Crl (rl_issuer_der inner)) (\<lambda>dn.
       Ok \<lparr>crl_inner = inner, crl_this_update = this_update, crl_next_update = next_update,
           crl_revoked = revoked, crl_issuer_dn_der = dn\<rparr>)))"

definition crl_from_pem :: "crypto \<Rightarrow> bytes \<Rightarrow> (trust_error, crl) result" where
  "crl_from_pem C pem = and_then (map_err Crl (c_crl_from_pem C pem)) crl_from_inner"

definition crl_store_from_pems :: "crypto \<Rightarrow> bytes list \<Rightarrow> (trust_error, crl list) result" where
  "crl_store_from_pems C pems = try_map (crl_from_pem C) pems"

definition crl_verify_signature :: "crypto \<Rightarrow> crl \<Rightarrow> pkey \<Rightarrow> (trust_error, unit) result" where
  "crl_verify_signature C c key =
     and_then (map_err (\<lambda>e. Crl (''CRL signature: '' @ e)) (c_crl_verify C (crl_inner c) key)) (\<lambda>ok.
       if ok then Ok () else Err (Crl ''CRL signature does not validate''))"

definition crl_verify_signature_with_issuer ::
  "crypto \<Rightarrow> gost_sys \<Rightarrow> crl \<Rightarrow> certificate \<Rightarrow> string option \<Rightarrow> engine_lock \<Rightarrow>
   (trust_error, unit) result \<times> engine_lock" where
  "crl_verify_signature_with_issuer C G c issuer path lock =
     (let (r, lock') = ensure_loaded_if_signature_alg_gost G (certificate_signature_alg issuer) path lock in
      (and_then (map_err (\<lambda>e. EngineLoadFailed (gost_error_to_string e)) r) (\<lambda>_.
       and_then (certificate_public_key issuer) (crl_verify_signature C c)), lock'))"

definition crl_expired :: "int \<Rightarrow> crl \<Rightarrow> bool" where
  "crl_expired now c = (case crl_next_update c of Some nu \<Rightarrow> nu \<le> now | None \<Rightarrow> False)"

definition check_revocation_one ::
  "certificate list \<Rightarrow> bool \<Rightarrow> int \<Rightarrow> crl \<Rightarrow> (trust_error, unit) result" where
  "check_revocation_one chain crl_strict now c =
     (if crl_expired now c then (if crl_strict then Err (Crl ''CRL expired'') else Ok ())
      else try_each (\<lambda>cert.
        let serial = to_ascii_lowercase (serial_hex cert) in
        if list_ex (\<lambda>s. s = serial) (crl_revoked c) then Err (Revoked serial) else Ok ()) chain)"

definition check_revocation ::
  "certificate list \<Rightarrow> crl list \<Rightarrow> bool \<Rightarrow> int \<Rightarrow> (trust_error, unit) result" where
  "check_revocation chain store crl_strict now =
     (if store = [] then Ok () else try_each (check_revocation_one chain crl_strict now) store)"

section \<open>The verifier\<close>

record openssl_verifier_config =
  vc_anchors :: "certificate list"
  vc_intermediates :: "certificate list"
  vc_crl_pems :: "bytes list"
  vc_crl_strict :: bool
  vc_clock_skew :: int
  vc_signature_alg_whitelist :: "string list"
  vc_spki_pins :: "bytes list"
  vc_max_depth :: nat
  vc_gost_engine_path :: "string option"

record openssl_verifier =
  ov_anchors :: "certificate list"
  ov_intermediates :: "certificate list"
  ov_crl_store :: "crl list"
  ov_crl_strict :: bool
  ov_pre_cfg :: pre_validate_config
  ov_pins :: "bytes list"
  ov_max_depth :: nat
  ov_gost_engine_path :: "string option"

definition openssl_verifier_new ::
  "crypto \<Rightarrow> openssl_verifier_config \<Rightarrow> (trust_error, openssl_verifier) result" where
  "openssl_verifier_new C cfg =
     (if vc_anchors cfg = [] then Err (PathBuild ''no anchors configured'')
      else if vc_max_depth cfg = 0 then Err (PathBuild ''max_depth must be at least 1'')
      else and_then (crl_store_from_pems C (vc_crl_pems cfg)) (\<lambda>crl_store.
        Ok \<lparr>ov_anchors = vc_anchors cfg, ov_intermediates = vc_intermediates cfg,
            ov_crl_store = crl_store, ov_crl_strict = vc_crl_strict cfg,
            ov_pre_cfg = \<lparr>pv_clock_skew = vc_clock_skew cfg,
                          pv_signature_alg_whitelist = vc_signature_alg_whitelist cfg\<rparr>,
            ov_pins = vc_spki_pins cfg, ov_max_depth = vc_max_depth cfg,
            ov_gost_engine_path = vc_gost_engine_path cfg\<rparr>))"

record stage2_verified_chain =
  vch_end_entity :: certificate
  vch_chain :: "certificate list"
  vch_anchor :: certificate

definition verify_steps ::
  "crypto \<Rightarrow> openssl_verifier \<Rightarrow> certificate \<Rightarrow> certificate list \<Rightarrow> int \<Rightarrow>
   (trust_error, stage2_verified_chain) result" where
  "verify_steps C v leaf presented now =
     and_then (pre_validate_end_entity leaf (ov_pre_cfg v) now) (\<lambda>_.
     and_then (build_chain leaf presented (ov_intermediates v) (ov_anchors v) (ov_max_depth v)) (\<lambda>chain.
     and_then (verify_chain_signatures C chain) (\<lambda>_.
     and_then (verify_basic_constraints chain) (\<lambda>_.
     and_then (verify_intermediate_constraints chain now (pv_clock_skew (ov_pre_cfg v))) (\<lambda>_.
     and_then (check_revocation chain (ov_crl_store v) (ov_crl_strict v) now) (\<lambda>_.
     if chain = [] then Err (PathBuild ''internal: empty verified chain'')
     else and_then (verify_pinning C (last chain) (ov_pins v)) (\<lambda>_.
       Ok \<lparr>vch_end_entity = hd chain,
           vch_chain = (if length chain > 2 then take (length chain - 2) (drop 1 chain) else []),
           vch_anchor = last chain\<rparr>)))))))"

definition verify_at ::
  "crypto \<Rightarrow> gost_sys \<Rightarrow> openssl_verifier \<Rightarrow> certificate \<Rightarrow> certificate list \<Rightarrow> int \<Rightarrow> engine_lock \<Rightarrow>
   (trust_error, stage2_verified_chain) result \<times> engine_lock" where
  "verify_at C G v leaf presented now lock =
     (let all_certs = leaf # presented @ ov_intermediates v @ ov_anchors v;
          (r, lock') = ensure_loaded_if_any_gost G all_certs (ov_gost_engine_path v) lock
      in (and_then (map_err (\<lambda>e. EngineLoadFailed (gost_error_to_string e)) r) (\<lambda>_.
            verify_steps C v leaf presented now), lock'))"

section \<open>Facts about path building\<close>

lemma find_issuer_Some: "find_issuer c hs = Some p \<Longrightarrow> p \<in> set hs \<and> issuer_matches c p"
  by (auto simp: find_issuer_def find_Some_iff)

lemma build_chain_loop_Ok:
  assumes "build_chain_loop presented pool anchors d chain = Ok out"
    and "chain \<noteq> []" and "successively issuer_matches chain" and "length chain \<le> d"
  shows "\<exists>mid anchor. out = chain @ mid @ [anchor] \<and> anchor \<in> set anchors \<and> is_self_signed anchor \<and>
           set mid \<subseteq> set presented \<union> set pool \<and> successively issuer_matches out \<and>
           length out \<le> Suc d"
  using assms
proof (induction presented pool anchors d chain rule: build_chain_loop.induct)
  case (1 presented pool anchors d chain)
  note step = "1.prems"(1) [unfolded build_chain_loop.simps [of presented pool anchors d chain]]
  show ?case
  proof (cases "find_issuer (last chain) anchors")
    case (Some anchor)
    with step "1.prems"(2) have "out = chain @ [anchor]" "is_self_signed anchor"
      by (auto simp: Let_def split: if_splits)
    with Some find_issuer_Some [OF Some] "1.prems"(2-4) show ?thesis
      by (intro exI [of _ "[]"] exI [of _ anchor]) (auto simp: successively_append_iff)
  next
    case None
    let ?p = "case find_issuer (last chain) presented of
                Some p \<Rightarrow> Some p | None \<Rightarrow> find_issuer (last chain) pool"
    from step None "1.prems"(2) obtain p where p: "?p = Some p" and len: "length chain + 1 \<le> d"
      and rec: "build_chain_loop presented pool anchors d (chain @ [p]) = Ok out"
      by (auto simp: Let_def split: option.splits if_splits)
    have in_p: "p \<in> set presented \<union> set pool" "issuer_matches (last chain) p"
      using p by (auto dest: find_issuer_Some split: option.splits)
    have "\<exists>mid anchor. out = (chain @ [p]) @ mid @ [anchor] \<and> anchor \<in> set anchors \<and>
        is_self_signed anchor \<and> set mid \<subseteq> set presented \<union> set pool \<and>
        successively issuer_matches out \<and> length out \<le> Suc d"
      by (rule "1.IH" [OF "1.prems"(2) refl None p]) (use rec len in_p "1.prems" in \<open>auto simp: successively_append_iff\<close>)
    then obtain mid anchor where "out = chain @ (p # mid) @ [anchor]" "anchor \<in> set anchors"
      "is_self_signed anchor" "set mid \<subseteq> set presented \<union> set pool"
      "successively issuer_matches out" "length out \<le> Suc d" by auto
    with in_p show ?thesis by (intro exI [of _ "p # mid"] exI [of _ anchor]) auto
  qed
qed

lemma build_chain_Ok:
  assumes "build_chain leaf presented pool anchors d = Ok out"
  obtains mid anchor where "out = leaf # mid @ [anchor]" "anchor \<in> set anchors" "is_self_signed anchor"
    "set mid \<subseteq> set presented \<union> set pool" "successively issuer_matches out" "length out \<le> Suc d"
  using assms build_chain_loop_Ok [of presented pool anchors d "[leaf]" out] that
  by (auto simp: build_chain_def split: if_splits)

section \<open>Facts about the checks\<close>

definition signed_by :: "crypto \<Rightarrow> certificate \<Rightarrow> certificate \<Rightarrow> bool" where
  "signed_by C child parent \<longleftrightarrow>
     (\<exists>pk. certificate_public_key parent = Ok pk \<and> c_x509_verify C (cert_inner child) pk = Ok True)"

definition within_validity :: "int \<Rightarrow> int \<Rightarrow> certificate \<Rightarrow> bool" where
  "within_validity now skew c \<longleftrightarrow> not_before c - skew \<le> now \<and> now \<le> not_after c + skew"

text \<open>What a certificate authority at position \<open>i\<close> of a chain must satisfy.\<close>

definition ca_at :: "nat \<Rightarrow> certificate \<Rightarrow> bool" where
  "ca_at i c \<longleftrightarrow>
     (\<exists>bc. basic_constraints (cert_inner c) = Ok (Some bc) \<and> bc_is_ca bc \<and>
           (\<forall>n. bc_path_len bc = Some n \<longrightarrow> i - 1 \<le> unat n)) \<and>
     key_usage_key_cert_sign c = Ok True"

definition leaf_ok :: "pre_validate_config \<Rightarrow> certificate \<Rightarrow> bool" where
  "leaf_ok cfg c \<longleftrightarrow>
     xf_version (cert_inner c) = 2 \<and>
     (pv_signature_alg_whitelist cfg = [] \<or> signature_algorithm c \<in> set (pv_signature_alg_whitelist cfg)) \<and>
     key_usage_digital_signature c = Ok True \<and> eku_client_auth c = Ok True \<and>
     (\<exists>bc. basic_constraints (cert_inner c) = Ok bc \<and> (\<forall>b. bc = Some b \<longrightarrow> \<not> bc_is_ca b))"

definition not_revoked :: "crl list \<Rightarrow> int \<Rightarrow> certificate \<Rightarrow> bool" where
  "not_revoked store now c \<longleftrightarrow>
     (\<forall>l\<in>set store. \<not> crl_expired now l \<longrightarrow> to_ascii_lowercase (serial_hex c) \<notin> set (crl_revoked l))"

lemma pre_validate_Ok:
  "pre_validate_end_entity c cfg now = Ok () \<Longrightarrow>
   leaf_ok cfg c \<and> within_validity now (pv_clock_skew cfg) c"
  by (auto simp: pre_validate_end_entity_def result_simps leaf_ok_def within_validity_def list_ex_iff
      split: option.splits if_splits)

lemma verify_links_Ok: "verify_links C d chain = Ok () \<Longrightarrow> successively (signed_by C) chain"
  by (induction C d chain rule: verify_links.induct)
    (auto simp: result_simps signed_by_def split: if_splits)

lemma verify_chain_signatures_Ok:
  "verify_chain_signatures C chain = Ok () \<Longrightarrow>
   successively (signed_by C) chain \<and> signed_by C (last chain) (last chain)"
  by (auto simp: verify_chain_signatures_def result_simps Let_def signed_by_def
      dest: verify_links_Ok split: if_splits)

lemma set_drop1_enumerate:
  "0 < i \<Longrightarrow> i < length xs \<Longrightarrow> (i, xs ! i) \<in> set (drop 1 (enumerate 0 xs))"
  by (cases xs) (auto simp: in_set_enumerate_eq nth_Cons')

lemma set_drop1_nth: "0 < i \<Longrightarrow> i < length xs \<Longrightarrow> xs ! i \<in> set (drop 1 xs)"
  by (cases xs) (auto simp: nth_Cons')

lemma check_bc_at_Ok:
  assumes "check_bc_at (i, c) = Ok ()"
  shows "\<exists>bc. basic_constraints (cert_inner c) = Ok (Some bc) \<and> bc_is_ca bc \<and>
           (\<forall>n. bc_path_len bc = Some n \<longrightarrow> i - 1 \<le> unat n)"
proof -
  from assms obtain bc where bc: "basic_constraints (cert_inner c) = Ok (Some bc)" "bc_is_ca bc"
    by (auto simp: check_bc_at_def required_bc_def result_simps)
  with assms have "i - 1 \<le> unat n" if "bc_path_len bc = Some n" for n
    using that by (simp add: check_bc_at_def required_bc_def not_less split: if_splits)
  with bc show ?thesis by blast
qed

lemma check_intermediate_Ok:
  "check_intermediate now skew c = Ok () \<Longrightarrow>
   within_validity now skew c \<and> key_usage_key_cert_sign c = Ok True"
  by (auto simp: check_intermediate_def within_validity_def result_simps)

lemma chain_constraints_Ok:
  assumes "verify_basic_constraints chain = Ok ()"
    and "verify_intermediate_constraints chain now skew = Ok ()"
    and "0 < i" and "i < length chain"
  shows "ca_at i (chain ! i) \<and> within_validity now skew (chain ! i)"
proof -
  have "check_bc_at (i, chain ! i) = Ok ()"
    using assms(1) set_drop1_enumerate [OF assms(3,4)]
    by (auto simp: verify_basic_constraints_def result_simps split: if_splits)
  moreover have "check_intermediate now skew (chain ! i) = Ok ()"
    using assms(2) set_drop1_nth [OF assms(3,4)]
    by (auto simp: verify_intermediate_constraints_def result_simps split: if_splits)
  ultimately show ?thesis
    using check_bc_at_Ok check_intermediate_Ok by (auto simp: ca_at_def)
qed

lemma check_revocation_Ok:
  "check_revocation chain store strict now = Ok () \<Longrightarrow> c \<in> set chain \<Longrightarrow> not_revoked store now c"
  by (auto simp: check_revocation_def check_revocation_one_def not_revoked_def result_simps Let_def
      list_ex_iff split: if_splits)

lemma check_revocation_strict:
  "check_revocation chain store True now = Ok () \<Longrightarrow> l \<in> set store \<Longrightarrow> \<not> crl_expired now l"
  by (auto simp: check_revocation_def check_revocation_one_def result_simps split: if_splits)

lemma verify_pinning_Ok:
  "verify_pinning C a pins = Ok () \<Longrightarrow>
   pins = [] \<or> (\<exists>pk der. certificate_public_key a = Ok pk \<and> c_public_key_to_der C pk = Ok der \<and>
                          c_sha256 C der \<in> set pins)"
  by (auto simp: verify_pinning_def spki_sha256_def result_simps split: if_splits)

lemma verify_steps_Ok:
  assumes "verify_steps C v leaf presented now = Ok vc"
  obtains chain where "pre_validate_end_entity leaf (ov_pre_cfg v) now = Ok ()"
    "build_chain leaf presented (ov_intermediates v) (ov_anchors v) (ov_max_depth v) = Ok chain"
    "verify_chain_signatures C chain = Ok ()" "verify_basic_constraints chain = Ok ()"
    "verify_intermediate_constraints chain now (pv_clock_skew (ov_pre_cfg v)) = Ok ()"
    "check_revocation chain (ov_crl_store v) (ov_crl_strict v) now = Ok ()"
    "verify_pinning C (last chain) (ov_pins v) = Ok ()"
    "vc = \<lparr>vch_end_entity = hd chain,
           vch_chain = (if length chain > 2 then take (length chain - 2) (drop 1 chain) else []),
           vch_anchor = last chain\<rparr>"
  using assms that by (auto simp: verify_steps_def result_simps split: if_splits)

text \<open>The chain a verifier vouches for.\<close>

definition full_chain :: "stage2_verified_chain \<Rightarrow> certificate list" where
  "full_chain vc = vch_end_entity vc # vch_chain vc @ [vch_anchor vc]"

definition trusted_chain ::
  "crypto \<Rightarrow> openssl_verifier \<Rightarrow> certificate list \<Rightarrow> int \<Rightarrow> certificate list \<Rightarrow> bool" where
  "trusted_chain C v presented now chain \<longleftrightarrow>
     leaf_ok (ov_pre_cfg v) (hd chain) \<and>
     last chain \<in> set (ov_anchors v) \<and> is_self_signed (last chain) \<and> signed_by C (last chain) (last chain) \<and>
     set (butlast (tl chain)) \<subseteq> set presented \<union> set (ov_intermediates v) \<and>
     2 \<le> length chain \<and> length chain \<le> Suc (ov_max_depth v) \<and>
     successively issuer_matches chain \<and> successively (signed_by C) chain \<and>
     (\<forall>i<length chain. within_validity now (pv_clock_skew (ov_pre_cfg v)) (chain ! i)) \<and>
     (\<forall>i<length chain. 0 < i \<longrightarrow> ca_at i (chain ! i)) \<and>
     (\<forall>c\<in>set chain. not_revoked (ov_crl_store v) now c) \<and>
     (ov_crl_strict v \<longrightarrow> (\<forall>l\<in>set (ov_crl_store v). \<not> crl_expired now l)) \<and>
     (ov_pins v = [] \<or>
      (\<exists>pk der. certificate_public_key (last chain) = Ok pk \<and> c_public_key_to_der C pk = Ok der \<and>
                c_sha256 C der \<in> set (ov_pins v)))"

lemma verify_steps_trusted:
  assumes "verify_steps C v leaf presented now = Ok vc"
  shows "vch_end_entity vc = leaf \<and> trusted_chain C v presented now (full_chain vc)"
proof -
  let ?skew = "pv_clock_skew (ov_pre_cfg v)"
  from assms obtain chain where r: "pre_validate_end_entity leaf (ov_pre_cfg v) now = Ok ()"
    "build_chain leaf presented (ov_intermediates v) (ov_anchors v) (ov_max_depth v) = Ok chain"
    "verify_chain_signatures C chain = Ok ()" "verify_basic_constraints chain = Ok ()"
    "verify_intermediate_constraints chain now ?skew = Ok ()"
    "check_revocation chain (ov_crl_store v) (ov_crl_strict v) now = Ok ()"
    "verify_pinning C (last chain) (ov_pins v) = Ok ()"
    "vc = \<lparr>vch_end_entity = hd chain,
           vch_chain = (if length chain > 2 then take (length chain - 2) (drop 1 chain) else []),
           vch_anchor = last chain\<rparr>"
    by (rule verify_steps_Ok)
  from r(2) obtain mid anchor where b: "chain = leaf # mid @ [anchor]" "anchor \<in> set (ov_anchors v)"
    "is_self_signed anchor" "set mid \<subseteq> set presented \<union> set (ov_intermediates v)"
    "successively issuer_matches chain" "length chain \<le> Suc (ov_max_depth v)"
    by (rule build_chain_Ok)
  have f: "full_chain vc = chain" "vch_end_entity vc = leaf"
    using r(8) by (auto simp: full_chain_def b(1))
  have leaf: "leaf_ok (ov_pre_cfg v) leaf" "within_validity now ?skew leaf"
    using pre_validate_Ok [OF r(1)] by auto
  have "within_validity now ?skew (chain ! i)" if "i < length chain" for i
    using that leaf(2) chain_constraints_Ok [OF r(4,5), of i] by (cases "i = 0") (auto simp: b(1))
  moreover have "ca_at i (chain ! i)" if "0 < i" "i < length chain" for i
    using chain_constraints_Ok [OF r(4,5) that] by blast
  moreover have "ov_crl_strict v \<longrightarrow> (\<forall>l\<in>set (ov_crl_store v). \<not> crl_expired now l)"
    using r(6) check_revocation_strict by auto
  ultimately show ?thesis
    using b leaf(1) verify_chain_signatures_Ok [OF r(3)] check_revocation_Ok [OF r(6)]
      verify_pinning_Ok [OF r(7)]
    unfolding f trusted_chain_def by (auto simp: b(1) butlast_append)
qed

section \<open>Facts about the engine gate\<close>

lemma from_oid_string_oid: "from_oid_string (sig_alg_oid (from_oid_string s)) = from_oid_string s"
  by (simp add: from_oid_string_def)

section \<open>Properties\<close>

text \<open>
  C2. An accepted certificate heads a trusted chain: when \<open>verify_at\<close> accepts, the end entity is
  the leaf it was given and the returned chain satisfies the whole trust specification. Every
  certificate is within its validity window, each is issued and cryptographically signed by the
  next, every issuer is a certificate authority entitled to sign within its path length, the
  leaf is a version 3 client authentication certificate with an allowed algorithm that is no
  authority, the chain ends in a configured, self-signed, pinned anchor, and no serial number is
  listed by a current revocation list (in strict mode no list is out of date).
\<close>

theorem verify_at_trusted:
  assumes "verify_at C G v leaf presented now lock = (Ok vc, lock')"
  shows "vch_end_entity vc = leaf \<and> trusted_chain C v presented now (full_chain vc)"
proof -
  have "verify_steps C v leaf presented now = Ok vc"
    using assms by (auto simp: verify_at_def Let_def result_simps split: prod.splits)
  then show ?thesis by (rule verify_steps_trusted)
qed

definition demo_ext_leaf :: "ext list" where
  "demo_ext_leaf =
     [([0x55, 0x1D, 0x0F], True, [3, 2, 7, 0x80]),
      ([0x55, 0x1D, 0x25], False,
       encode_tlv TAG_SEQUENCE (encode_tlv TAG_OID [0x2B, 6, 1, 5, 5, 7, 3, 2]))]"

definition demo_ext_ca :: "ext list" where
  "demo_ext_ca =
     [([0x55, 0x1D, 0x0F], True, [3, 2, 2, 4]),
      ([0x55, 0x1D, 0x13], True, encode_basic_constraints True (Some [0]))]"

definition demo_cert :: "bytes \<Rightarrow> bytes \<Rightarrow> pkey \<Rightarrow> ext list \<Rightarrow> certificate" where
  "demo_cert issuer subject key exts =
     (let der = encode_cert [(0xA0, [2, 1, 2]), (0x02, [7])] exts [0x30, 0] in
      \<lparr>cert_inner =
         \<lparr>xf_to_der = Ok der, xf_version = 2, xf_not_before = Some (0, 0), xf_not_after = Some (10, 0),
          xf_issuer_name = \<lparr>nm_canon = Some issuer, nm_entries = []\<rparr>,
          xf_subject_name = \<lparr>nm_canon = Some subject, nm_entries = []\<rparr>,
          xf_alt_name_emails = None, xf_serial = Some ''0A'',
          xf_signature_algorithm = ''sha256WithRSAEncryption'', xf_ski = Some subject, xf_aki = Some issuer,
          xf_public_key = Ok key, xf_digest_sha256 = None\<rparr>,
       cert_der_cache = der\<rparr>)"

definition demo_leaf :: certificate where "demo_leaf = demo_cert [1] [2] 2 demo_ext_leaf"
definition demo_root :: certificate where "demo_root = demo_cert [1] [1] 1 demo_ext_ca"

text \<open>A signature verifies under the key that was used for it.\<close>

definition demo_x509_crypto :: crypto where
  "demo_x509_crypto =
     \<lparr>c_oid_from_str = (\<lambda>_. Err ''unused''), c_sha256 = (\<lambda>bs. bs),
      c_x509_from_der = (\<lambda>_. Err ''unused''), c_x509_from_pem = (\<lambda>_. Err ''unused''),
      c_x509_verify = (\<lambda>x k. Ok (k = 1 \<and> xf_aki x = Some [1])), c_public_key_to_der = (\<lambda>k. Ok [of_nat k]),
      c_crl_from_pem = (\<lambda>_. Err ''unused''), c_crl_from_der = (\<lambda>_. Err ''unused''),
      c_crl_verify = (\<lambda>_ _. Ok True)\<rparr>"

definition demo_gost :: gost_sys where
  "demo_gost =
     \<lparr>gs_exists = (\<lambda>_. False), gs_load_dynamic = (\<lambda>_ _. Err (LoadFailed ''none'')),
      gs_by_id = (\<lambda>_. Err (NotAvailable ''none'')), gs_set_default_all = (\<lambda>_. Ok ()),
      gs_digest_available = (\<lambda>_. False)\<rparr>"

definition demo_verifier :: openssl_verifier where
  "demo_verifier =
     \<lparr>ov_anchors = [demo_root], ov_intermediates = [], ov_crl_store = [], ov_crl_strict = True,
      ov_pre_cfg = \<lparr>pv_clock_skew = 60, pv_signature_alg_whitelist = [''sha256WithRSAEncryption'']\<rparr>,
      ov_pins = [[1]], ov_max_depth = 1, ov_gost_engine_path = None\<rparr>"

lemma demo_verify:
  "verify_at demo_x509_crypto demo_gost demo_verifier demo_leaf [] 86400 None =
     (Ok \<lparr>vch_end_entity = demo_leaf, vch_chain = [], vch_anchor = demo_root\<rparr>, None)"
  by code_simp

lemma verify_at_trusted_witness:
  "trusted_chain demo_x509_crypto demo_verifier [] 86400 [demo_leaf, demo_root]"
  using verify_at_trusted [OF demo_verify] by (simp add: full_chain_def)

text \<open>
  The depth limit is off by one: an anchor is appended without a depth check, so with a limit
  of one certificate a leaf directly below a self-signed anchor still gives a chain of two,
  although the limit is documented as including the leaf and the anchor.
\<close>

theorem depth_limit_excludes_anchor:
  assumes "find_issuer leaf anchors = Some anchor" and "is_self_signed anchor"
  shows "\<exists>chain. build_chain leaf presented pool anchors 1 = Ok chain \<and> length chain = 2"
  using assms by (simp add: build_chain_def build_chain_loop.simps)

lemma depth_limit_excludes_anchor_witness:
  "\<exists>chain. build_chain demo_leaf [] [] [demo_root] 1 = Ok chain \<and> length chain = 2"
proof (rule depth_limit_excludes_anchor)
  show "find_issuer demo_leaf [demo_root] = Some demo_root" by code_simp
  show "is_self_signed demo_root" by code_simp
qed

text \<open>
  The engine is loaded at most once per process and only when needed: without a GOST
  certificate among the inputs \<open>verify_at\<close> leaves the lock untouched, and once the lock holds a
  result every later run keeps it and reports it again.
\<close>

theorem engine_loaded_once:
  "(\<not> list_ex (\<lambda>c. is_gost (certificate_signature_alg c)) (leaf # presented @ ov_intermediates v @ ov_anchors v) \<longrightarrow>
      snd (verify_at C G v leaf presented now lock) = lock) \<and>
   (\<forall>r. lock = Some r \<longrightarrow> snd (verify_at C G v leaf presented now lock) = Some r)"
  by (auto simp: verify_at_def ensure_loaded_if_any_gost_def ensure_loaded_with_path_def Let_def)

lemma engine_loaded_once_witness:
  "snd (verify_at demo_x509_crypto demo_gost demo_verifier demo_leaf [] 86400 (Some (Ok 5))) = Some (Ok 5)"
  using engine_loaded_once by blast

text \<open>
  The algorithm names that the configuration documents for GOST certificates are not the ones
  the classifier knows: a certificate whose algorithm is displayed under a documented name is
  classified as another algorithm, and the engine it needs is not loaded for it.
\<close>

theorem documented_gost_names_unclassified:
  assumes "signature_algorithm c \<in> {''id-tc26-signwithdigest-gost3410-12-256'',
                                    ''id-tc26-signwithdigest-gost3410-12-512''}"
  shows "ensure_loaded_if_any_gost G [c] path lock = (Ok (), lock)"
  using assms
  by (auto simp: ensure_loaded_if_any_gost_def certificate_signature_alg_def from_oid_string_def)

lemma documented_gost_names_unclassified_witness:
  "ensure_loaded_if_any_gost demo_gost
     [demo_leaf\<lparr>cert_inner := (cert_inner demo_leaf)
        \<lparr>xf_signature_algorithm := ''id-tc26-signwithdigest-gost3410-12-256''\<rparr>\<rparr>] None None = (Ok (), None)"
  by (rule documented_gost_names_unclassified) (simp add: signature_algorithm_def)

end
