(* ===== verification/Proto.thy ===== *)
theory Proto
  imports Rust_Prelude
begin

text \<open>
  The protocol between the PAM module and the monitor daemon (crate \<open>pam_certauth_proto\<close>): where
  a session lives, the messages of both sides, the numeric error codes, and newline-delimited
  framing (\<open>wire.rs\<close>, \<open>framing.rs\<close>). JSON itself is \<open>serde_json\<close>, a parameter: a \<open>codec\<close> turns a message into bytes
  and back. A UUID is its 128-bit value.
\<close>

section \<open>Messages\<close>

type_synonym uuid = "128 word"

datatype session_target =
    Tty string
  | Display string
  | LogindSession string
  | UnknownTarget

fun logind_id :: "session_target \<Rightarrow> string option" where
  "logind_id (LogindSession i) = Some i"
| "logind_id _ = None"

record session_open_payload =
  sp_session_id :: uuid
  sp_pam_user :: string
  sp_pam_service :: string
  sp_target :: session_target
  sp_usb_serial :: "string option"
  sp_host_id_hash :: string
  sp_opened_at :: int
  sp_cert_cn :: string
  sp_cert_serial :: string
  sp_engineer_ski :: string
  sp_engineer_cert_sha256 :: string
  sp_uid :: u32

datatype client_message =
    Hello u32 "string option"
  | SessionOpen session_open_payload
  | GetActiveSessionByUid u32
  | SessionClose uuid int
  | UpdateSessionTarget uuid session_target
  | Ping

record active_session_info =
  ai_session_id :: string
  ai_cert_cn :: string
  ai_engineer_ski :: string
  ai_engineer_cert_sha256 :: string
  ai_host_id_hash :: string

datatype server_message =
    HelloAck string u32
  | Ack
  | SessionTargetUpdated string
  | Pong
  | ActiveSession active_session_info
  | ServerError u32 string

definition PROTOCOL_VERSION :: u32 where "PROTOCOL_VERSION = 2"

section \<open>Error codes\<close>

definition PROTOCOL_MISMATCH :: u32 where "PROTOCOL_MISMATCH = 1000"
definition DEVICE_GONE :: u32 where "DEVICE_GONE = 1001"
definition UNAUTHORIZED :: u32 where "UNAUTHORIZED = 1003"
definition BAD_REQUEST :: u32 where "BAD_REQUEST = 1100"
definition PROTOCOL_VIOLATION :: u32 where "PROTOCOL_VIOLATION = 1101"
definition INTERNAL :: u32 where "INTERNAL = 1500"
definition NO_ACTIVE_SESSION :: u32 where "NO_ACTIVE_SESSION = 1200"

lemmas code_defs = PROTOCOL_MISMATCH_def DEVICE_GONE_def UNAUTHORIZED_def BAD_REQUEST_def
  PROTOCOL_VIOLATION_def INTERNAL_def NO_ACTIVE_SESSION_def

datatype server_error_code =
    CodeProtocolMismatch | CodeBadRequest | CodeInternal | CodeDeviceGone | CodeUnauthorized

definition from_numeric :: "u32 \<Rightarrow> server_error_code" where
  "from_numeric code =
     (if code = PROTOCOL_MISMATCH then CodeProtocolMismatch
      else if code = DEVICE_GONE then CodeDeviceGone
      else if code = UNAUTHORIZED then CodeUnauthorized
      else if code = BAD_REQUEST then CodeBadRequest
      else CodeInternal)"

fun to_numeric :: "server_error_code \<Rightarrow> u32" where
  "to_numeric CodeProtocolMismatch = PROTOCOL_MISMATCH"
| "to_numeric CodeDeviceGone = DEVICE_GONE"
| "to_numeric CodeUnauthorized = UNAUTHORIZED"
| "to_numeric CodeBadRequest = BAD_REQUEST"
| "to_numeric CodeInternal = INTERNAL"

section \<open>Framing\<close>

record 'm codec =
  js_to_vec :: "'m \<Rightarrow> (string, bytes) result"
  js_from_slice :: "bytes \<Rightarrow> (string, 'm) result"

definition MAX_FRAME_BYTES :: nat where "MAX_FRAME_BYTES = 64 * 1024"

datatype wire_error = FrameTooLarge nat | WireEncode string | WireDecode string | EmbeddedNewline

fun wire_error_to_string :: "wire_error \<Rightarrow> string" where
  "wire_error_to_string (FrameTooLarge n) = ''frame too large: '' @ to_decimal n @ '' bytes''"
| "wire_error_to_string (WireEncode e) = ''encode failed: '' @ e"
| "wire_error_to_string (WireDecode e) = ''decode failed: '' @ e"
| "wire_error_to_string EmbeddedNewline = ''embedded newline''"

definition LF :: u8 where "LF = 10"
definition CR :: u8 where "CR = 13"

definition encode_message :: "'m codec \<Rightarrow> 'm \<Rightarrow> (wire_error, bytes) result" where
  "encode_message J msg =
     and_then (map_err WireEncode (js_to_vec J msg)) (\<lambda>bytes.
       if LF \<in> set bytes then Err EmbeddedNewline
       else if length bytes > MAX_FRAME_BYTES then Err (FrameTooLarge (length bytes))
       else Ok (bytes @ [LF]))"

definition trim_line_end :: "bytes \<Rightarrow> bytes" where
  "trim_line_end bytes = rev (dropWhile (\<lambda>b. b = LF \<or> b = CR) (rev bytes))"

definition decode_bytes :: "'m codec \<Rightarrow> bytes \<Rightarrow> (wire_error, 'm) result" where
  "decode_bytes J bytes =
     (if length bytes > MAX_FRAME_BYTES then Err (FrameTooLarge (length bytes))
      else map_err WireDecode (js_from_slice J (trim_line_end bytes)))"

definition decode_line :: "'m codec \<Rightarrow> string \<Rightarrow> (wire_error, 'm) result" where
  "decode_line J line =
     (if length line > MAX_FRAME_BYTES then Err (FrameTooLarge (length line))
      else map_err WireDecode (js_from_slice J (trim_line_end (as_bytes line))))"

text \<open>\<open>framing.rs\<close>: the same format without the size limit.\<close>

definition framing_encode :: "'m codec \<Rightarrow> 'm \<Rightarrow> (wire_error, bytes) result" where
  "framing_encode J m =
     and_then (map_err WireEncode (js_to_vec J m)) (\<lambda>bytes.
       if LF \<in> set bytes then Err EmbeddedNewline else Ok (bytes @ [LF]))"

definition framing_decode :: "'m codec \<Rightarrow> bytes \<Rightarrow> (wire_error, 'm) result" where
  "framing_decode J line = map_err WireDecode (js_from_slice J line)"

section \<open>Facts about framing\<close>

text \<open>What \<open>serde_json\<close> documents: compact output is UTF-8 with no raw newline or carriage return,
  and parsing it gives the value back.\<close>

definition json_codec :: "'m codec \<Rightarrow> bool" where
  "json_codec J \<longleftrightarrow>
     (\<forall>m b. js_to_vec J m = Ok b \<longrightarrow>
        b \<noteq> [] \<and> utf8_valid b \<and> LF \<notin> set b \<and> CR \<notin> set b \<and> js_from_slice J b = Ok m)"

lemma trim_line_end_body:
  "LF \<notin> set b \<Longrightarrow> CR \<notin> set b \<Longrightarrow> trim_line_end (b @ [LF]) = b"
proof -
  assume "LF \<notin> set b" "CR \<notin> set b"
  then have "dropWhile (\<lambda>x. x = LF \<or> x = CR) (rev b) = rev b"
    by (cases "rev b") (auto simp: rev_eq_Cons_iff)
  then show ?thesis by (simp add: trim_line_end_def)
qed

lemma trim_line_end_id: "LF \<notin> set b \<Longrightarrow> CR \<notin> set b \<Longrightarrow> trim_line_end b = b"
  by (cases "rev b") (auto simp: trim_line_end_def rev_eq_Cons_iff)

lemma encode_message_Ok:
  assumes "json_codec J" and "encode_message J m = Ok out"
  obtains b where "js_to_vec J m = Ok b" "out = b @ [LF]" "length b \<le> MAX_FRAME_BYTES"
    "b \<noteq> []" "utf8_valid b" "LF \<notin> set b" "CR \<notin> set b" "js_from_slice J b = Ok m"
  using assms by (auto simp: encode_message_def result_simps json_codec_def split: if_splits)

lemma from_to_numeric: "from_numeric (to_numeric c) = c"
  by (cases c) (simp_all add: from_numeric_def code_defs)

section \<open>Properties\<close>

text \<open>
  A frame that was encoded decodes to the message it came from, with its newline still on it,
  as long as the frame including the newline is within the limit; a body of exactly the maximal
  size is encoded but the frame it gives is rejected, because the limit of the decoder counts the
  newline that the limit of the encoder excludes.
\<close>

theorem frame_roundtrip:
  assumes "json_codec J" and "encode_message J m = Ok out"
  shows "decode_bytes J out =
           (if length out \<le> MAX_FRAME_BYTES then Ok m else Err (FrameTooLarge (MAX_FRAME_BYTES + 1)))"
proof -
  obtain b where b: "out = b @ [LF]" "length b \<le> MAX_FRAME_BYTES" "LF \<notin> set b" "CR \<notin> set b"
    "js_from_slice J b = Ok m"
    using assms by (rule encode_message_Ok)
  have "trim_line_end out = b" unfolding b(1) using b(3,4) by (rule trim_line_end_body)
  moreover have "length out = Suc (length b)" by (simp add: b(1))
  ultimately show ?thesis using b(2,5) by (auto simp: decode_bytes_def)
qed

definition demo_codec :: "bool codec" where
  "demo_codec =
     \<lparr>js_to_vec = (\<lambda>m. Ok (if m then [116] else [102])),
      js_from_slice = (\<lambda>b. if b = [116] then Ok True else if b = [102] then Ok False else Err ''json'')\<rparr>"

lemma frame_roundtrip_witness: "decode_bytes demo_codec [116, 10] = Ok True"
proof -
  have "json_codec demo_codec" by (auto simp: json_codec_def demo_codec_def LF_def CR_def)
  moreover have "encode_message demo_codec True = Ok [116, 10]"
    by (simp add: encode_message_def demo_codec_def LF_def MAX_FRAME_BYTES_def)
  ultimately show ?thesis
    using frame_roundtrip [of demo_codec True "[116, 10]"] by (simp add: MAX_FRAME_BYTES_def)
qed

end
