(* ===== verification/Registry.thy ===== *)
theory Registry
  imports Proto "HOL-Library.AList"
begin

text \<open>
  The session registry of the monitor daemon (\<open>registry.rs\<close>): the primary store by session id and
  the reverse index by user id. The locale \<open>session_map\<close> is the contract its client, the state
  manager, relies on (a finite map from session ids to sessions with a listing); the registry
  interprets it. A \<open>HashMap\<close> is an association list with distinct keys; its order stands for the
  unspecified iteration order, so facts about listings are facts about sets.
\<close>

section \<open>The registry\<close>

record active_session =
  as_session_id :: uuid
  as_pam_user :: string
  as_pam_service :: string
  as_target :: session_target
  as_usb_serial :: "string option"
  as_host_id_hash :: string
  as_opened_at :: int
  as_cert_cn :: string
  as_cert_serial :: string
  as_engineer_ski :: string
  as_engineer_cert_sha256 :: string
  as_uid :: u32

datatype update_target_error = NotFound

record registry =
  rg_by_id :: "(uuid \<times> active_session) list"
  rg_by_uid :: "(u32 \<times> uuid) list"

definition registry_new :: registry where
  "registry_new = \<lparr>rg_by_id = [], rg_by_uid = []\<rparr>"

text \<open>\<open>add\<close>: a stale reverse entry of the same session under another user id is dropped first.\<close>

definition stale_uid :: "active_session \<Rightarrow> registry \<Rightarrow> u32 option" where
  "stale_uid s g =
     (case map_of (rg_by_id g) (as_session_id s) of
        None \<Rightarrow> None
      | Some existing \<Rightarrow>
          if as_uid existing \<noteq> 0 \<and> as_uid existing \<noteq> as_uid s \<and>
             map_of (rg_by_uid g) (as_uid existing) = Some (as_session_id s)
          then Some (as_uid existing) else None)"

definition registry_add :: "active_session \<Rightarrow> registry \<Rightarrow> registry" where
  "registry_add s g =
     (let by_uid = (case stale_uid s g of
                      Some uid \<Rightarrow> AList.delete uid (rg_by_uid g) | None \<Rightarrow> rg_by_uid g);
          by_uid' = (if as_uid s \<noteq> 0 then AList.update (as_uid s) (as_session_id s) by_uid else by_uid)
      in \<lparr>rg_by_id = AList.update (as_session_id s) s (rg_by_id g), rg_by_uid = by_uid'\<rparr>)"

definition snapshot_insert :: "active_session \<Rightarrow> registry \<Rightarrow> registry" where
  "snapshot_insert s g =
     \<lparr>rg_by_id = AList.update (as_session_id s) s (rg_by_id g),
      rg_by_uid = (if as_uid s \<noteq> 0 then AList.update (as_uid s) (as_session_id s) (rg_by_uid g)
                   else rg_by_uid g)\<rparr>"

definition registry_from_snapshot :: "active_session list \<Rightarrow> registry" where
  "registry_from_snapshot sessions = foldl (\<lambda>g s. snapshot_insert s g) registry_new sessions"

definition registry_remove :: "uuid \<Rightarrow> registry \<Rightarrow> active_session option \<times> registry" where
  "registry_remove i g =
     (case map_of (rg_by_id g) i of
        None \<Rightarrow> (None, g)
      | Some removed \<Rightarrow>
          (Some removed,
           \<lparr>rg_by_id = AList.delete i (rg_by_id g),
            rg_by_uid = (if as_uid removed \<noteq> 0 \<and> map_of (rg_by_uid g) (as_uid removed) = Some i
                         then AList.delete (as_uid removed) (rg_by_uid g) else rg_by_uid g)\<rparr>))"

definition find_by_session_id :: "registry \<Rightarrow> uuid \<Rightarrow> active_session option" where
  "find_by_session_id g i = map_of (rg_by_id g) i"

definition registry_update_target ::
  "uuid \<Rightarrow> session_target \<Rightarrow> registry \<Rightarrow> (update_target_error, unit) result \<times> registry" where
  "registry_update_target i t g =
     (case map_of (rg_by_id g) i of
        Some entry \<Rightarrow> (Ok (), g\<lparr>rg_by_id := AList.update i (entry\<lparr>as_target := t\<rparr>) (rg_by_id g)\<rparr>)
      | None \<Rightarrow> (Err NotFound, g))"

definition find_by_uid :: "registry \<Rightarrow> u32 \<Rightarrow> active_session option" where
  "find_by_uid g uid =
     (if uid = 0 then None
      else case map_of (rg_by_uid g) uid of
        None \<Rightarrow> None
      | Some session_id \<Rightarrow> map_of (rg_by_id g) session_id)"

definition registry_snapshot :: "registry \<Rightarrow> active_session list" where
  "registry_snapshot g = map snd (rg_by_id g)"

definition find_by_serial :: "registry \<Rightarrow> string \<Rightarrow> active_session list" where
  "find_by_serial g serial = filter (\<lambda>s. as_usb_serial s = Some serial) (map snd (rg_by_id g))"

definition registry_len :: "registry \<Rightarrow> nat" where
  "registry_len g = length (rg_by_id g)"

section \<open>The contract\<close>

text \<open>A client opens, closes and retargets sessions, looks one up, and lists them all.\<close>

locale session_map =
  fixes empty :: 'r
    and insert_session :: "active_session \<Rightarrow> 'r \<Rightarrow> 'r"
    and delete_session :: "uuid \<Rightarrow> 'r \<Rightarrow> 'r"
    and retarget :: "uuid \<Rightarrow> session_target \<Rightarrow> 'r \<Rightarrow> 'r"
    and lookup :: "'r \<Rightarrow> uuid \<Rightarrow> active_session option"
    and listing :: "'r \<Rightarrow> active_session list"
    and invar :: "'r \<Rightarrow> bool"
  assumes invar_empty: "invar empty"
    and invar_insert: "invar r \<Longrightarrow> invar (insert_session s r)"
    and invar_delete: "invar r \<Longrightarrow> invar (delete_session i r)"
    and invar_retarget: "invar r \<Longrightarrow> invar (retarget i t r)"
    and lookup_empty: "lookup empty i = None"
    and lookup_insert: "lookup (insert_session s r) i = (if i = as_session_id s then Some s else lookup r i)"
    and lookup_delete: "invar r \<Longrightarrow> lookup (delete_session j r) i = (if i = j then None else lookup r i)"
    and lookup_retarget: "lookup (retarget j t r) i =
          (if i = j then map_option (\<lambda>s. s\<lparr>as_target := t\<rparr>) (lookup r j) else lookup r i)"
    and listing_ran: "invar r \<Longrightarrow> set (listing r) = ran (lookup r)"
    and lookup_id: "invar r \<Longrightarrow> lookup r i = Some s \<Longrightarrow> as_session_id s = i"
begin

lemma invar_delete_all: "invar r \<Longrightarrow> invar (fold delete_session ids r)"
  by (induction ids arbitrary: r) (simp_all add: invar_delete)

text \<open>Closing a list of sessions removes exactly these.\<close>

lemma lookup_delete_all:
  "invar r \<Longrightarrow> lookup (fold delete_session ids r) i = (if i \<in> set ids then None else lookup r i)"
  by (induction ids arbitrary: r) (simp_all add: lookup_delete invar_delete)

lemma in_listing: "invar r \<Longrightarrow> s \<in> set (listing r) \<longleftrightarrow> lookup r (as_session_id s) = Some s"
  by (auto simp: listing_ran ran_def dest: lookup_id)

text \<open>Dropping every session that meets a condition leaves those that do not.\<close>

lemma lookup_delete_where:
  assumes "invar r"
  shows "lookup (fold delete_session (map as_session_id (filter P (listing r))) r) i =
           (case lookup r i of Some s \<Rightarrow> if P s then None else Some s | None \<Rightarrow> None)"
proof -
  have "i \<in> set (map as_session_id (filter P (listing r))) \<longleftrightarrow> (\<exists>s. lookup r i = Some s \<and> P s)"
    using assms by (auto simp: in_listing dest: lookup_id intro!: image_eqI)
  with assms show ?thesis by (auto simp: lookup_delete_all split: option.splits)
qed

end

section \<open>The registry meets the contract\<close>

definition ids_ok :: "(uuid \<rightharpoonup> active_session) \<Rightarrow> bool" where
  "ids_ok m \<longleftrightarrow> (\<forall>i s. m i = Some s \<longrightarrow> as_session_id s = i)"

text \<open>Every entry of the reverse index leads to a session of that user.\<close>

definition index_ok :: "(uuid \<rightharpoonup> active_session) \<Rightarrow> (u32 \<rightharpoonup> uuid) \<Rightarrow> bool" where
  "index_ok m n \<longleftrightarrow>
     (\<forall>u i. n u = Some i \<longrightarrow> u \<noteq> 0 \<and> (\<exists>s. m i = Some s \<and> as_uid s = u))"

definition reg_ok :: "registry \<Rightarrow> bool" where
  "reg_ok g \<longleftrightarrow>
     distinct (map fst (rg_by_id g)) \<and> distinct (map fst (rg_by_uid g)) \<and>
     ids_ok (map_of (rg_by_id g)) \<and> index_ok (map_of (rg_by_id g)) (map_of (rg_by_uid g))"

lemmas alist_simps = AList.update_conv' AList.delete_conv' AList.distinct_update AList.distinct_delete

lemma reg_ok_new: "reg_ok registry_new"
  by (simp add: reg_ok_def registry_new_def ids_ok_def index_ok_def)

lemma index_ok_insert:
  assumes "index_ok m n"
    and "\<forall>old u. m (as_session_id s) = Some old \<longrightarrow> n u = Some (as_session_id s) \<longrightarrow> u = as_uid s"
  shows "index_ok (m(as_session_id s \<mapsto> s)) n"
    and "as_uid s \<noteq> 0 \<Longrightarrow> index_ok (m(as_session_id s \<mapsto> s)) (n(as_uid s \<mapsto> as_session_id s))"
  using assms by (fastforce simp: index_ok_def)+

lemma index_ok_drop: "index_ok m n \<Longrightarrow> index_ok m (n(u := None))"
  by (simp add: index_ok_def)

lemma index_ok_stale:
  assumes "index_ok m n" and "m i = Some old" and "n u = Some i" and "u \<noteq> v"
  shows "as_uid old = u \<and> as_uid old \<noteq> 0 \<and> as_uid old \<noteq> v"
  using assms by (fastforce simp: index_ok_def)

lemma index_ok_stale_dropped:
  fixes s :: active_session and g :: registry
  assumes "index_ok (map_of (rg_by_id g)) (map_of (rg_by_uid g))"
  defines "n \<equiv> (case stale_uid s g of
       Some uid \<Rightarrow> (map_of (rg_by_uid g))(uid := None) | None \<Rightarrow> map_of (rg_by_uid g))"
  shows "index_ok (map_of (rg_by_id g)) n"
    and "map_of (rg_by_id g) (as_session_id s) = Some old \<Longrightarrow> n u = Some (as_session_id s) \<Longrightarrow> u = as_uid s"
proof -
  show "index_ok (map_of (rg_by_id g)) n"
    using assms by (auto simp: n_def index_ok_drop split: option.splits)
  show "u = as_uid s" if h: "map_of (rg_by_id g) (as_session_id s) = Some old" "n u = Some (as_session_id s)"
  proof (rule ccontr)
    assume ne: "u \<noteq> as_uid s"
    have nu: "map_of (rg_by_uid g) u = Some (as_session_id s)"
      using h(2) by (auto simp: n_def split: option.splits if_splits)
    from index_ok_stale [OF assms(1) h(1) nu ne] have "stale_uid s g = Some u"
      using h(1) nu by (auto simp: stale_uid_def)
    with h(2) show False by (simp add: n_def)
  qed
qed

lemma reg_ok_add: "reg_ok g \<Longrightarrow> reg_ok (registry_add s g)"
proof -
  assume g: "reg_ok g"
  let ?m = "map_of (rg_by_id g)"
  let ?n = "case stale_uid s g of
       Some uid \<Rightarrow> (map_of (rg_by_uid g))(uid := None) | None \<Rightarrow> map_of (rg_by_uid g)"
  let ?l = "case stale_uid s g of
       Some uid \<Rightarrow> AList.delete uid (rg_by_uid g) | None \<Rightarrow> rg_by_uid g"
  have l: "map_of ?l = ?n" by (simp add: alist_simps split: option.splits)
  have i: "index_ok ?m (map_of (rg_by_uid g))" using g by (simp add: reg_ok_def)
  have "index_ok (?m(as_session_id s \<mapsto> s)) ?n"
    "as_uid s \<noteq> 0 \<Longrightarrow> index_ok (?m(as_session_id s \<mapsto> s)) (?n(as_uid s \<mapsto> as_session_id s))"
    using index_ok_insert [OF index_ok_stale_dropped(1) [OF i, of s]] index_ok_stale_dropped(2) [OF i, of s]
    by blast+
  then have "index_ok (map_of (rg_by_id (registry_add s g))) (map_of (rg_by_uid (registry_add s g)))"
    by (simp add: registry_add_def Let_def alist_simps l)
  moreover have "distinct (map fst (rg_by_uid (registry_add s g)))"
    using g by (auto simp: reg_ok_def registry_add_def Let_def alist_simps split: option.splits)
  ultimately show ?thesis
    using g by (simp add: reg_ok_def registry_add_def Let_def alist_simps ids_ok_def)
qed

lemma index_ok_remove:
  assumes "index_ok m n" and "m i = Some r"
  shows "index_ok (m(i := None))
           (if as_uid r \<noteq> 0 \<and> n (as_uid r) = Some i then n(as_uid r := None) else n)"
  using assms by (fastforce simp: index_ok_def)

lemma reg_ok_remove:
  assumes "reg_ok g"
  shows "reg_ok (snd (registry_remove i g))"
proof (cases "map_of (rg_by_id g) i")
  case (Some r)
  let ?n = "if as_uid r \<noteq> 0 \<and> map_of (rg_by_uid g) (as_uid r) = Some i
            then AList.delete (as_uid r) (rg_by_uid g) else rg_by_uid g"
  have "index_ok ((map_of (rg_by_id g))(i := None)) (map_of ?n)"
    using index_ok_remove [of "map_of (rg_by_id g)" "map_of (rg_by_uid g)" i r] assms Some
    by (auto simp: reg_ok_def alist_simps split: if_splits)
  moreover have "distinct (map fst ?n)" using assms by (simp add: reg_ok_def alist_simps)
  ultimately show ?thesis
    using assms Some by (simp add: reg_ok_def registry_remove_def alist_simps ids_ok_def)
qed (use assms in \<open>simp add: registry_remove_def\<close>)

lemma reg_ok_update_target:
  assumes "reg_ok g"
  shows "reg_ok (snd (registry_update_target i t g))"
proof (cases "map_of (rg_by_id g) i")
  case (Some s)
  have "index_ok ((map_of (rg_by_id g))(i \<mapsto> s\<lparr>as_target := t\<rparr>)) (map_of (rg_by_uid g))"
    using assms Some by (fastforce simp: reg_ok_def index_ok_def)
  with assms Some show ?thesis
    by (simp add: registry_update_target_def reg_ok_def alist_simps ids_ok_def)
qed (use assms in \<open>simp add: registry_update_target_def\<close>)

lemma find_add: "find_by_session_id (registry_add s g) i =
    (if i = as_session_id s then Some s else find_by_session_id g i)"
  by (simp add: find_by_session_id_def registry_add_def Let_def alist_simps)

lemma find_remove: "find_by_session_id (snd (registry_remove j g)) i =
    (if i = j then None else find_by_session_id g i)"
  by (simp add: find_by_session_id_def registry_remove_def alist_simps split: option.splits)

lemma find_update_target: "find_by_session_id (snd (registry_update_target j t g)) i =
    (if i = j then map_option (\<lambda>s. s\<lparr>as_target := t\<rparr>) (find_by_session_id g j) else find_by_session_id g i)"
  by (simp add: find_by_session_id_def registry_update_target_def alist_simps split: option.splits)

lemma snapshot_ran: "reg_ok g \<Longrightarrow> set (registry_snapshot g) = ran (find_by_session_id g)"
  unfolding registry_snapshot_def find_by_session_id_def reg_ok_def by (simp add: ran_distinct)

interpretation reg: session_map registry_new registry_add "\<lambda>i g. snd (registry_remove i g)"
  "\<lambda>i t g. snd (registry_update_target i t g)" find_by_session_id registry_snapshot reg_ok
proof unfold_locales
  show "find_by_session_id registry_new i = None" for i
    by (simp add: find_by_session_id_def registry_new_def)
  show "as_session_id s = i" if "reg_ok r" "find_by_session_id r i = Some s" for r i s
    using that by (simp add: reg_ok_def ids_ok_def find_by_session_id_def)
qed (simp_all only: reg_ok_new reg_ok_add reg_ok_remove reg_ok_update_target find_add find_remove
       find_update_target snapshot_ran)

section \<open>Lookups by serial and by user\<close>

lemma in_find_by_serial:
  "reg_ok g \<Longrightarrow> s \<in> set (find_by_serial g ser) \<longleftrightarrow>
     find_by_session_id g (as_session_id s) = Some s \<and> as_usb_serial s = Some ser"
  using reg.in_listing [of g s] by (auto simp: find_by_serial_def registry_snapshot_def)

lemma find_by_uid_sound:
  assumes "reg_ok g" and "find_by_uid g u = Some s"
  shows "as_uid s = u \<and> u \<noteq> 0 \<and> find_by_session_id g (as_session_id s) = Some s"
proof -
  from assms(2) obtain i where "u \<noteq> 0" "map_of (rg_by_uid g) u = Some i" and i: "map_of (rg_by_id g) i = Some s"
    by (auto simp: find_by_uid_def split: if_splits option.splits)
  moreover have "as_session_id s = i"
    using assms(1) i by (simp only: reg_ok_def ids_ok_def)
  moreover have "index_ok (map_of (rg_by_id g)) (map_of (rg_by_uid g))"
    using assms(1) by (simp only: reg_ok_def)
  ultimately show ?thesis
    unfolding index_ok_def find_by_session_id_def by (metis option.inject)
qed

lemma find_by_uid_add:
  "as_uid s \<noteq> 0 \<Longrightarrow> find_by_uid (registry_add s g) (as_uid s) = Some s"
  by (simp add: find_by_uid_def registry_add_def Let_def alist_simps)

section \<open>Operations in sequence\<close>

datatype reg_op = OpAdd active_session | OpRemove uuid | OpTarget uuid session_target

fun reg_apply :: "reg_op \<Rightarrow> registry \<Rightarrow> registry" where
  "reg_apply (OpAdd s) g = registry_add s g"
| "reg_apply (OpRemove i) g = snd (registry_remove i g)"
| "reg_apply (OpTarget i t) g = snd (registry_update_target i t g)"

text \<open>The abstract map of sessions.\<close>

fun abs_apply :: "reg_op \<Rightarrow> (uuid \<rightharpoonup> active_session) \<Rightarrow> (uuid \<rightharpoonup> active_session)" where
  "abs_apply (OpAdd s) m = m(as_session_id s \<mapsto> s)"
| "abs_apply (OpRemove i) m = m(i := None)"
| "abs_apply (OpTarget i t) m = m(i := map_option (\<lambda>s. s\<lparr>as_target := t\<rparr>) (m i))"

lemma reg_apply_refines:
  "reg_ok g \<Longrightarrow> reg_ok (reg_apply x g) \<and> find_by_session_id (reg_apply x g) = abs_apply x (find_by_session_id g)"
  by (cases x)
    (auto simp: reg.invar_insert reg.invar_delete reg.invar_retarget reg.lookup_insert reg.lookup_delete
      reg.lookup_retarget fun_eq_iff)

lemma reg_fold_refines:
  "reg_ok g \<Longrightarrow> reg_ok (fold reg_apply ops g) \<and>
   find_by_session_id (fold reg_apply ops g) = fold abs_apply ops (find_by_session_id g)"
  by (induction ops arbitrary: g) (simp_all add: reg_apply_refines)

lemma find_new: "find_by_session_id registry_new = Map.empty"
  by (rule ext) (simp add: reg.lookup_empty)

section \<open>Restart\<close>

lemma snapshot_insert_add:
  "find_by_session_id g (as_session_id s) = None \<Longrightarrow> snapshot_insert s g = registry_add s g"
  by (simp add: snapshot_insert_def registry_add_def stale_uid_def find_by_session_id_def)

lemma find_by_uid_some:
  assumes "reg_ok g"
  shows "find_by_uid g u \<noteq> None \<longleftrightarrow> u \<in> dom (map_of (rg_by_uid g))"
proof (cases "map_of (rg_by_uid g) u")
  case (Some i)
  have "index_ok (map_of (rg_by_id g)) (map_of (rg_by_uid g))" using assms by (simp only: reg_ok_def)
  with Some obtain s where "u \<noteq> 0" "map_of (rg_by_id g) i = Some s" unfolding index_ok_def by metis
  with Some show ?thesis by (simp add: find_by_uid_def domIff)
qed (simp add: find_by_uid_def domIff)

lemma uid_dom_add:
  assumes "find_by_session_id g (as_session_id s) = None"
  shows "dom (map_of (rg_by_uid (registry_add s g))) =
           dom (map_of (rg_by_uid g)) \<union> (if as_uid s = 0 then {} else {as_uid s})"
  using assms
  by (auto simp: registry_add_def stale_uid_def find_by_session_id_def Let_def alist_simps)

lemma from_snapshot_facts:
  assumes "distinct (map as_session_id ss)"
  shows "reg_ok (registry_from_snapshot ss) \<and>
         (\<forall>i s. find_by_session_id (registry_from_snapshot ss) i = Some s \<longleftrightarrow> s \<in> set ss \<and> as_session_id s = i) \<and>
         dom (map_of (rg_by_uid (registry_from_snapshot ss))) = {as_uid s |s. s \<in> set ss \<and> as_uid s \<noteq> 0}"
  using assms
proof (induction ss rule: rev_induct)
  case Nil
  then show ?case by (simp add: registry_from_snapshot_def reg_ok_new find_new, simp add: registry_new_def)
next
  case (snoc s ss)
  let ?g = "registry_from_snapshot ss"
  have ih: "reg_ok ?g" "\<And>i x. find_by_session_id ?g i = Some x \<longleftrightarrow> x \<in> set ss \<and> as_session_id x = i"
    "dom (map_of (rg_by_uid ?g)) = {as_uid s |s. s \<in> set ss \<and> as_uid s \<noteq> 0}"
    using snoc by auto
  have new: "find_by_session_id ?g (as_session_id s) = None"
    using ih(2) [of "as_session_id s"] snoc.prems
    by (cases "find_by_session_id ?g (as_session_id s)") (auto simp: image_iff, metis)
  have e: "registry_from_snapshot (ss @ [s]) = registry_add s ?g"
    by (simp add: registry_from_snapshot_def snapshot_insert_add [OF new, unfolded registry_from_snapshot_def])
  have fresh: "x \<in> set ss \<Longrightarrow> as_session_id x \<noteq> as_session_id s" for x
    using snoc.prems by (auto simp: image_iff)
  show ?case
    unfolding e
  proof (intro conjI allI)
    show "reg_ok (registry_add s ?g)" using ih(1) by (rule reg.invar_insert)
    show "find_by_session_id (registry_add s ?g) i = Some x \<longleftrightarrow> x \<in> set (ss @ [s]) \<and> as_session_id x = i" for i x
      using fresh [of x] by (simp add: reg.lookup_insert ih(2)) metis
    show "dom (map_of (rg_by_uid (registry_add s ?g))) = {as_uid x |x. x \<in> set (ss @ [s]) \<and> as_uid x \<noteq> 0}"
      unfolding uid_dom_add [OF new] ih(3) by auto
  qed
qed

lemma snapshot_distinct: "reg_ok g \<Longrightarrow> distinct (map as_session_id (registry_snapshot g))"
proof -
  assume g: "reg_ok g"
  have "map as_session_id (registry_snapshot g) = map fst (rg_by_id g)"
    using g by (auto simp: registry_snapshot_def reg_ok_def ids_ok_def)
  with g show ?thesis by (simp add: reg_ok_def)
qed

section \<open>Properties\<close>

text \<open>
  C12. The registry implements the abstract map of sessions: after any sequence of openings,
  closings and target updates, its invariant holds, a lookup by id gives what the map gives, the
  snapshot lists exactly the sessions of the map, and a lookup by serial exactly those with that
  serial.
\<close>

theorem registry_refines_map:
  "reg_ok (fold reg_apply ops registry_new) \<and>
   find_by_session_id (fold reg_apply ops registry_new) = fold abs_apply ops Map.empty \<and>
   set (registry_snapshot (fold reg_apply ops registry_new)) = ran (fold abs_apply ops Map.empty) \<and>
   set (find_by_serial (fold reg_apply ops registry_new) ser) =
     {s \<in> ran (fold abs_apply ops Map.empty). as_usb_serial s = Some ser}"
proof -
  let ?g = "fold reg_apply ops registry_new"
  have g: "reg_ok ?g" "find_by_session_id ?g = fold abs_apply ops Map.empty"
    using reg_fold_refines [OF reg.invar_empty, of ops] by (simp_all add: find_new)
  moreover have "set (registry_snapshot ?g) = ran (fold abs_apply ops Map.empty)"
    using reg.listing_ran [OF g(1)] g(2) by simp
  moreover from this have "set (find_by_serial ?g ser) =
     {s \<in> ran (fold abs_apply ops Map.empty). as_usb_serial s = Some ser}"
    by (auto simp: find_by_serial_def registry_snapshot_def)
  ultimately show ?thesis by blast
qed

text \<open>
  A lookup by user never answers with the wrong session: after any sequence of operations the
  session it finds is live and belongs to that user, the sentinel user 0 is never found, and the
  session opened last for a user is the one that is found.
\<close>

theorem registry_uid_lookup:
  "(\<forall>s. find_by_uid (fold reg_apply ops registry_new) u = Some s \<longrightarrow>
      u \<noteq> 0 \<and> as_uid s = u \<and> fold abs_apply ops Map.empty (as_session_id s) = Some s) \<and>
   (as_uid x \<noteq> 0 \<longrightarrow> find_by_uid (fold reg_apply (ops @ [OpAdd x]) registry_new) (as_uid x) = Some x)"
  using find_by_uid_sound [of "fold reg_apply ops registry_new" u]
    reg_fold_refines [OF reg.invar_empty, of ops] find_by_uid_add [of x]
  by (auto simp: find_new)

definition demo_session1 :: active_session where
  "demo_session1 =
     \<lparr>as_session_id = 1, as_pam_user = ''alice'', as_pam_service = ''login'', as_target = UnknownTarget,
      as_usb_serial = Some ''USB1'', as_host_id_hash = ''00'', as_opened_at = 0, as_cert_cn = ''Alice'',
      as_cert_serial = ''0A'', as_engineer_ski = ''01'', as_engineer_cert_sha256 = ''02'', as_uid = 1000\<rparr>"

lemma registry_uid_lookup_witness:
  "find_by_uid (fold reg_apply [OpAdd demo_session1] registry_new) 1000 = Some demo_session1"
  using registry_uid_lookup [of "[]" 0 demo_session1] by (simp add: demo_session1_def)

text \<open>
  Closing one of two sessions of a user can hide the other: the reverse index keeps only the
  session opened last, so once that one is closed the lookup by user reports no session although
  the first is still open.
\<close>

theorem registry_uid_lost:
  assumes "as_uid s1 = u" and "as_uid s2 = u" and "u \<noteq> 0" and "as_session_id s1 \<noteq> as_session_id s2"
  shows "find_by_uid (fold reg_apply [OpAdd s1, OpAdd s2, OpRemove (as_session_id s2)] registry_new) u = None \<and>
         find_by_session_id (fold reg_apply [OpAdd s1, OpAdd s2, OpRemove (as_session_id s2)] registry_new)
           (as_session_id s1) = Some s1"
  using assms
  by (simp add: registry_add_def registry_remove_def find_by_uid_def find_by_session_id_def
      stale_uid_def registry_new_def Let_def alist_simps)

lemma registry_uid_lost_witness:
  "find_by_uid (fold reg_apply
     [OpAdd demo_session1, OpAdd (demo_session1\<lparr>as_session_id := 2\<rparr>), OpRemove 2] registry_new) 1000 = None"
  using registry_uid_lost [of demo_session1 1000 "demo_session1\<lparr>as_session_id := 2\<rparr>"]
  by (simp add: demo_session1_def)

text \<open>
  A restart keeps the sessions: a registry rebuilt from the snapshot of a registry satisfies
  the invariant, finds the same sessions by id, and finds a session by user exactly for the users
  that have one.
\<close>

theorem registry_restart:
  assumes "reg_ok g"
  shows "reg_ok (registry_from_snapshot (registry_snapshot g)) \<and>
         find_by_session_id (registry_from_snapshot (registry_snapshot g)) = find_by_session_id g \<and>
         (find_by_uid (registry_from_snapshot (registry_snapshot g)) u \<noteq> None \<longleftrightarrow>
            u \<noteq> 0 \<and> (\<exists>s. find_by_session_id g (as_session_id s) = Some s \<and> as_uid s = u))"
proof -
  let ?r = "registry_from_snapshot (registry_snapshot g)"
  note f = from_snapshot_facts [OF snapshot_distinct [OF assms]]
  have "find_by_session_id ?r i = find_by_session_id g i" for i
  proof (cases "find_by_session_id g i")
    case (Some s)
    then have "s \<in> set (registry_snapshot g)" "as_session_id s = i"
      using reg.in_listing [OF assms] reg.lookup_id [OF assms] by auto
    with f Some show ?thesis by simp
  next
    case None
    with f show ?thesis using reg.in_listing [OF assms]
      by (cases "find_by_session_id ?r i") auto
  qed
  moreover have "find_by_uid ?r u \<noteq> None \<longleftrightarrow> u \<noteq> 0 \<and> (\<exists>s\<in>set (registry_snapshot g). as_uid s = u)"
  proof -
    have "find_by_uid ?r u \<noteq> None \<longleftrightarrow> u \<in> {as_uid s |s. s \<in> set (registry_snapshot g) \<and> as_uid s \<noteq> 0}"
      using find_by_uid_some [of ?r u] f by (simp only:)
    also have "\<dots> \<longleftrightarrow> u \<noteq> 0 \<and> (\<exists>s\<in>set (registry_snapshot g). as_uid s = u)" by auto
    finally show ?thesis .
  qed
  moreover have "(\<exists>s\<in>set (registry_snapshot g). as_uid s = u) \<longleftrightarrow>
      (\<exists>s. find_by_session_id g (as_session_id s) = Some s \<and> as_uid s = u)"
    using reg.in_listing [OF assms] by blast
  ultimately show ?thesis using f by (simp only: fun_eq_iff simp_thms)
qed

lemma registry_restart_witness:
  "find_by_session_id (registry_from_snapshot (registry_snapshot (registry_add demo_session1 registry_new))) 1 =
     Some demo_session1"
  using registry_restart [OF reg.invar_insert [OF reg.invar_empty], of demo_session1]
  by (simp add: reg.lookup_insert, simp add: demo_session1_def)

end
