(* ===== verification/Monitor.thy ===== *)
theory Monitor
  imports Registry
begin

text \<open>
  The state manager of the monitor daemon (\<open>state.rs\<close>) with the udev front end
  (\<open>udev_monitor.rs\<close>) and the action runner (\<open>actions.rs\<close>): a state machine over IPC requests, udev
  events, logind signals and time. One handler is one function on the state; \<open>mstep\<close> is the
  transition relation, \<open>run\<close> its executions with the trace of states and labels.

  A grace timer is the task that \<open>handle_udev\<close> spawns: it captures the affected sessions and waits
  for its deadline or for its cancellation token. Instants and durations are integers in
  nanoseconds. The scheduler is prompt: a task whose token is cancelled before its deadline is
  polled before that deadline, so it does not fire; when the token is cancelled at or after the
  deadline either branch of the \<open>select!\<close> may be taken. Whether a device is present
  (\<open>UdevQuery\<close>) and whether writing \<open>sessions.json\<close> succeeds are part of the label of a step.
\<close>

section \<open>Types\<close>

datatype on_usb_removed = Lock | Logout | Hook string | Shutdown

datatype suspend_state = Awake | SuspendingAt int | ResumedAt int

definition from_secs :: "nat \<Rightarrow> int" where
  "from_secs n = int n * 1000000000"

fun is_in_grace_window :: "suspend_state \<Rightarrow> int \<Rightarrow> nat \<Rightarrow> bool" where
  "is_in_grace_window Awake now secs = False"
| "is_in_grace_window (SuspendingAt t) now secs = True"
| "is_in_grace_window (ResumedAt t) now secs = (now - t < from_secs secs)"

record state_config =
  cf_grace_seconds :: nat
  cf_suspend_grace_seconds :: nat
  cf_on_usb_removed :: on_usb_removed

datatype ipc_request =
    ReqHello
  | ReqSessionOpen active_session
  | ReqSessionClose uuid int
  | ReqPing
  | ReqGetActiveSessionByUid u32
  | ReqUpdateSessionTarget uuid session_target

datatype udev_action = UdevAdd | UdevRemove | UdevChange

record udev_event =
  ue_action :: udev_action
  ue_devnode :: "string option"
  ue_serial :: "string option"
  ue_vid_pid :: "(nat \<times> nat) option"
  ue_is_usb :: bool

datatype logind_signal = PrepareForSleep bool | SessionRemoved string string

datatype action_request = HandleUsbRemoved active_session on_usb_removed

record timer =
  tm_token :: nat
  tm_serial :: string
  tm_sessions :: "active_session list"
  tm_action :: on_usb_removed
  tm_started :: int
  tm_deadline :: int
  tm_cancelled :: "int option"

text \<open>An action as sent to the runner, with the timer it came from and the time of sending.\<close>

record sent_action =
  sa_token :: nat
  sa_serial :: string
  sa_started :: int
  sa_at :: int
  sa_request :: action_request

record monitor =
  mo_registry :: registry
  mo_grace_tokens :: "(string \<times> nat) list"
  mo_timers :: "timer list"
  mo_suspend :: suspend_state
  mo_now :: int
  mo_next_token :: nat
  mo_actions :: "sent_action list"
  mo_persisted :: "active_session list"
  mo_running :: bool

section \<open>The udev front end\<close>

definition parse_udev_fields :: "(string \<rightharpoonup> string) \<Rightarrow> udev_event option" where
  "parse_udev_fields props =
     (let action = (if props ''ACTION'' = Some ''add'' then UdevAdd
                    else if props ''ACTION'' = Some ''remove'' then UdevRemove else UdevChange);
          serial = (case props ''ID_SERIAL_SHORT'' of
                      Some s \<Rightarrow> Some s | None \<Rightarrow> props ''ID_SERIAL'');
          vid = (case props ''ID_VENDOR_ID'' of
                   Some s \<Rightarrow> unsigned_from_str_radix 65535 16 s | None \<Rightarrow> None);
          pid = (case props ''ID_MODEL_ID'' of
                   Some s \<Rightarrow> unsigned_from_str_radix 65535 16 s | None \<Rightarrow> None)
      in Some \<lparr>ue_action = action, ue_devnode = props ''DEVNAME'', ue_serial = serial,
           ue_vid_pid = (case (vid, pid) of (Some v, Some p) \<Rightarrow> Some (v, p) | _ \<Rightarrow> None),
           ue_is_usb = (props ''ID_BUS'' = Some ''usb'')\<rparr>)"

text \<open>What the monitor loop forwards: additions and removals only of USB devices.\<close>

definition udev_forward :: "(string \<rightharpoonup> string) \<Rightarrow> udev_event option" where
  "udev_forward props =
     (case parse_udev_fields props of
        None \<Rightarrow> None
      | Some ev \<Rightarrow>
          if \<not> ue_is_usb ev \<and> (ue_action ev = UdevAdd \<or> ue_action ev = UdevRemove) then None else Some ev)"

section \<open>Handlers\<close>

record monitor_env =
  me_version :: string
  me_uuid_to_string :: "uuid \<Rightarrow> string"

definition persist :: "bool \<Rightarrow> monitor \<Rightarrow> monitor" where
  "persist ok st = (if ok then st\<lparr>mo_persisted := registry_snapshot (mo_registry st)\<rparr> else st)"

fun handle_ipc ::
  "monitor_env \<Rightarrow> (string \<Rightarrow> bool) \<Rightarrow> bool \<Rightarrow> ipc_request \<Rightarrow> monitor \<Rightarrow> server_message \<times> monitor" where
  "handle_ipc E present ok ReqHello st = (HelloAck (me_version E) PROTOCOL_VERSION, st)"
| "handle_ipc E present ok ReqPing st = (Pong, st)"
| "handle_ipc E present ok (ReqGetActiveSessionByUid uid) st =
     (case find_by_uid (mo_registry st) uid of
        Some rec \<Rightarrow>
          (ActiveSession \<lparr>ai_session_id = me_uuid_to_string E (as_session_id rec), ai_cert_cn = as_cert_cn rec,
             ai_engineer_ski = as_engineer_ski rec, ai_engineer_cert_sha256 = as_engineer_cert_sha256 rec,
             ai_host_id_hash = as_host_id_hash rec\<rparr>, st)
      | None \<Rightarrow>
          (ServerError NO_ACTIVE_SESSION (''no active session for uid '' @ to_decimal (unat uid)), st))"
| "handle_ipc E present ok (ReqSessionOpen session) st =
     (case as_usb_serial session of
        Some serial \<Rightarrow>
          if \<not> present serial
          then (ServerError DEVICE_GONE (''usb serial '' @ serial @ '' not present''), st)
          else (Ack, persist ok (st\<lparr>mo_registry := registry_add session (mo_registry st)\<rparr>))
      | None \<Rightarrow> (Ack, persist ok (st\<lparr>mo_registry := registry_add session (mo_registry st)\<rparr>)))"
| "handle_ipc E present ok (ReqSessionClose session_id closed_at) st =
     (Ack, persist ok (st\<lparr>mo_registry := snd (registry_remove session_id (mo_registry st))\<rparr>))"
| "handle_ipc E present ok (ReqUpdateSessionTarget session_id new_target) st =
     (case registry_update_target session_id new_target (mo_registry st) of
        (Inr _, g) \<Rightarrow>
          (SessionTargetUpdated (me_uuid_to_string E session_id), persist ok (st\<lparr>mo_registry := g\<rparr>))
      | (Inl _, g) \<Rightarrow>
          (ServerError BAD_REQUEST (''update_session_target '' @ me_uuid_to_string E session_id @
             '': no active session for the supplied id''), st))"

text \<open>\<open>CancellationToken::cancel\<close> on one token; the first cancellation counts.\<close>

definition cancel_token :: "int \<Rightarrow> nat \<Rightarrow> timer \<Rightarrow> timer" where
  "cancel_token now tok t =
     (if tm_token t = tok \<and> tm_cancelled t = None then t\<lparr>tm_cancelled := Some now\<rparr> else t)"

definition cancel_all :: "monitor \<Rightarrow> monitor" where
  "cancel_all st =
     st\<lparr>mo_timers := fold (\<lambda>(_, tok). map (cancel_token (mo_now st) tok)) (mo_grace_tokens st) (mo_timers st),
        mo_grace_tokens := []\<rparr>"

definition handle_udev :: "state_config \<Rightarrow> udev_event \<Rightarrow> monitor \<Rightarrow> monitor" where
  "handle_udev cfg ev st =
     (case (ue_action ev, ue_serial ev) of
        (UdevRemove, Some serial) \<Rightarrow>
          if is_in_grace_window (mo_suspend st) (mo_now st) (cf_suspend_grace_seconds cfg) then st
          else let sessions = find_by_serial (mo_registry st) serial in
            if sessions = [] then st
            else if map_of (mo_grace_tokens st) serial \<noteq> None then st
            else let token = mo_next_token st in
              st\<lparr>mo_next_token := Suc token,
                 mo_grace_tokens := AList.update serial token (mo_grace_tokens st),
                 mo_timers := mo_timers st @
                   [\<lparr>tm_token = token, tm_serial = serial, tm_sessions = sessions,
                     tm_action = cf_on_usb_removed cfg, tm_started = mo_now st,
                     tm_deadline = mo_now st + from_secs (cf_grace_seconds cfg), tm_cancelled = None\<rparr>]\<rparr>
      | (UdevAdd, Some serial) \<Rightarrow>
          (case map_of (mo_grace_tokens st) serial of
             Some tok \<Rightarrow>
               st\<lparr>mo_grace_tokens := AList.delete serial (mo_grace_tokens st),
                  mo_timers := map (cancel_token (mo_now st) tok) (mo_timers st)\<rparr>
           | None \<Rightarrow> st)
      | _ \<Rightarrow> st)"

fun handle_logind :: "bool \<Rightarrow> logind_signal \<Rightarrow> monitor \<Rightarrow> monitor" where
  "handle_logind ok (PrepareForSleep True) st = cancel_all (st\<lparr>mo_suspend := SuspendingAt (mo_now st)\<rparr>)"
| "handle_logind ok (PrepareForSleep False) st = st\<lparr>mo_suspend := ResumedAt (mo_now st)\<rparr>"
| "handle_logind ok (SessionRemoved i object_path) st =
     (let to_remove = map as_session_id
            (filter (\<lambda>s. logind_id (as_target s) = Some i) (registry_snapshot (mo_registry st)))
      in if to_remove = [] then st
         else persist ok
           (st\<lparr>mo_registry := fold (\<lambda>u g. snd (registry_remove u g)) to_remove (mo_registry st)\<rparr>))"

text \<open>The end of the task: outstanding timers are cancelled and no further event is handled.\<close>

definition handle_shutdown :: "monitor \<Rightarrow> monitor" where
  "handle_shutdown st = (cancel_all st)\<lparr>mo_running := False\<rparr>"

text \<open>A timer whose sleep ends: every captured session is sent to the runner.\<close>

definition may_fire :: "int \<Rightarrow> timer \<Rightarrow> bool" where
  "may_fire now t \<longleftrightarrow>
     tm_deadline t \<le> now \<and> (case tm_cancelled t of None \<Rightarrow> True | Some c \<Rightarrow> tm_deadline t \<le> c)"

definition fire_timer :: "timer \<Rightarrow> monitor \<Rightarrow> monitor" where
  "fire_timer t st =
     st\<lparr>mo_timers := filter (\<lambda>x. tm_token x \<noteq> tm_token t) (mo_timers st),
        mo_actions := mo_actions st @
          map (\<lambda>s. \<lparr>sa_token = tm_token t, sa_serial = tm_serial t, sa_started = tm_started t,
                    sa_at = mo_now st, sa_request = HandleUsbRemoved s (tm_action t)\<rparr>) (tm_sessions t)\<rparr>"

definition drop_timer :: "timer \<Rightarrow> monitor \<Rightarrow> monitor" where
  "drop_timer t st = st\<lparr>mo_timers := filter (\<lambda>x. tm_token x \<noteq> tm_token t) (mo_timers st)\<rparr>"

section \<open>The action runner\<close>

datatype runner_call =
    LockSession string
  | TerminateSession string
  | RunHook string "(string \<times> string) list"
  | PowerOff

definition hook_env :: "monitor_env \<Rightarrow> active_session \<Rightarrow> (string \<times> string) list" where
  "hook_env E s =
     [(''CERT_CN'', as_cert_cn s), (''PAM_USER'', as_pam_user s), (''PAM_SERVICE'', as_pam_service s),
      (''USB_SERIAL'', case as_usb_serial s of Some x \<Rightarrow> x | None \<Rightarrow> []),
      (''HOST_ID_HASH'', as_host_id_hash s), (''SESSION_ID'', me_uuid_to_string E (as_session_id s))]"

text \<open>
  \<open>handle\<close>: the backend (logind over the bus, or the hook process) is the parameter \<open>exec\<close>; the
  result of the call is the result of the handler, except that a missing logind id is an error
  before any call.
\<close>

fun action_handle ::
  "monitor_env \<Rightarrow> (runner_call \<Rightarrow> (string, unit) result) \<Rightarrow> action_request \<Rightarrow> (string, unit) result" where
  "action_handle E exec (HandleUsbRemoved s action) =
     (case action of
        Lock \<Rightarrow> and_then (ok_or ''Lock requested but session has no logind id'' (logind_id (as_target s)))
                  (\<lambda>i. exec (LockSession i))
      | Logout \<Rightarrow> and_then (ok_or ''Logout requested but session has no logind id'' (logind_id (as_target s)))
                  (\<lambda>i. exec (TerminateSession i))
      | Hook path \<Rightarrow> exec (RunHook path (hook_env E s))
      | Shutdown \<Rightarrow> exec PowerOff)"

section \<open>Transitions\<close>

datatype mlabel =
    LIpc "string \<Rightarrow> bool" bool ipc_request
  | LUdev udev_event
  | LLogind bool logind_signal
  | LTick int
  | LFire nat
  | LDrop nat
  | LShutdown

inductive mstep :: "state_config \<Rightarrow> monitor_env \<Rightarrow> monitor \<Rightarrow> mlabel \<Rightarrow> monitor \<Rightarrow> bool"
  for cfg :: state_config and E :: monitor_env where
  ipc: "mo_running s \<Longrightarrow> mstep cfg E s (LIpc present ok req) (snd (handle_ipc E present ok req s))"
| udev: "mo_running s \<Longrightarrow> mstep cfg E s (LUdev ev) (handle_udev cfg ev s)"
| logind: "mo_running s \<Longrightarrow> mstep cfg E s (LLogind ok sig) (handle_logind ok sig s)"
| tick: "0 \<le> d \<Longrightarrow> mstep cfg E s (LTick d) (s\<lparr>mo_now := mo_now s + d\<rparr>)"
| fire: "t \<in> set (mo_timers s) \<Longrightarrow> may_fire (mo_now s) t \<Longrightarrow> mstep cfg E s (LFire (tm_token t)) (fire_timer t s)"
| drop: "t \<in> set (mo_timers s) \<Longrightarrow> tm_cancelled t \<noteq> None \<Longrightarrow> mstep cfg E s (LDrop (tm_token t)) (drop_timer t s)"
| shutdown: "mo_running s \<Longrightarrow> mstep cfg E s LShutdown (handle_shutdown s)"

inductive_cases mstep_tickE: "mstep cfg E s (LTick d) s'"
inductive_cases mstep_udevE: "mstep cfg E s (LUdev ev) s'"
inductive_cases mstep_fireE: "mstep cfg E s (LFire tok) s'"

definition monitor_init :: "active_session list \<Rightarrow> monitor" where
  "monitor_init sessions =
     \<lparr>mo_registry = registry_from_snapshot sessions, mo_grace_tokens = [], mo_timers = [],
      mo_suspend = Awake, mo_now = 0, mo_next_token = 0, mo_actions = [], mo_persisted = sessions,
      mo_running = True\<rparr>"

text \<open>An execution with its trace: the states it leaves and the labels it takes.\<close>

type_synonym mtrace = "(monitor \<times> mlabel) list"

inductive run :: "state_config \<Rightarrow> monitor_env \<Rightarrow> monitor \<Rightarrow> mtrace \<Rightarrow> monitor \<Rightarrow> bool"
  for cfg :: state_config and E :: monitor_env and s0 :: monitor where
  run_nil: "run cfg E s0 [] s0"
| run_snoc: "run cfg E s0 tr s \<Longrightarrow> mstep cfg E s l s' \<Longrightarrow> run cfg E s0 (tr @ [(s, l)]) s'"


section \<open>Cancellation\<close>

definition cancel_in :: "int \<Rightarrow> nat set \<Rightarrow> timer \<Rightarrow> timer" where
  "cancel_in now S t = (if tm_token t \<in> S \<and> tm_cancelled t = None then t\<lparr>tm_cancelled := Some now\<rparr> else t)"

lemma cancel_in_fields [simp]:
  "tm_token (cancel_in now S t) = tm_token t" "tm_serial (cancel_in now S t) = tm_serial t"
  "tm_sessions (cancel_in now S t) = tm_sessions t" "tm_action (cancel_in now S t) = tm_action t"
  "tm_started (cancel_in now S t) = tm_started t" "tm_deadline (cancel_in now S t) = tm_deadline t"
  by (simp_all add: cancel_in_def)

lemma cancel_token_in: "cancel_token now tok = cancel_in now {tok}"
  by (rule ext) (simp add: cancel_token_def cancel_in_def)

lemma cancel_in_compose: "cancel_in now S (cancel_in now {tok} t) = cancel_in now (insert tok S) t"
  by (simp add: cancel_in_def)

lemma cancel_fold:
  "fold (\<lambda>(_, tok). map (cancel_token now tok)) gts ts = map (cancel_in now (snd ` set gts)) ts"
proof (induction gts arbitrary: ts)
  case Nil
  have "cancel_in now {} = id" by (rule ext) (simp add: cancel_in_def)
  then show ?case by simp
next
  case (Cons a gts)
  then show ?case by (cases a) (simp add: cancel_token_in cancel_in_compose)
qed

lemma cancel_all_eq:
  "cancel_all st = st\<lparr>mo_timers := map (cancel_in (mo_now st) (snd ` set (mo_grace_tokens st))) (mo_timers st),
                      mo_grace_tokens := []\<rparr>"
  by (simp add: cancel_all_def cancel_fold)

lemma persist_simps [simp]:
  "mo_registry (persist ok s) = mo_registry s" "mo_grace_tokens (persist ok s) = mo_grace_tokens s"
  "mo_timers (persist ok s) = mo_timers s" "mo_suspend (persist ok s) = mo_suspend s"
  "mo_now (persist ok s) = mo_now s" "mo_next_token (persist ok s) = mo_next_token s"
  "mo_actions (persist ok s) = mo_actions s" "mo_running (persist ok s) = mo_running s"
  by (simp_all add: persist_def)

text \<open>IPC requests and ended logind sessions touch the registry and its file only.\<close>

lemma handle_ipc_frame:
  "mo_grace_tokens (snd (handle_ipc E present ok req s)) = mo_grace_tokens s \<and>
   mo_timers (snd (handle_ipc E present ok req s)) = mo_timers s \<and>
   mo_suspend (snd (handle_ipc E present ok req s)) = mo_suspend s \<and>
   mo_now (snd (handle_ipc E present ok req s)) = mo_now s \<and>
   mo_next_token (snd (handle_ipc E present ok req s)) = mo_next_token s \<and>
   mo_actions (snd (handle_ipc E present ok req s)) = mo_actions s \<and>
   mo_running (snd (handle_ipc E present ok req s)) = mo_running s"
  by (cases req) (auto split: option.splits sum.splits prod.splits)

lemma handle_logind_frame:
  "mo_now (handle_logind ok sig s) = mo_now s \<and> mo_next_token (handle_logind ok sig s) = mo_next_token s \<and>
   mo_actions (handle_logind ok sig s) = mo_actions s \<and>
   (sig \<noteq> PrepareForSleep True \<longrightarrow>
      mo_grace_tokens (handle_logind ok sig s) = mo_grace_tokens s \<and> mo_timers (handle_logind ok sig s) = mo_timers s)"
  by (cases "(ok, sig, s)" rule: handle_logind.cases) (auto simp: cancel_all_eq Let_def)

lemma handle_udev_frame:
  "mo_now (handle_udev cfg ev s) = mo_now s \<and> mo_actions (handle_udev cfg ev s) = mo_actions s \<and>
   mo_registry (handle_udev cfg ev s) = mo_registry s \<and> mo_suspend (handle_udev cfg ev s) = mo_suspend s \<and>
   mo_persisted (handle_udev cfg ev s) = mo_persisted s"
  by (simp add: handle_udev_def Let_def split: udev_action.split option.split)

section \<open>The invariant\<close>

definition timer_ok :: "state_config \<Rightarrow> int \<Rightarrow> nat \<Rightarrow> (string \<rightharpoonup> nat) \<Rightarrow> timer \<Rightarrow> bool" where
  "timer_ok cfg now fresh gt t \<longleftrightarrow>
     tm_token t < fresh \<and> tm_started t \<le> now \<and> tm_action t = cf_on_usb_removed cfg \<and>
     tm_deadline t = tm_started t + from_secs (cf_grace_seconds cfg) \<and>
     (case tm_cancelled t of Some c \<Rightarrow> c \<le> now | None \<Rightarrow> gt (tm_serial t) = Some (tm_token t)) \<and>
     distinct (map as_session_id (tm_sessions t))"

fun request_session :: "action_request \<Rightarrow> active_session" where
  "request_session (HandleUsbRemoved s a) = s"

fun request_action :: "action_request \<Rightarrow> on_usb_removed" where
  "request_action (HandleUsbRemoved s a) = a"

definition action_key :: "sent_action \<Rightarrow> nat \<times> uuid" where
  "action_key a = (sa_token a, as_session_id (request_session (sa_request a)))"

definition action_ok :: "state_config \<Rightarrow> int \<Rightarrow> nat \<Rightarrow> nat set \<Rightarrow> sent_action \<Rightarrow> bool" where
  "action_ok cfg now fresh pending a \<longleftrightarrow>
     sa_token a < fresh \<and> sa_token a \<notin> pending \<and> sa_at a \<le> now \<and>
     sa_started a + from_secs (cf_grace_seconds cfg) \<le> sa_at a \<and>
     request_action (sa_request a) = cf_on_usb_removed cfg"

definition mon_ok :: "state_config \<Rightarrow> monitor \<Rightarrow> bool" where
  "mon_ok cfg s \<longleftrightarrow>
     reg_ok (mo_registry s) \<and> distinct (map tm_token (mo_timers s)) \<and>
     (\<forall>t \<in> set (mo_timers s). timer_ok cfg (mo_now s) (mo_next_token s) (map_of (mo_grace_tokens s)) t) \<and>
     distinct (map action_key (mo_actions s)) \<and>
     (\<forall>a \<in> set (mo_actions s). action_ok cfg (mo_now s) (mo_next_token s) (tm_token ` set (mo_timers s)) a)"

lemma find_by_serial_distinct: "reg_ok g \<Longrightarrow> distinct (map as_session_id (find_by_serial g ser))"
  using snapshot_distinct [of g] by (simp add: find_by_serial_def registry_snapshot_def distinct_map_filter)

lemma reg_ok_ipc: "reg_ok (mo_registry s) \<Longrightarrow> reg_ok (mo_registry (snd (handle_ipc E present ok req s)))"
  using reg_ok_update_target [of "mo_registry s"]
  by (cases req)
    (auto simp: reg.invar_insert reg.invar_delete split: option.splits sum.splits prod.splits, metis snd_conv)

lemma reg_ok_logind: "reg_ok (mo_registry s) \<Longrightarrow> reg_ok (mo_registry (handle_logind ok sig s))"
  by (cases "(ok, sig, s)" rule: handle_logind.cases)
    (simp_all add: cancel_all_eq Let_def reg.invar_delete_all)

lemma timer_ok_cancel:
  "timer_ok cfg now fresh gt t \<Longrightarrow> (tm_token t \<notin> S \<Longrightarrow> gt' (tm_serial t) = gt (tm_serial t)) \<Longrightarrow>
   timer_ok cfg now fresh gt' (cancel_in now S t)"
  by (auto simp: timer_ok_def cancel_in_def split: option.splits)

lemma mon_ok_cancel_all: "mon_ok cfg s \<Longrightarrow> mon_ok cfg (cancel_all s)"
proof -
  assume s: "mon_ok cfg s"
  have "timer_ok cfg (mo_now s) (mo_next_token s) Map.empty
          (cancel_in (mo_now s) (snd ` set (mo_grace_tokens s)) t)" if "t \<in> set (mo_timers s)" for t
    using s that map_of_SomeD [of "mo_grace_tokens s" "tm_serial t" "tm_token t"]
    by (force simp: mon_ok_def timer_ok_def cancel_in_def split: option.splits)
  with s show ?thesis by (simp add: mon_ok_def cancel_all_eq image_image comp_def)
qed

lemma mon_ok_now: "mon_ok cfg s \<Longrightarrow> 0 \<le> d \<Longrightarrow> mon_ok cfg (s\<lparr>mo_now := mo_now s + d\<rparr>)"
  by (force simp: mon_ok_def timer_ok_def action_ok_def split: option.splits)

lemma mon_ok_udev: "mon_ok cfg s \<Longrightarrow> mon_ok cfg (handle_udev cfg ev s)"
proof -
  assume s: "mon_ok cfg s"
  let ?add = "\<lambda>ser tok. s\<lparr>mo_grace_tokens := AList.delete ser (mo_grace_tokens s),
                  mo_timers := map (cancel_in (mo_now s) {tok}) (mo_timers s)\<rparr>"
  have add: "mon_ok cfg (?add ser tok)" if m: "map_of (mo_grace_tokens s) ser = Some tok" for ser tok
  proof -
    have "timer_ok cfg (mo_now s) (mo_next_token s) ((map_of (mo_grace_tokens s))(ser := None))
            (cancel_in (mo_now s) {tok} t)" if "t \<in> set (mo_timers s)" for t
      using s m that by (auto simp: mon_ok_def timer_ok_def cancel_in_def split: option.splits)
    with s show ?thesis by (simp add: mon_ok_def image_image comp_def AList.delete_conv')
  qed
  have rem: "mon_ok cfg (s\<lparr>mo_next_token := Suc (mo_next_token s),
                 mo_grace_tokens := AList.update ser (mo_next_token s) (mo_grace_tokens s),
                 mo_timers := mo_timers s @
                   [\<lparr>tm_token = mo_next_token s, tm_serial = ser, tm_sessions = find_by_serial (mo_registry s) ser,
                     tm_action = cf_on_usb_removed cfg, tm_started = mo_now s,
                     tm_deadline = mo_now s + from_secs (cf_grace_seconds cfg), tm_cancelled = None\<rparr>]\<rparr>)"
    if m: "map_of (mo_grace_tokens s) ser = None" for ser
    using s m
    by (fastforce simp: mon_ok_def timer_ok_def action_ok_def AList.update_conv' find_by_serial_distinct
        less_Suc_eq split: option.splits)
  show ?thesis
    using s add rem by (auto simp: handle_udev_def Let_def cancel_token_in split: udev_action.split option.split)
qed

lemma mon_ok_fire:
  assumes s: "mon_ok cfg s" and t: "t \<in> set (mo_timers s)" and f: "may_fire (mo_now s) t"
  shows "mon_ok cfg (fire_timer t s)"
proof -
  let ?new = "map (\<lambda>x. \<lparr>sa_token = tm_token t, sa_serial = tm_serial t, sa_started = tm_started t,
                    sa_at = mo_now s, sa_request = HandleUsbRemoved x (tm_action t)\<rparr>) (tm_sessions t)"
  have tok: "timer_ok cfg (mo_now s) (mo_next_token s) (map_of (mo_grace_tokens s)) t"
    using s t by (simp add: mon_ok_def)
  have old: "a \<in> set (mo_actions s) \<Longrightarrow> sa_token a \<noteq> tm_token t" for a
    using s t by (force simp: mon_ok_def action_ok_def)
  have "map action_key ?new = map (Pair (tm_token t)) (map as_session_id (tm_sessions t))"
    by (simp add: action_key_def)
  then have "distinct (map action_key ?new)"
    using tok by (simp add: timer_ok_def distinct_map inj_on_def)
  moreover have "action_key ` set ?new \<inter> action_key ` set (mo_actions s) = {}"
    using old by (fastforce simp: action_key_def)
  ultimately have d: "distinct (map action_key (mo_actions s @ ?new))"
    using s by (auto simp: mon_ok_def)
  have a: "action_ok cfg (mo_now s) (mo_next_token s)
             (tm_token ` set (filter (\<lambda>x. tm_token x \<noteq> tm_token t) (mo_timers s))) a"
    if "a \<in> set (mo_actions s @ ?new)" for a
    using that s tok f by (auto simp: mon_ok_def action_ok_def timer_ok_def may_fire_def)
  from s d a show ?thesis
    by (simp add: mon_ok_def fire_timer_def distinct_map_filter)
qed

lemma mon_ok_drop: "mon_ok cfg s \<Longrightarrow> mon_ok cfg (drop_timer t s)"
  by (auto simp: mon_ok_def drop_timer_def distinct_map_filter action_ok_def)

lemma mon_ok_logind: "mon_ok cfg s \<Longrightarrow> mon_ok cfg (handle_logind ok sig s)"
proof (cases "sig = PrepareForSleep True")
  case True
  assume "mon_ok cfg s"
  then have "mon_ok cfg (s\<lparr>mo_suspend := SuspendingAt (mo_now s)\<rparr>)" by (simp add: mon_ok_def)
  with True show ?thesis by (simp add: mon_ok_cancel_all)
next
  case False
  assume "mon_ok cfg s"
  with False handle_logind_frame [of ok sig s] reg_ok_logind [of s ok sig] show ?thesis
    by (simp add: mon_ok_def)
qed

lemma mon_ok_step: "mstep cfg E s l s' \<Longrightarrow> mon_ok cfg s \<Longrightarrow> mon_ok cfg s'"
proof (induction rule: mstep.induct)
  case (ipc s present ok req)
  then show ?case
    using handle_ipc_frame [of E present ok req s] reg_ok_ipc [of s E present ok req] by (simp add: mon_ok_def)
next
  case (shutdown s)
  then show ?case using mon_ok_cancel_all [of cfg s] by (simp add: handle_shutdown_def mon_ok_def)
qed (simp_all add: mon_ok_udev mon_ok_logind mon_ok_now mon_ok_fire mon_ok_drop)

lemma mon_ok_init: "distinct (map as_session_id ss) \<Longrightarrow> mon_ok cfg (monitor_init ss)"
  by (simp add: mon_ok_def monitor_init_def from_snapshot_facts)

lemma mon_ok_run: "run cfg E s0 tr s \<Longrightarrow> mon_ok cfg s0 \<Longrightarrow> mon_ok cfg s"
  by (induction rule: run.induct) (auto intro: mon_ok_step)

lemma now_step: "mstep cfg E s l s' \<Longrightarrow> mo_now s \<le> mo_now s'"
  by (erule mstep.cases)
    (auto simp: handle_ipc_frame handle_logind_frame handle_udev_frame handle_shutdown_def cancel_all_eq fire_timer_def drop_timer_def)

lemma now_run: "run cfg E s0 tr s \<Longrightarrow> (x, l) \<in> set tr \<Longrightarrow> mo_now x \<le> mo_now s"
  by (induction rule: run.induct) (auto dest: now_step intro: order_trans)

section \<open>What an action rests on\<close>

text \<open>Labels that cancel a pending timer of a serial.\<close>

fun cancels :: "string \<Rightarrow> mlabel \<Rightarrow> bool" where
  "cancels ser (LUdev ev) \<longleftrightarrow> ue_action ev = UdevAdd \<and> ue_serial ev = Some ser"
| "cancels ser (LLogind ok sig) \<longleftrightarrow> sig = PrepareForSleep True"
| "cancels ser LShutdown \<longleftrightarrow> True"
| "cancels ser _ \<longleftrightarrow> False"

text \<open>A removal of \<open>ser\<close> that the manager acts on: outside the suspend window, sessions \<open>xs\<close> open.\<close>

definition removal :: "state_config \<Rightarrow> string \<Rightarrow> int \<Rightarrow> active_session list \<Rightarrow> monitor \<times> mlabel \<Rightarrow> bool" where
  "removal cfg ser started xs e \<longleftrightarrow>
     mo_now (fst e) = started \<and> xs = find_by_serial (mo_registry (fst e)) ser \<and>
     \<not> is_in_grace_window (mo_suspend (fst e)) (mo_now (fst e)) (cf_suspend_grace_seconds cfg) \<and>
     (\<exists>ev. snd e = LUdev ev \<and> ue_action ev = UdevRemove \<and> ue_serial ev = Some ser)"

definition kept_until :: "string \<Rightarrow> int option \<Rightarrow> mtrace \<Rightarrow> bool" where
  "kept_until ser bound tr \<longleftrightarrow>
     (\<forall>e \<in> set tr. cancels ser (snd e) \<longrightarrow> (case bound of None \<Rightarrow> False | Some b \<Rightarrow> b \<le> mo_now (fst e)))"

definition grounded :: "state_config \<Rightarrow> mtrace \<Rightarrow> string \<Rightarrow> int \<Rightarrow> active_session list \<Rightarrow> int option \<Rightarrow> bool" where
  "grounded cfg tr ser started xs bound \<longleftrightarrow>
     (\<exists>tr1 e tr2. tr = tr1 @ e # tr2 \<and> removal cfg ser started xs e \<and> kept_until ser bound tr2)"

lemma grounded_snoc:
  assumes "grounded cfg tr ser started xs bound" and "kept_until ser bound [e]"
  shows "grounded cfg (tr @ [e]) ser started xs bound"
proof -
  from assms(1) obtain tr1 r tr2 where "tr = tr1 @ r # tr2" "removal cfg ser started xs r" "kept_until ser bound tr2"
    unfolding grounded_def by blast
  with assms(2) have "tr @ [e] = tr1 @ r # (tr2 @ [e])" "kept_until ser bound (tr2 @ [e])"
    by (auto simp: kept_until_def)
  with \<open>removal cfg ser started xs r\<close> show ?thesis unfolding grounded_def by blast
qed

lemma grounded_weaken:
  "grounded cfg tr ser started xs bound \<Longrightarrow>
   (\<And>x. kept_until ser bound x \<Longrightarrow> kept_until ser bound' x) \<Longrightarrow> grounded cfg tr ser started xs bound'"
  unfolding grounded_def by blast

text \<open>Where the timers of the next state come from.\<close>

definition timer_origin :: "state_config \<Rightarrow> monitor \<Rightarrow> mlabel \<Rightarrow> timer \<Rightarrow> bool" where
  "timer_origin cfg s l t' \<longleftrightarrow>
     (t' \<in> set (mo_timers s) \<and> (cancels (tm_serial t') l \<longrightarrow> tm_cancelled t' \<noteq> None)) \<or>
     (\<exists>t \<in> set (mo_timers s). tm_cancelled t = None \<and> t' = t\<lparr>tm_cancelled := Some (mo_now s)\<rparr>) \<or>
     (removal cfg (tm_serial t') (tm_started t') (tm_sessions t') (s, l) \<and> tm_cancelled t' = None)"

lemma origin_cancel_in:
  assumes t: "t \<in> set (mo_timers s)"
    and "cancels (tm_serial t) l \<Longrightarrow> tm_cancelled t = None \<Longrightarrow> tm_token t \<in> S"
  shows "timer_origin cfg s l (cancel_in (mo_now s) S t)"
proof (cases "tm_token t \<in> S \<and> tm_cancelled t = None")
  case True
  then have "cancel_in (mo_now s) S t = t\<lparr>tm_cancelled := Some (mo_now s)\<rparr>" by (simp add: cancel_in_def)
  with t True show ?thesis unfolding timer_origin_def by (intro disjI2 disjI1 bexI [of _ t]) simp_all
next
  case False
  then have "cancel_in (mo_now s) S t = t" by (auto simp: cancel_in_def)
  with assms False show ?thesis unfolding timer_origin_def by (intro disjI1) auto
qed

lemma origin_cancel_all:
  assumes s: "mon_ok cfg s" and "t' \<in> set (mo_timers (cancel_all s))"
  shows "timer_origin cfg s l t'"
proof -
  from assms obtain t where t: "t \<in> set (mo_timers s)"
    "t' = cancel_in (mo_now s) (snd ` set (mo_grace_tokens s)) t" by (auto simp: cancel_all_eq)
  moreover have "tm_cancelled t = None \<Longrightarrow> tm_token t \<in> snd ` set (mo_grace_tokens s)"
    using s t(1) map_of_SomeD [of "mo_grace_tokens s" "tm_serial t" "tm_token t"]
    by (force simp: mon_ok_def timer_ok_def)
  ultimately show ?thesis by (simp add: origin_cancel_in)
qed

lemma origin_udev:
  assumes s: "mon_ok cfg s" and t': "t' \<in> set (mo_timers (handle_udev cfg ev s))"
  shows "timer_origin cfg s (LUdev ev) t'"
proof (cases "ue_action ev = UdevAdd \<and> (\<exists>ser tok. ue_serial ev = Some ser \<and> map_of (mo_grace_tokens s) ser = Some tok)")
  case True
  then obtain ser tok where ev: "ue_action ev = UdevAdd" "ue_serial ev = Some ser"
    "map_of (mo_grace_tokens s) ser = Some tok" by blast
  with t' obtain t where t: "t \<in> set (mo_timers s)" "t' = cancel_in (mo_now s) {tok} t"
    by (auto simp: handle_udev_def cancel_token_in)
  moreover have "cancels (tm_serial t) (LUdev ev) \<Longrightarrow> tm_cancelled t = None \<Longrightarrow> tm_token t \<in> {tok}"
    using s t(1) ev by (auto simp: mon_ok_def timer_ok_def)
  ultimately show ?thesis using origin_cancel_in [of t s "LUdev ev" "{tok}"] by simp
next
  case False
  have keep: "t' \<in> set (mo_timers s) \<Longrightarrow> timer_origin cfg s (LUdev ev) t'"
    using s False by (force simp: timer_origin_def mon_ok_def timer_ok_def)
  show ?thesis
  proof (cases "t' \<in> set (mo_timers s)")
    case fresh: False
    with t' False show ?thesis
      by (auto simp: handle_udev_def Let_def timer_origin_def removal_def
          split: udev_action.splits option.splits if_splits)
  qed (rule keep)
qed

lemma origin_step:
  assumes "mstep cfg E s l s'" and s: "mon_ok cfg s" and "t' \<in> set (mo_timers s')"
  shows "timer_origin cfg s l t'"
  using assms(1)
proof cases
  case (ipc present ok req)
  with assms(3) show ?thesis by (simp add: timer_origin_def handle_ipc_frame)
next
  case (udev ev)
  with s assms(3) show ?thesis by (simp add: origin_udev)
next
  case (logind ok sig)
  show ?thesis
  proof (cases "sig = PrepareForSleep True")
    case True
    have "mo_timers (cancel_all (s\<lparr>mo_suspend := x\<rparr>)) = mo_timers (cancel_all s)" for x
      by (simp add: cancel_all_eq)
    with True logind s assms(3) show ?thesis by (simp add: origin_cancel_all)
  next
    case False
    with logind assms(3) show ?thesis by (simp add: timer_origin_def handle_logind_frame)
  qed
next
  case (shutdown)
  with s assms(3) show ?thesis by (simp add: origin_cancel_all handle_shutdown_def)
qed (use assms(3) in \<open>auto simp: timer_origin_def fire_timer_def drop_timer_def\<close>)

text \<open>Every pending timer, and every action sent, rests on a removal in the trace.\<close>

definition timers_grounded :: "state_config \<Rightarrow> mtrace \<Rightarrow> monitor \<Rightarrow> bool" where
  "timers_grounded cfg tr s \<longleftrightarrow>
     (\<forall>t \<in> set (mo_timers s). grounded cfg tr (tm_serial t) (tm_started t) (tm_sessions t) (tm_cancelled t))"

definition action_grounded :: "state_config \<Rightarrow> mtrace \<Rightarrow> sent_action \<Rightarrow> bool" where
  "action_grounded cfg tr a \<longleftrightarrow>
     (\<exists>xs. request_session (sa_request a) \<in> set xs \<and>
        grounded cfg tr (sa_serial a) (sa_started a) xs (Some (sa_started a + from_secs (cf_grace_seconds cfg))))"

lemma timers_grounded_step:
  assumes "mstep cfg E s l s'" and s: "mon_ok cfg s" and g: "timers_grounded cfg tr s"
  shows "timers_grounded cfg (tr @ [(s, l)]) s'"
  unfolding timers_grounded_def
proof
  fix t' assume "t' \<in> set (mo_timers s')"
  from origin_step [OF assms(1) s this]
  consider (old) "t' \<in> set (mo_timers s)" "cancels (tm_serial t') l \<longrightarrow> tm_cancelled t' \<noteq> None"
    | (cut) t where "t \<in> set (mo_timers s)" "tm_cancelled t = None" "t' = t\<lparr>tm_cancelled := Some (mo_now s)\<rparr>"
    | (new) "removal cfg (tm_serial t') (tm_started t') (tm_sessions t') (s, l)" "tm_cancelled t' = None"
    unfolding timer_origin_def by (elim disjE conjE bexE)
  then show "grounded cfg (tr @ [(s, l)]) (tm_serial t') (tm_started t') (tm_sessions t') (tm_cancelled t')"
  proof cases
    case old
    with s have "kept_until (tm_serial t') (tm_cancelled t') [(s, l)]"
      by (auto simp: kept_until_def mon_ok_def timer_ok_def split: option.splits)
    with old g show ?thesis by (simp add: timers_grounded_def grounded_snoc)
  next
    case cut
    from cut g have "grounded cfg tr (tm_serial t) (tm_started t) (tm_sessions t) None"
      by (force simp: timers_grounded_def)
    then have "grounded cfg tr (tm_serial t) (tm_started t) (tm_sessions t) (Some (mo_now s))"
      by (rule grounded_weaken) (auto simp: kept_until_def)
    with cut show ?thesis by (simp add: grounded_snoc kept_until_def)
  next
    case new
    then show ?thesis
      unfolding grounded_def by (intro exI [of _ tr] exI [of _ "(s, l)"] exI [of _ "[]"]) (simp add: kept_until_def)
  qed
qed

lemma actions_step:
  assumes "mstep cfg E s l s'" and "a \<in> set (mo_actions s')" and "a \<notin> set (mo_actions s)"
  obtains t x where "t \<in> set (mo_timers s)" "may_fire (mo_now s) t" "x \<in> set (tm_sessions t)" "l = LFire (tm_token t)"
    "a = \<lparr>sa_token = tm_token t, sa_serial = tm_serial t, sa_started = tm_started t,
          sa_at = mo_now s, sa_request = HandleUsbRemoved x (tm_action t)\<rparr>"
  using assms
  by (elim mstep.cases)
    (auto simp: handle_ipc_frame handle_logind_frame handle_udev_frame handle_shutdown_def cancel_all_eq
      fire_timer_def drop_timer_def)

lemma actions_mono: "mstep cfg E s l s' \<Longrightarrow> set (mo_actions s) \<subseteq> set (mo_actions s')"
  by (erule mstep.cases)
    (auto simp: handle_ipc_frame handle_logind_frame handle_udev_frame handle_shutdown_def cancel_all_eq
      fire_timer_def drop_timer_def)

lemma action_grounded_snoc:
  assumes "action_grounded cfg tr a" and "sa_started a + from_secs (cf_grace_seconds cfg) \<le> mo_now s"
  shows "action_grounded cfg (tr @ [(s, l)]) a"
proof -
  from assms(1) obtain xs where xs: "request_session (sa_request a) \<in> set xs"
    "grounded cfg tr (sa_serial a) (sa_started a) xs (Some (sa_started a + from_secs (cf_grace_seconds cfg)))"
    unfolding action_grounded_def by blast
  have "kept_until (sa_serial a) (Some (sa_started a + from_secs (cf_grace_seconds cfg))) [(s, l)]"
    using assms(2) by (simp add: kept_until_def)
  with xs grounded_snoc show ?thesis unfolding action_grounded_def by metis
qed

lemma action_grounded_fire:
  assumes s: "mon_ok cfg s" and g: "timers_grounded cfg tr s" and t: "t \<in> set (mo_timers s)"
    and f: "may_fire (mo_now s) t" and x: "x \<in> set (tm_sessions t)"
    and a: "sa_serial a = tm_serial t" "sa_started a = tm_started t" "request_session (sa_request a) = x"
  shows "action_grounded cfg (tr @ [(s, LFire (tm_token t))]) a"
proof -
  have d: "tm_deadline t = tm_started t + from_secs (cf_grace_seconds cfg)"
    using s t by (simp add: mon_ok_def timer_ok_def)
  have "grounded cfg tr (tm_serial t) (tm_started t) (tm_sessions t) (tm_cancelled t)"
    using g t by (simp add: timers_grounded_def)
  then have "grounded cfg tr (tm_serial t) (tm_started t) (tm_sessions t) (Some (tm_deadline t))"
    by (rule grounded_weaken) (use f in \<open>force simp: kept_until_def may_fire_def split: option.splits\<close>)
  then have "grounded cfg (tr @ [(s, LFire (tm_token t))]) (tm_serial t) (tm_started t) (tm_sessions t) (Some (tm_deadline t))"
    by (rule grounded_snoc) (simp add: kept_until_def)
  with a x show ?thesis unfolding action_grounded_def d by (intro exI [of _ "tm_sessions t"]) simp
qed

lemma run_grounded:
  assumes "run cfg E s0 tr s" and "mon_ok cfg s0" and "mo_timers s0 = []" and "mo_actions s0 = []"
  shows "timers_grounded cfg tr s \<and> (\<forall>a \<in> set (mo_actions s). action_grounded cfg tr a)"
  using assms
proof (induction rule: run.induct)
  case run_nil
  then show ?case by (simp add: timers_grounded_def)
next
  case (run_snoc tr s l s')
  have s: "mon_ok cfg s" using run_snoc mon_ok_run by blast
  have ih: "timers_grounded cfg tr s" "\<And>a. a \<in> set (mo_actions s) \<Longrightarrow> action_grounded cfg tr a"
    using run_snoc by auto
  have "action_grounded cfg (tr @ [(s, l)]) a" if a: "a \<in> set (mo_actions s')" for a
  proof (cases "a \<in> set (mo_actions s)")
    case True
    with s have "sa_started a + from_secs (cf_grace_seconds cfg) \<le> mo_now s"
      by (force simp: mon_ok_def action_ok_def)
    with True ih show ?thesis by (simp add: action_grounded_snoc)
  next
    case False
    show ?thesis
      by (rule actions_step [OF run_snoc.hyps(2) a False]) (simp add: action_grounded_fire [OF s ih(1)])
  qed
  with timers_grounded_step [OF run_snoc.hyps(2) s ih(1)] show ?case by blast
qed

lemma init_run_grounded:
  assumes "distinct (map as_session_id ss)" and "run cfg E (monitor_init ss) tr s"
  shows "\<forall>a \<in> set (mo_actions s). action_grounded cfg tr a"
  using run_grounded [OF assms(2) mon_ok_init [OF assms(1)]] by (simp add: monitor_init_def)

section \<open>A removal is acted on\<close>

text \<open>Each token stands for one serial.\<close>

definition tokens_ok :: "monitor \<Rightarrow> bool" where
  "tokens_ok s \<longleftrightarrow>
     (\<forall>ser k. map_of (mo_grace_tokens s) ser = Some k \<longrightarrow> k < mo_next_token s) \<and>
     (\<forall>ser ser' k. map_of (mo_grace_tokens s) ser = Some k \<longrightarrow> map_of (mo_grace_tokens s) ser' = Some k \<longrightarrow> ser = ser')"

lemma tokens_ok_udev: "tokens_ok s \<Longrightarrow> tokens_ok (handle_udev cfg ev s)"
  by (cases "ue_action ev")
    (auto simp: tokens_ok_def handle_udev_def Let_def AList.update_conv' AList.delete_conv' less_Suc_eq split: option.split)

lemma tokens_ok_step: "mstep cfg E s l s' \<Longrightarrow> tokens_ok s \<Longrightarrow> tokens_ok s'"
proof (induction rule: mstep.induct)
  case (ipc s present ok req)
  then show ?case using handle_ipc_frame [of E present ok req s] by (simp add: tokens_ok_def)
next
  case (udev s ev)
  then show ?case by (simp add: tokens_ok_udev)
next
  case (logind s ok sig)
  then show ?case
    using handle_logind_frame [of ok sig s]
    by (cases "sig = PrepareForSleep True") (simp_all add: tokens_ok_def cancel_all_eq)
qed (simp_all add: tokens_ok_def handle_shutdown_def cancel_all_eq fire_timer_def drop_timer_def)

lemma tokens_ok_run: "run cfg E s0 tr s \<Longrightarrow> tokens_ok s0 \<Longrightarrow> tokens_ok s"
  by (induction rule: run.induct) (auto intro: tokens_ok_step)

lemma tokens_ok_init: "tokens_ok (monitor_init ss)"
  by (simp add: tokens_ok_def monitor_init_def)

lemma cancel_in_other: "tm_token t \<notin> S \<Longrightarrow> cancel_in now S t = t"
  by (simp add: cancel_in_def)

lemma timer_kept_udev:
  assumes s: "mon_ok cfg s" "tokens_ok s" and t: "t \<in> set (mo_timers s)" "tm_cancelled t = None"
    and n: "\<not> cancels (tm_serial t) (LUdev ev)"
  shows "t \<in> set (mo_timers (handle_udev cfg ev s))"
proof -
  have g: "map_of (mo_grace_tokens s) (tm_serial t) = Some (tm_token t)"
    using s(1) t by (force simp: mon_ok_def timer_ok_def)
  have "t \<in> set (map (cancel_in (mo_now s) {tok}) (mo_timers s))"
    if "ue_action ev = UdevAdd" "ue_serial ev = Some ser" "map_of (mo_grace_tokens s) ser = Some tok" for ser tok
  proof -
    have "tok \<noteq> tm_token t" using s(2) g n that by (auto simp: tokens_ok_def)
    then have "cancel_in (mo_now s) {tok} t = t" by (simp add: cancel_in_other)
    with t(1) show ?thesis by (metis image_eqI list.set_map)
  qed
  with t(1) show ?thesis
    by (cases "ue_action ev") (auto simp: handle_udev_def Let_def cancel_token_in split: option.split)
qed

lemma timer_kept_step:
  assumes st: "mstep cfg E s l s'" and s: "mon_ok cfg s" "tokens_ok s"
    and t: "t \<in> set (mo_timers s)" "tm_cancelled t = None" and n: "\<not> cancels (tm_serial t) l"
  shows "t \<in> set (mo_timers s') \<or> (may_fire (mo_now s) t \<and> s' = fire_timer t s)"
  using st
proof cases
  case (ipc present ok req)
  with t show ?thesis by (simp add: handle_ipc_frame)
next
  case (udev ev)
  with s t n show ?thesis by (simp add: timer_kept_udev)
next
  case (logind ok sig)
  with t n show ?thesis by (simp add: handle_logind_frame)
next
  case (fire t')
  then show ?thesis using s(1) t
    by (cases "tm_token t' = tm_token t")
      (auto simp: fire_timer_def mon_ok_def distinct_map inj_on_def)
next
  case (drop t')
  with s(1) t have "tm_token t' \<noteq> tm_token t" by (auto simp: mon_ok_def distinct_map inj_on_def)
  with drop t show ?thesis by (simp add: drop_timer_def)
qed (use t n in simp_all)

lemma acted_run:
  assumes "run cfg E s1 tr s2" and "mon_ok cfg s1" and "tokens_ok s1"
    and "t \<in> set (mo_timers s1)" and "tm_cancelled t = None" and "\<forall>e \<in> set tr. \<not> cancels (tm_serial t) (snd e)"
  shows "t \<in> set (mo_timers s2) \<or>
         (\<forall>x \<in> set (tm_sessions t). \<exists>a \<in> set (mo_actions s2). sa_token a = tm_token t \<and> request_session (sa_request a) = x)"
  using assms
proof (induction rule: run.induct)
  case (run_snoc tr s l s')
  have s: "mon_ok cfg s" "tokens_ok s" using run_snoc mon_ok_run tokens_ok_run by blast+
  have ih: "t \<in> set (mo_timers s) \<or>
      (\<forall>x \<in> set (tm_sessions t). \<exists>a \<in> set (mo_actions s). sa_token a = tm_token t \<and> request_session (sa_request a) = x)"
    using run_snoc by simp
  have n: "\<not> cancels (tm_serial t) l" using run_snoc.prems by simp
  have fired: "\<exists>a \<in> set (mo_actions (fire_timer t s)). sa_token a = tm_token t \<and> request_session (sa_request a) = x"
    if "x \<in> set (tm_sessions t)" for x
    using that by (simp add: fire_timer_def bex_Un)
  show ?case
  proof (cases "t \<in> set (mo_timers s)")
    case True
    with timer_kept_step [OF run_snoc.hyps(2) s True _ n] run_snoc.prems fired show ?thesis by blast
  next
    case False
    with ih actions_mono [OF run_snoc.hyps(2)] show ?thesis by blast
  qed
qed simp

section \<open>Persistence\<close>

text \<open>Labels whose write of \<open>sessions.json\<close> succeeds, where there is one.\<close>

fun write_ok :: "mlabel \<Rightarrow> bool" where
  "write_ok (LIpc present ok req) = ok"
| "write_ok (LLogind ok sig) = ok"
| "write_ok _ = True"

text \<open>The file and the registry hold the same sessions.\<close>

definition saved :: "monitor \<Rightarrow> bool" where
  "saved s \<longleftrightarrow> distinct (map as_session_id (mo_persisted s)) \<and> set (mo_persisted s) = ran (find_by_session_id (mo_registry s))"

lemma saved_persist: "reg_ok (mo_registry s) \<Longrightarrow> saved (persist True s)"
  by (simp add: saved_def persist_def snapshot_distinct reg.listing_ran)

lemma saved_frame:
  "saved s \<Longrightarrow> mo_registry s' = mo_registry s \<Longrightarrow> mo_persisted s' = mo_persisted s \<Longrightarrow> saved s'"
  by (simp add: saved_def)

lemma saved_ipc:
  assumes "reg_ok (mo_registry s)" and "saved s"
  shows "saved (snd (handle_ipc E present True req s))"
proof (cases req)
  case (ReqSessionOpen x)
  have "saved (persist True (s\<lparr>mo_registry := registry_add x (mo_registry s)\<rparr>))"
    using assms(1) by (simp add: saved_persist reg.invar_insert)
  with ReqSessionOpen assms(2) show ?thesis by (simp split: option.split)
next
  case (ReqSessionClose i c)
  with assms(1) show ?thesis by (simp add: saved_persist reg.invar_delete)
next
  case (ReqUpdateSessionTarget i t)
  have "saved (persist True (s\<lparr>mo_registry := snd (registry_update_target i t (mo_registry s))\<rparr>))"
    using assms(1) by (simp add: saved_persist reg.invar_retarget)
  with ReqUpdateSessionTarget assms(2) show ?thesis by (auto split: prod.splits sum.splits)
qed (use assms in \<open>auto split: option.splits\<close>)

lemma saved_logind:
  assumes "reg_ok (mo_registry s)" and "saved s"
  shows "saved (handle_logind True sig s)"
proof (cases "(True, sig, s)" rule: handle_logind.cases)
  case (3 ok i p s')
  have "reg_ok (fold (\<lambda>u g. snd (registry_remove u g)) us (mo_registry s))" for us
    using assms(1) by (rule reg.invar_delete_all)
  with 3 assms(2) show ?thesis by (simp add: Let_def saved_persist)
qed (use assms in \<open>auto simp: saved_def cancel_all_eq\<close>)

lemma saved_step:
  assumes "mstep cfg E s l s'" and "write_ok l" and "reg_ok (mo_registry s)" and "saved s"
  shows "saved s'"
  using assms
proof (induction rule: mstep.induct)
  case (udev s ev)
  with saved_frame [OF udev(4), of "handle_udev cfg ev s"] show ?case by (simp add: handle_udev_frame)
qed (simp_all add: saved_ipc saved_logind, simp_all add: saved_def handle_shutdown_def cancel_all_eq fire_timer_def drop_timer_def)

lemma saved_run:
  "run cfg E s0 tr s \<Longrightarrow> \<forall>e \<in> set tr. write_ok (snd e) \<Longrightarrow> mon_ok cfg s0 \<Longrightarrow> saved s0 \<Longrightarrow> saved s"
proof (induction rule: run.induct)
  case (run_snoc tr s l s')
  have "mon_ok cfg s" using run_snoc mon_ok_run by blast
  with run_snoc show ?case by (auto intro!: saved_step [OF run_snoc.hyps(2)] simp: mon_ok_def)
qed simp

lemma saved_init: "distinct (map as_session_id ss) \<Longrightarrow> saved (monitor_init ss)"
  using from_snapshot_facts [of ss] by (auto simp: saved_def monitor_init_def ran_def)

lemma saved_restart:
  assumes "saved s" and "reg_ok (mo_registry s)"
  shows "find_by_session_id (registry_from_snapshot (mo_persisted s)) = find_by_session_id (mo_registry s)"
proof (rule ext, rule option.expand)
  fix i
  have f: "find_by_session_id (registry_from_snapshot (mo_persisted s)) i = Some x \<longleftrightarrow>
          x \<in> ran (find_by_session_id (mo_registry s)) \<and> as_session_id x = i" for x
    using from_snapshot_facts [of "mo_persisted s"] assms(1) by (simp add: saved_def)
  have e: "find_by_session_id (registry_from_snapshot (mo_persisted s)) i = Some x \<longleftrightarrow>
          find_by_session_id (mo_registry s) i = Some x" for x
    unfolding f using reg.lookup_id [OF assms(2)] by (auto simp: ran_def)
  show "(find_by_session_id (registry_from_snapshot (mo_persisted s)) i = None) =
        (find_by_session_id (mo_registry s) i = None)"
    using e by (metis option.exhaust)
  show "the (find_by_session_id (registry_from_snapshot (mo_persisted s)) i) = the (find_by_session_id (mo_registry s) i)"
    if "find_by_session_id (registry_from_snapshot (mo_persisted s)) i \<noteq> None"
       "find_by_session_id (mo_registry s) i \<noteq> None"
    using e that by force
qed

inductive_cases run_snocE: "run cfg E s0 (tr @ [e]) s"

lemma run_prefix: "run cfg E s0 (tr1 @ e # tr2) s \<Longrightarrow> run cfg E s0 tr1 (fst e)"
proof (induction tr2 arbitrary: s rule: rev_induct)
  case Nil
  then show ?case by (auto elim: run_snocE)
next
  case (snoc x tr2)
  then have "run cfg E s0 ((tr1 @ e # tr2) @ [x]) s" by simp
  then obtain s' where "run cfg E s0 (tr1 @ e # tr2) s'" by (rule run_snocE) blast
  then show ?case by (rule snoc.IH)
qed

section \<open>Properties\<close>

text \<open>A session on a USB key, whose key is pulled and stays away.\<close>

definition demo_cfg :: state_config where
  "demo_cfg = \<lparr>cf_grace_seconds = 5, cf_suspend_grace_seconds = 30, cf_on_usb_removed = Lock\<rparr>"

definition demo_env :: monitor_env where
  "demo_env = \<lparr>me_version = ''1'', me_uuid_to_string = (\<lambda>u. to_decimal (unat u))\<rparr>"

definition demo_remove :: udev_event where
  "demo_remove = \<lparr>ue_action = UdevRemove, ue_devnode = None, ue_serial = Some ''USB1'', ue_vid_pid = None, ue_is_usb = True\<rparr>"

definition demo_m0 :: monitor where
  "demo_m0 = monitor_init [demo_session1]"

definition demo_m1 :: monitor where
  "demo_m1 = handle_udev demo_cfg demo_remove demo_m0"

definition demo_m2 :: monitor where
  "demo_m2 = demo_m1\<lparr>mo_now := mo_now demo_m1 + 5000000000\<rparr>"

definition demo_timer :: timer where
  "demo_timer = \<lparr>tm_token = 0, tm_serial = ''USB1'', tm_sessions = [demo_session1], tm_action = Lock,
     tm_started = 0, tm_deadline = 5000000000, tm_cancelled = None\<rparr>"

definition demo_sent :: sent_action where
  "demo_sent = \<lparr>sa_token = 0, sa_serial = ''USB1'', sa_started = 0, sa_at = 5000000000,
     sa_request = HandleUsbRemoved demo_session1 Lock\<rparr>"

lemma demo_m1_eq: "demo_m1 = demo_m0\<lparr>mo_next_token := 1, mo_grace_tokens := [(''USB1'', 0)], mo_timers := [demo_timer]\<rparr>"
  by (simp add: demo_m1_def demo_m0_def handle_udev_def demo_remove_def demo_cfg_def demo_timer_def monitor_init_def
      registry_from_snapshot_def snapshot_insert_def registry_new_def find_by_serial_def demo_session1_def from_secs_def Let_def)

lemma demo_m0_simps:
  "mo_timers demo_m0 = []" "mo_actions demo_m0 = []" "mo_now demo_m0 = 0" "mo_running demo_m0 = True"
  "mo_suspend demo_m0 = Awake" "mo_grace_tokens demo_m0 = []"
  by (simp_all add: demo_m0_def monitor_init_def)

lemma demo_run1: "run demo_cfg demo_env (monitor_init [demo_session1]) [(demo_m0, LUdev demo_remove)] demo_m1"
proof -
  have "run demo_cfg demo_env demo_m0 ([] @ [(demo_m0, LUdev demo_remove)]) demo_m1"
    unfolding demo_m1_def by (intro run.intros mstep.udev) (simp add: demo_m0_simps)
  then show ?thesis by (simp add: demo_m0_def)
qed

lemma demo_run2:
  "run demo_cfg demo_env demo_m1 [(demo_m1, LTick 5000000000)] demo_m2"
proof -
  have "run demo_cfg demo_env demo_m1 ([] @ [(demo_m1, LTick 5000000000)]) demo_m2"
    unfolding demo_m2_def by (intro run.intros mstep.tick) simp
  then show ?thesis by simp
qed

lemma demo_run3:
  "run demo_cfg demo_env (monitor_init [demo_session1])
     [(demo_m0, LUdev demo_remove), (demo_m1, LTick 5000000000), (demo_m2, LFire 0)] (fire_timer demo_timer demo_m2)"
proof -
  have "mstep demo_cfg demo_env demo_m1 (LTick 5000000000) demo_m2"
    unfolding demo_m2_def by (rule mstep.tick) simp
  moreover have "mstep demo_cfg demo_env demo_m2 (LFire (tm_token demo_timer)) (fire_timer demo_timer demo_m2)"
    by (rule mstep.fire) (simp_all add: demo_m2_def demo_m1_eq may_fire_def demo_timer_def demo_m0_simps)
  ultimately have "run demo_cfg demo_env (monitor_init [demo_session1])
     (([(demo_m0, LUdev demo_remove)] @ [(demo_m1, LTick 5000000000)]) @ [(demo_m2, LFire (tm_token demo_timer))])
     (fire_timer demo_timer demo_m2)"
    using demo_run1 by (blast intro: run.intros)
  then show ?thesis by (simp add: demo_timer_def)
qed

lemma demo_sent_in: "demo_sent \<in> set (mo_actions (fire_timer demo_timer demo_m2))"
  by (simp add: fire_timer_def demo_timer_def demo_m2_def demo_m1_eq demo_sent_def demo_m0_simps)

text \<open>
  C3. No action without cause: every action the state manager sends, in any execution from a
  start, goes to a session that was registered with the serial of the key when a removal of that
  key was handled outside the suspend window. The grace period has passed since that removal, and
  within it the key was not added again, no suspend was announced and the daemon was not shut down.
  The action is the configured one.
\<close>

theorem action_justified:
  assumes "distinct (map as_session_id ss)" and "run cfg E (monitor_init ss) tr s" and "a \<in> set (mo_actions s)"
  shows "request_action (sa_request a) = cf_on_usb_removed cfg \<and>
    sa_started a + from_secs (cf_grace_seconds cfg) \<le> sa_at a \<and>
    (\<exists>tr1 si ev tr2. tr = tr1 @ (si, LUdev ev) # tr2 \<and> ue_action ev = UdevRemove \<and>
       ue_serial ev = Some (sa_serial a) \<and> mo_now si = sa_started a \<and>
       \<not> is_in_grace_window (mo_suspend si) (mo_now si) (cf_suspend_grace_seconds cfg) \<and>
       find_by_session_id (mo_registry si) (as_session_id (request_session (sa_request a))) =
         Some (request_session (sa_request a)) \<and>
       as_usb_serial (request_session (sa_request a)) = Some (sa_serial a) \<and>
       (\<forall>e \<in> set tr2. cancels (sa_serial a) (snd e) \<longrightarrow>
          sa_started a + from_secs (cf_grace_seconds cfg) \<le> mo_now (fst e)))"
proof (intro conjI)
  have ok: "mon_ok cfg s" using mon_ok_run [OF assms(2) mon_ok_init [OF assms(1)]] .
  with assms(3) show "request_action (sa_request a) = cf_on_usb_removed cfg"
    "sa_started a + from_secs (cf_grace_seconds cfg) \<le> sa_at a"
    by (simp_all add: mon_ok_def action_ok_def)
  from init_run_grounded [OF assms(1,2)] assms(3) obtain tr1 e tr2 xs where
    g: "request_session (sa_request a) \<in> set xs" "tr = tr1 @ e # tr2"
      "removal cfg (sa_serial a) (sa_started a) xs e"
      "kept_until (sa_serial a) (Some (sa_started a + from_secs (cf_grace_seconds cfg))) tr2"
    unfolding action_grounded_def grounded_def by blast
  obtain si l where e: "e = (si, l)" by (cases e)
  have "run cfg E (monitor_init ss) tr1 si" using run_prefix assms(2) g(2) e by fastforce
  then have "reg_ok (mo_registry si)" using mon_ok_run mon_ok_init [OF assms(1)] unfolding mon_ok_def by blast
  with g e show "\<exists>tr1 si ev tr2. tr = tr1 @ (si, LUdev ev) # tr2 \<and> ue_action ev = UdevRemove \<and>
       ue_serial ev = Some (sa_serial a) \<and> mo_now si = sa_started a \<and>
       \<not> is_in_grace_window (mo_suspend si) (mo_now si) (cf_suspend_grace_seconds cfg) \<and>
       find_by_session_id (mo_registry si) (as_session_id (request_session (sa_request a))) =
         Some (request_session (sa_request a)) \<and>
       as_usb_serial (request_session (sa_request a)) = Some (sa_serial a) \<and>
       (\<forall>e \<in> set tr2. cancels (sa_serial a) (snd e) \<longrightarrow>
          sa_started a + from_secs (cf_grace_seconds cfg) \<le> mo_now (fst e))"
    by (intro exI [of _ tr1] exI [of _ si], simp add: removal_def kept_until_def, clarify)
      (simp add: in_find_by_serial)
qed

lemma action_justified_witness:
  "sa_started demo_sent + from_secs 5 \<le> sa_at demo_sent \<and>
   request_action (sa_request demo_sent) = cf_on_usb_removed demo_cfg"
  using action_justified [OF _ demo_run3 demo_sent_in] by (simp add: demo_cfg_def)

text \<open>
  No removal is acted on twice: in any execution the actions sent name each pair of a
  removal and a session at most once.
\<close>

theorem action_once:
  assumes "distinct (map as_session_id ss)" and "run cfg E (monitor_init ss) tr s"
  shows "distinct (map (\<lambda>a. (sa_token a, as_session_id (request_session (sa_request a)))) (mo_actions s))"
  using mon_ok_run [OF assms(2) mon_ok_init [OF assms(1)]] by (simp add: mon_ok_def action_key_def [abs_def])

lemma action_once_witness:
  "distinct (map (\<lambda>a. (sa_token a, as_session_id (request_session (sa_request a))))
     (mo_actions (fire_timer demo_timer demo_m2)))"
  by (rule action_once [OF _ demo_run3]) simp


lemma demo_init: "run demo_cfg demo_env (monitor_init [demo_session1]) [] demo_m0"
  unfolding demo_m0_def by (rule run_nil)

lemma demo_registered: "find_by_session_id (mo_registry demo_m0) (as_session_id demo_session1) = Some demo_session1"
  by (simp add: demo_m0_def monitor_init_def registry_from_snapshot_def snapshot_insert_def registry_new_def
      find_by_session_id_def demo_session1_def)


text \<open>
  A session closed during the grace period is still acted on: \<open>SessionClose\<close> removes the
  session from the registry and leaves the pending timer alone, so that at its deadline the timer
  sends the action for the session that is no longer registered.
\<close>

theorem closed_session_still_acted:
  assumes "t \<in> set (mo_timers s)" and "tm_cancelled t = None" and "x \<in> set (tm_sessions t)" and "mo_running s"
    and "mo_now s \<le> tm_deadline t"
  shows "\<exists>s1 s2 s3. mstep cfg E s (LIpc present ok (ReqSessionClose (as_session_id x) c)) s1 \<and>
           find_by_session_id (mo_registry s1) (as_session_id x) = None \<and>
           mstep cfg E s1 (LTick (tm_deadline t - mo_now s)) s2 \<and>
           mstep cfg E s2 (LFire (tm_token t)) s3 \<and>
           find_by_session_id (mo_registry s3) (as_session_id x) = None \<and>
           x \<in> (request_session \<circ> sa_request) ` set (mo_actions s3)"
proof (intro exI conjI)
  let ?s1 = "snd (handle_ipc E present ok (ReqSessionClose (as_session_id x) c) s)"
  let ?s2 = "?s1\<lparr>mo_now := mo_now ?s1 + (tm_deadline t - mo_now s)\<rparr>"
  show "mstep cfg E s (LIpc present ok (ReqSessionClose (as_session_id x) c)) ?s1"
    using assms(4) by (rule mstep.ipc)
  show "mstep cfg E ?s1 (LTick (tm_deadline t - mo_now s)) ?s2"
    using assms(5) by (intro mstep.tick) simp
  show "mstep cfg E ?s2 (LFire (tm_token t)) (fire_timer t ?s2)"
    using assms(1,2) by (intro mstep.fire) (simp_all add: may_fire_def)
  show "x \<in> (request_session \<circ> sa_request) ` set (mo_actions (fire_timer t ?s2))"
    using assms(3) by (force simp: fire_timer_def image_Un image_image)
qed (simp_all add: find_remove fire_timer_def)

lemma closed_session_still_acted_witness:
  "\<exists>s1 s2 s3. mstep demo_cfg demo_env demo_m1 (LIpc (\<lambda>_. True) True (ReqSessionClose (as_session_id demo_session1) 0)) s1 \<and>
     find_by_session_id (mo_registry s1) (as_session_id demo_session1) = None \<and>
     mstep demo_cfg demo_env s1 (LTick (tm_deadline demo_timer - mo_now demo_m1)) s2 \<and>
     mstep demo_cfg demo_env s2 (LFire (tm_token demo_timer)) s3 \<and>
     find_by_session_id (mo_registry s3) (as_session_id demo_session1) = None \<and>
     demo_session1 \<in> (request_session \<circ> sa_request) ` set (mo_actions s3)"
  by (rule closed_session_still_acted) (simp_all add: demo_m1_eq demo_m0_simps demo_timer_def)

text \<open>
  A key pulled around a suspend is forgotten: when every removal of a serial in an execution
  is handled inside the suspend window, no action is ever sent for it, however long the key stays
  away and whatever the state of its sessions.
\<close>

theorem suspend_removal_forgotten:
  assumes "distinct (map as_session_id ss)" and "run cfg E (monitor_init ss) tr s"
    and "\<forall>(si, l) \<in> set tr. \<forall>ev. l = LUdev ev \<longrightarrow> ue_action ev = UdevRemove \<longrightarrow> ue_serial ev = Some ser \<longrightarrow>
           is_in_grace_window (mo_suspend si) (mo_now si) (cf_suspend_grace_seconds cfg)"
  shows "\<forall>a \<in> set (mo_actions s). sa_serial a \<noteq> ser"
proof (intro ballI notI)
  fix a assume a: "a \<in> set (mo_actions s)" "sa_serial a = ser"
  from init_run_grounded [OF assms(1,2)] a(1) obtain tr1 e tr2 xs where
    "tr = tr1 @ e # tr2" "removal cfg (sa_serial a) (sa_started a) xs e"
    unfolding action_grounded_def grounded_def by blast
  with assms(3) a(2) show False by (cases e) (auto simp: removal_def)
qed

definition demo_s1 :: monitor where
  "demo_s1 = handle_logind True (PrepareForSleep True) demo_m0"

definition demo_s3 :: monitor where
  "demo_s3 = (handle_udev demo_cfg demo_remove demo_s1)\<lparr>mo_now := 1000000000000\<rparr>"

lemma demo_sleep_run:
  "run demo_cfg demo_env (monitor_init [demo_session1])
     [(demo_m0, LLogind True (PrepareForSleep True)), (demo_s1, LUdev demo_remove),
      (handle_udev demo_cfg demo_remove demo_s1, LTick 1000000000000)] demo_s3"
proof -
  have "run demo_cfg demo_env demo_m0 (([] @ [(demo_m0, LLogind True (PrepareForSleep True))]) @ [(demo_s1, LUdev demo_remove)])
          (handle_udev demo_cfg demo_remove demo_s1)"
    unfolding demo_s1_def by (intro run.intros mstep.intros) (simp_all add: demo_m0_simps cancel_all_def)
  moreover have "mstep demo_cfg demo_env (handle_udev demo_cfg demo_remove demo_s1) (LTick 1000000000000) demo_s3"
    using mstep.tick [of 1000000000000 demo_cfg demo_env "handle_udev demo_cfg demo_remove demo_s1"]
    by (simp add: demo_s3_def handle_udev_frame demo_s1_def cancel_all_def demo_m0_simps)
  ultimately show ?thesis using run_snoc by (fastforce simp: demo_m0_def)
qed

lemma suspend_removal_forgotten_witness:
  "''USB1'' \<notin> sa_serial ` set (mo_actions demo_s3)"
proof -
  have "\<forall>a \<in> set (mo_actions demo_s3). sa_serial a \<noteq> ''USB1''"
    by (rule suspend_removal_forgotten [OF _ demo_sleep_run]) (simp_all add: demo_s1_def cancel_all_def)
  then show ?thesis by auto
qed

text \<open>
  The daemon survives a restart: in an execution in which every write of the registry file
  succeeds, a manager started from the file finds exactly the sessions that the running manager
  has, after every request, signal and event.
\<close>

theorem restart_keeps_sessions:
  assumes "distinct (map as_session_id ss)" and "run cfg E (monitor_init ss) tr s"
    and "\<forall>e \<in> set tr. write_ok (snd e)"
  shows "find_by_session_id (mo_registry (monitor_init (mo_persisted s))) = find_by_session_id (mo_registry s)"
proof -
  have "saved s" using saved_run [OF assms(2,3) mon_ok_init saved_init] assms(1) by blast
  moreover have "reg_ok (mo_registry s)"
    using mon_ok_run [OF assms(2) mon_ok_init [OF assms(1)]] by (simp add: mon_ok_def)
  ultimately show ?thesis by (simp add: monitor_init_def saved_restart)
qed

lemma restart_keeps_sessions_witness:
  "find_by_session_id (mo_registry (monitor_init (mo_persisted demo_m1))) = find_by_session_id (mo_registry demo_m1)"
  by (rule restart_keeps_sessions [OF _ demo_run1]) simp_all

text \<open>
  Admission and removal: a session on a key that udev no longer knows is refused and nothing
  changes; every other session is registered under its id. When logind reports the end of a
  session, exactly the registered sessions with that logind id are dropped.
\<close>

theorem registration_follows_requests:
  assumes "reg_ok (mo_registry s)"
  shows "(case handle_ipc E present ok (ReqSessionOpen x) s of (reply, s') \<Rightarrow>
            if \<exists>ser. as_usb_serial x = Some ser \<and> \<not> present ser
            then s' = s \<and> (\<exists>m. reply = ServerError DEVICE_GONE m)
            else reply = Ack \<and>
              find_by_session_id (mo_registry s') = (find_by_session_id (mo_registry s))(as_session_id x \<mapsto> x)) \<and>
         find_by_session_id (mo_registry (handle_logind ok (SessionRemoved i p) s)) u =
           (case find_by_session_id (mo_registry s) u of
              Some y \<Rightarrow> if logind_id (as_target y) = Some i then None else Some y | None \<Rightarrow> None)"
proof (intro conjI)
  show "case handle_ipc E present ok (ReqSessionOpen x) s of (reply, s') \<Rightarrow>
            if \<exists>ser. as_usb_serial x = Some ser \<and> \<not> present ser
            then s' = s \<and> (\<exists>m. reply = ServerError DEVICE_GONE m)
            else reply = Ack \<and>
              find_by_session_id (mo_registry s') = (find_by_session_id (mo_registry s))(as_session_id x \<mapsto> x)"
    by (auto simp: reg.lookup_insert fun_eq_iff split: option.splits)
  let ?P = "\<lambda>s. logind_id (as_target s) = Some i"
  have "mo_registry (handle_logind ok (SessionRemoved i p) s) =
          fold (\<lambda>u g. snd (registry_remove u g))
            (map as_session_id (filter ?P (registry_snapshot (mo_registry s)))) (mo_registry s)"
    by (simp add: Let_def)
  then show "find_by_session_id (mo_registry (handle_logind ok (SessionRemoved i p) s)) u =
           (case find_by_session_id (mo_registry s) u of
              Some y \<Rightarrow> if logind_id (as_target y) = Some i then None else Some y | None \<Rightarrow> None)"
    by (simp only: reg.lookup_delete_where [OF assms])
qed

lemma registration_follows_requests_witness:
  "find_by_session_id (mo_registry (handle_logind True (SessionRemoved ''3'' ''/'') demo_m0)) 1 = Some demo_session1"
proof -
  have "reg_ok (mo_registry demo_m0)" using mon_ok_init [of "[demo_session1]"] by (simp add: mon_ok_def demo_m0_def)
  from registration_follows_requests [OF this, where i = "''3''" and p = "''/''" and u = 1 and ok = True]
  show ?thesis using demo_registered by (simp add: demo_session1_def)
qed

text \<open>
  What the runner does: power-off and the hook are always carried out, lock and logout exactly
  for the sessions whose target is a logind session; for any other target the action is dropped
  with an error and no call is made, whatever the backend.
\<close>

lemma action_handle_calls:
  "action_handle E exec (HandleUsbRemoved x act) =
     (case (act, as_target x) of
        (Hook path, _) \<Rightarrow> exec (RunHook path (hook_env E x))
      | (Shutdown, _) \<Rightarrow> exec PowerOff
      | (Lock, LogindSession i) \<Rightarrow> exec (LockSession i)
      | (Logout, LogindSession i) \<Rightarrow> exec (TerminateSession i)
      | (Lock, _) \<Rightarrow> Err ''Lock requested but session has no logind id''
      | (Logout, _) \<Rightarrow> Err ''Logout requested but session has no logind id'')"
  by (cases act; cases "as_target x") (simp_all add: ok_or_def)

end
