(* ===== verification/Ipc_Server.thy ===== *)
theory Ipc_Server
  imports Monitor
begin

text \<open>
  The IPC server of the monitor daemon (\<open>server.rs\<close>, \<open>peercred.rs\<close>): who may connect, the
  \<open>Hello\<close> handshake, bounded frame reading and the dispatch of requests to the state manager.

  What arrives on a socket is a list of read events: a chunk of bytes that one \<open>read\<close> returns, the
  expiry of the timer around the current read, or an I/O error; the end of the list is the end of
  the stream, as is a read of no bytes. What the server writes is the list of its frames; writes
  succeed (a failed write ends the connection at that point, after the same requests). The state
  manager is a function from a request and a state to its answer and the next state.
\<close>

section \<open>Peer credentials\<close>

record peer_cred =
  pc_uid :: u32
  pc_gid :: u32
  pc_pid :: "int option"

datatype cred_error = CredLookup string | CredUnauthorized u32

definition verify_peer_credentials :: "(string, peer_cred) result \<Rightarrow> (cred_error, peer_cred) result" where
  "verify_peer_credentials stream_cred =
     and_then (map_err CredLookup stream_cred) (\<lambda>pc.
       if pc_uid pc \<noteq> 0 then Err (CredUnauthorized (pc_uid pc)) else Ok pc)"

section \<open>Reading\<close>

datatype read_event = Chunk bytes | Expire | ReadError string

datatype srv_error =
    HandshakeTimeout
  | SrvIo string
  | SrvDecode string
  | SrvEncode wire_error
  | HelloExpected
  | VersionMismatch u32 u32
  | SrvUnauthorized string

text \<open>\<open>read_line\<close> on a fresh \<open>BufReader\<close> that is dropped afterwards: what the last read returned
  beyond the newline is gone.\<close>

fun read_line :: "bytes \<Rightarrow> read_event list \<Rightarrow> (srv_error, bytes) result \<times> read_event list" where
  "read_line acc [] = (Ok acc, [])"
| "read_line acc (Chunk c # es) =
     (if c = [] then (Ok acc, es)
      else if LF \<in> set c then (Ok (acc @ takeWhile (\<lambda>b. b \<noteq> LF) c @ [LF]), es)
      else read_line (acc @ c) es)"
| "read_line acc (Expire # es) = (Err HandshakeTimeout, es)"
| "read_line acc (ReadError e # es) = (Err (SrvIo e), es)"

datatype frame_outcome = Frame | Eof | Oversize

datatype read_result = Outcome frame_outcome | TimedOut | IoFailed string

fun read_frame_bounded ::
  "nat \<Rightarrow> bytes \<Rightarrow> bytes \<Rightarrow> read_event list \<Rightarrow> read_result \<times> bytes \<times> bytes \<times> read_event list" where
  "read_frame_bounded mx buf (b # pend) es =
     (if mx \<le> length buf then (Outcome Oversize, buf, pend, es)
      else if b = LF then (Outcome Frame, buf @ [b], pend, es)
      else read_frame_bounded mx (buf @ [b]) pend es)"
| "read_frame_bounded mx buf [] [] = (Outcome (if buf = [] then Eof else Frame), buf, [], [])"
| "read_frame_bounded mx buf [] (Chunk c # es) =
     (if c = [] then (Outcome (if buf = [] then Eof else Frame), buf, [], es)
      else read_frame_bounded mx buf c es)"
| "read_frame_bounded mx buf [] (Expire # es) = (TimedOut, buf, [], es)"
| "read_frame_bounded mx buf [] (ReadError e # es) = (IoFailed e, buf, [], es)"

section \<open>The handshake\<close>

record server =
  sv_version :: string
  sv_client :: "client_message codec"
  sv_server :: "server_message codec"

text \<open>\<open>send_error(..).await.ok()\<close>: an error frame, or nothing when it cannot be encoded.\<close>

definition send_error :: "server \<Rightarrow> u32 \<Rightarrow> string \<Rightarrow> bytes list" where
  "send_error S code msg =
     (case encode_message (sv_server S) (ServerError code msg) of Inr b \<Rightarrow> [b] | Inl _ \<Rightarrow> [])"

fun handshake_error :: "wire_error \<Rightarrow> srv_error" where
  "handshake_error (WireDecode e) = SrvDecode e"
| "handshake_error other = SrvEncode other"

definition perform_handshake ::
  "server \<Rightarrow> read_event list \<Rightarrow> (srv_error, unit) result \<times> bytes list \<times> read_event list" where
  "perform_handshake S es =
     (case read_line [] es of
        (Inl e, es') \<Rightarrow> (Err e, [], es')
      | (Inr line, es') \<Rightarrow>
          if \<not> utf8_valid line then (Err (SrvIo ''stream did not contain valid UTF-8''), [], es')
          else if line = [] then (Err HelloExpected, [], es')
          else (case decode_line (sv_client S) (str_of_bytes line) of
              Inl e \<Rightarrow> (Err (handshake_error e), [], es')
            | Inr (Hello pv client) \<Rightarrow>
                if pv \<noteq> PROTOCOL_VERSION
                then (Err (VersionMismatch PROTOCOL_VERSION pv),
                      send_error S PROTOCOL_MISMATCH
                        (''server v'' @ to_decimal (unat PROTOCOL_VERSION) @ '' != client v'' @ to_decimal (unat pv)),
                      es')
                else (case encode_message (sv_server S) (HelloAck (sv_version S) PROTOCOL_VERSION) of
                    Inl e \<Rightarrow> (Err (SrvEncode e), [], es')
                  | Inr b \<Rightarrow> (Ok (), [b], es'))
            | Inr _ \<Rightarrow> (Err HelloExpected, send_error S BAD_REQUEST ''expected Hello as first frame'', es')))"

section \<open>Dispatch\<close>

datatype mgr_reply = SendFailed | NoReply | Reply server_message

type_synonym 'm manager = "ipc_request \<Rightarrow> 'm \<Rightarrow> mgr_reply \<times> 'm"

definition internal_error :: server_message where
  "internal_error = ServerError INTERNAL ''monitord internal error''"

fun await_reply :: "mgr_reply \<Rightarrow> server_message" where
  "await_reply (Reply m) = m"
| "await_reply _ = internal_error"

definition session_of_payload :: "session_open_payload \<Rightarrow> active_session" where
  "session_of_payload p =
     \<lparr>as_session_id = sp_session_id p, as_pam_user = sp_pam_user p, as_pam_service = sp_pam_service p,
      as_target = sp_target p, as_usb_serial = sp_usb_serial p, as_host_id_hash = sp_host_id_hash p,
      as_opened_at = sp_opened_at p, as_cert_cn = sp_cert_cn p, as_cert_serial = sp_cert_serial p,
      as_engineer_ski = sp_engineer_ski p, as_engineer_cert_sha256 = sp_engineer_cert_sha256 p,
      as_uid = sp_uid p\<rparr>"

fun dispatch :: "'m manager \<Rightarrow> client_message \<Rightarrow> 'm \<Rightarrow> server_message \<times> 'm" where
  "dispatch mgr (Hello v c) st = (ServerError BAD_REQUEST ''Hello already processed'', st)"
| "dispatch mgr Ping st =
     (case mgr ReqPing st of
        (SendFailed, st') \<Rightarrow> (ServerError INTERNAL ''state manager gone'', st')
      | (r, st') \<Rightarrow> (await_reply r, st'))"
| "dispatch mgr (SessionOpen p) st = map_prod await_reply id (mgr (ReqSessionOpen (session_of_payload p)) st)"
| "dispatch mgr (GetActiveSessionByUid uid) st = map_prod await_reply id (mgr (ReqGetActiveSessionByUid uid) st)"
| "dispatch mgr (SessionClose i t) st = map_prod await_reply id (mgr (ReqSessionClose i t) st)"
| "dispatch mgr (UpdateSessionTarget i t) st = map_prod await_reply id (mgr (ReqUpdateSessionTarget i t) st)"

text \<open>The state manager of the daemon as seen from a connection.\<close>

definition state_manager :: "monitor_env \<Rightarrow> (string \<Rightarrow> bool) \<Rightarrow> bool \<Rightarrow> monitor manager" where
  "state_manager E present ok req st =
     (if mo_running st then map_prod Reply id (handle_ipc E present ok req st) else (SendFailed, st))"

section \<open>A connection\<close>

fun event_size :: "read_event \<Rightarrow> nat" where
  "event_size (Chunk c) = Suc (length c)"
| "event_size _ = 1"

definition input_size :: "bytes \<Rightarrow> read_event list \<Rightarrow> nat" where
  "input_size pend es = length pend + sum_list (map event_size es)"

text \<open>The reply and the error frames of the loop: an encoding failure ends the connection.\<close>

definition final_error :: "server \<Rightarrow> u32 \<Rightarrow> string \<Rightarrow> (srv_error, unit) result \<times> bytes list" where
  "final_error S code msg =
     (case encode_message (sv_server S) (ServerError code msg) of
        Inr b \<Rightarrow> (Ok (), [b]) | Inl e \<Rightarrow> (Err (SrvEncode e), []))"

lemma read_frame_size:
  "read_frame_bounded mx buf pend es = (Outcome Frame, buf', pend', es') \<Longrightarrow>
   (buf = [] \<longrightarrow> input_size pend' es' < input_size pend es) \<and> input_size pend' es' \<le> input_size pend es"
  by (induction mx buf pend es rule: read_frame_bounded.induct)
    (auto simp: input_size_def split: if_splits)

function serve_loop ::
  "server \<Rightarrow> nat \<Rightarrow> 'm manager \<Rightarrow> bytes \<Rightarrow> read_event list \<Rightarrow> 'm \<Rightarrow> (srv_error, unit) result \<times> bytes list \<times> 'm" where
  "serve_loop S idle mgr pend es st =
     (case read_frame_bounded MAX_FRAME_BYTES [] pend es of
        (TimedOut, _, _, _) \<Rightarrow>
          (case final_error S PROTOCOL_VIOLATION (''idle timeout after '' @ to_decimal idle @ ''s'') of
             (r, out) \<Rightarrow> (r, out, st))
      | (IoFailed e, _, _, _) \<Rightarrow> (Err (SrvIo e), [], st)
      | (Outcome Eof, _, _, _) \<Rightarrow> (Ok (), [], st)
      | (Outcome Oversize, _, _, _) \<Rightarrow>
          (case final_error S PROTOCOL_VIOLATION (''frame exceeds '' @ to_decimal MAX_FRAME_BYTES @ '' bytes'') of
             (r, out) \<Rightarrow> (r, out, st))
      | (Outcome Frame, buf, pend', es') \<Rightarrow>
          if \<not> utf8_valid buf
          then (case final_error S BAD_REQUEST ''frame is not valid UTF-8'' of (r, out) \<Rightarrow> (r, out, st))
          else (case decode_line (sv_client S) (str_of_bytes buf) of
              Inl e \<Rightarrow> (case final_error S BAD_REQUEST (wire_error_to_string e) of (r, out) \<Rightarrow> (r, out, st))
            | Inr msg \<Rightarrow>
                (case dispatch mgr msg st of (reply, st') \<Rightarrow>
                   (case encode_message (sv_server S) reply of
                      Inl e \<Rightarrow> (Err (SrvEncode e), [], st')
                    | Inr b \<Rightarrow>
                        (case serve_loop S idle mgr pend' es' st' of (r, out, st'') \<Rightarrow> (r, b # out, st''))))))"
  by pat_completeness auto
termination
  by (relation "measure (\<lambda>(S, idle, mgr, pend, es, st). input_size pend es)") (auto dest: read_frame_size [OF sym])

definition serve_connection_with ::
  "server \<Rightarrow> nat \<Rightarrow> 'm manager \<Rightarrow> read_event list \<Rightarrow> 'm \<Rightarrow> (srv_error, unit) result \<times> bytes list \<times> 'm" where
  "serve_connection_with S idle mgr es st =
     (case perform_handshake S es of
        (Inl e, out, _) \<Rightarrow> (Err e, out, st)
      | (Inr _, out, es') \<Rightarrow>
          (case serve_loop S idle mgr [] es' st of (r, out', st') \<Rightarrow> (r, out @ out', st')))"

text \<open>One accepted stream: a peer that fails the check is dropped without an answer.\<close>

definition accept_connection ::
  "bool \<Rightarrow> (string, peer_cred) result \<Rightarrow> server \<Rightarrow> nat \<Rightarrow> 'm manager \<Rightarrow> read_event list \<Rightarrow> 'm \<Rightarrow> bytes list \<times> 'm" where
  "accept_connection enforce cred S idle mgr es st =
     (if enforce \<and> \<not> is_ok (verify_peer_credentials cred) then ([], st)
      else case serve_connection_with S idle mgr es st of (r, out, st') \<Rightarrow> (out, st'))"

section \<open>Reading frames\<close>

text \<open>The bytes of a stream that delivers data only.\<close>

fun chunk_bytes :: "read_event \<Rightarrow> bytes" where
  "chunk_bytes (Chunk c) = c"
| "chunk_bytes _ = []"

definition data_only :: "read_event list \<Rightarrow> bool" where
  "data_only es \<longleftrightarrow> (\<forall>e \<in> set es. chunk_bytes e \<noteq> [])"

definition stream_bytes :: "read_event list \<Rightarrow> bytes" where
  "stream_bytes es = concat (map chunk_bytes es)"

lemma stream_bytes_simps [simp]:
  "stream_bytes [] = []" "stream_bytes (e # es) = chunk_bytes e @ stream_bytes es"
  by (simp_all add: stream_bytes_def)

lemma data_only_simps [simp]:
  "data_only []" "data_only (e # es) \<longleftrightarrow> chunk_bytes e \<noteq> [] \<and> data_only es"
  by (simp_all add: data_only_def)

text \<open>A frame within the budget is found whatever the reads it arrives in.\<close>

lemma read_frame_found:
  assumes "data_only es" and "pend @ stream_bytes es = f @ LF # rest" and "LF \<notin> set f" and "length buf + length f < mx"
  shows "\<exists>pend' es'. read_frame_bounded mx buf pend es = (Outcome Frame, buf @ f @ [LF], pend', es') \<and>
           data_only es' \<and> pend' @ stream_bytes es' = rest"
  using assms
proof (induction mx buf pend es arbitrary: f rule: read_frame_bounded.induct)
  case (1 mx buf b pend es)
  show ?case
  proof (cases f)
    case Nil
    with 1 show ?thesis by auto
  next
    case (Cons c f')
    with "1.prems" have "b = c" "pend @ stream_bytes es = f' @ LF # rest" "b \<noteq> LF" by auto
    with 1 Cons show ?thesis by fastforce
  qed
next
  case (3 mx buf c es)
  then show ?case by simp
qed simp_all

text \<open>The buffer never grows beyond the budget.\<close>

lemma read_frame_bounded_buf:
  "read_frame_bounded mx buf pend es = (r, buf', pend', es') \<Longrightarrow> length buf \<le> mx \<Longrightarrow> length buf' \<le> mx"
  by (induction mx buf pend es rule: read_frame_bounded.induct) (auto split: if_splits)

lemma read_frame_eof: "read_frame_bounded mx [] [] [] = (Outcome Eof, [], [], [])"
  by simp

lemma stream_empty: "data_only es \<Longrightarrow> pend @ stream_bytes es = [] \<Longrightarrow> pend = [] \<and> es = []"
  by (cases es) auto

lemma read_frame_oversize:
  assumes "data_only es" and "pend @ stream_bytes es = f @ b # rest" and "LF \<notin> set f" and "length buf + length f = mx"
  shows "fst (read_frame_bounded mx buf pend es) = Outcome Oversize"
  using assms
proof (induction mx buf pend es arbitrary: f rule: read_frame_bounded.induct)
  case (1 mx buf b' pend es)
  then show ?case by (cases f) auto
next
  case (3 mx buf c es)
  then show ?case by simp
qed simp_all

section \<open>A conversation\<close>

text \<open>The answers to a list of messages, in order.\<close>

fun answers :: "'m manager \<Rightarrow> client_message list \<Rightarrow> 'm \<Rightarrow> server_message list \<times> 'm" where
  "answers mgr [] st = ([], st)"
| "answers mgr (q # qs) st =
     (case dispatch mgr q st of (r, st') \<Rightarrow> (case answers mgr qs st' of (rs, st'') \<Rightarrow> (r # rs, st'')))"

text \<open>The frames of a list of messages.\<close>

definition frames :: "'a codec \<Rightarrow> 'a list \<Rightarrow> bytes list \<Rightarrow> bool" where
  "frames J ms bs \<longleftrightarrow> list_all2 (\<lambda>m b. encode_message J m = Ok b) ms bs"

lemma decode_frame:
  assumes "json_codec J" and "encode_message J m = Ok b" and "length b \<le> MAX_FRAME_BYTES"
  obtains f where "b = f @ [LF]" "LF \<notin> set f" "utf8_valid b" "decode_line J (str_of_bytes b) = Ok m"
proof -
  obtain f where f: "b = f @ [LF]" "utf8_valid f" "LF \<notin> set f" "CR \<notin> set f" "js_from_slice J f = Ok m"
    using assms(1,2) by (rule encode_message_Ok)
  have "utf8_valid b" using f by (simp add: utf8_valid_append LF_def)
  moreover have "decode_line J (str_of_bytes b) = Ok m"
    using assms(3) f by (simp add: decode_line_def trim_line_end_body)
  ultimately show thesis using f by (intro that)
qed

lemma serve_loop_conversation:
  assumes "json_codec (sv_client S)" and "frames (sv_client S) qs ins" and "\<forall>b \<in> set ins. length b \<le> MAX_FRAME_BYTES"
    and "data_only es" and "pend @ stream_bytes es = concat ins"
    and "answers mgr qs st = (rs, st')" and "frames (sv_server S) rs outs"
  shows "serve_loop S idle mgr pend es st = (Ok (), outs, st')"
  using assms
proof (induction qs arbitrary: ins pend es st rs outs)
  case Nil
  then have "pend = [] \<and> es = []" by (auto simp: frames_def dest: stream_empty)
  with Nil show ?case by (subst serve_loop.simps) (simp add: frames_def)
next
  case (Cons q qs)
  from Cons.prems(2) obtain b ins' where ins: "ins = b # ins'" "encode_message (sv_client S) q = Ok b"
    "frames (sv_client S) qs ins'" by (auto simp: frames_def list_all2_Cons1)
  from Cons.prems(6) obtain r st1 rs' where r: "dispatch mgr q st = (r, st1)" "answers mgr qs st1 = (rs', st')" "rs = r # rs'"
    by (auto split: prod.splits)
  with Cons.prems(7) obtain o1 outs' where out: "outs = o1 # outs'" "encode_message (sv_server S) r = Ok o1"
    "frames (sv_server S) rs' outs'" by (auto simp: frames_def list_all2_Cons1)
  have len: "length b \<le> MAX_FRAME_BYTES" using Cons.prems(3) ins by simp
  obtain f where f: "b = f @ [LF]" "LF \<notin> set f" "utf8_valid b" "decode_line (sv_client S) (str_of_bytes b) = Ok q"
    using decode_frame [OF Cons.prems(1) ins(2) len] .
  have "pend @ stream_bytes es = f @ LF # concat ins'" using Cons.prems(5) ins f by simp
  from read_frame_found [OF Cons.prems(4) this f(2), of "[]" MAX_FRAME_BYTES] len f(1) obtain pend' es' where
    rd: "read_frame_bounded MAX_FRAME_BYTES [] pend es = (Outcome Frame, b, pend', es')"
      "data_only es'" "pend' @ stream_bytes es' = concat ins'"
    by auto
  have "serve_loop S idle mgr pend' es' st1 = (Ok (), outs', st')"
    using Cons.IH [OF Cons.prems(1) ins(3) _ rd(2,3) r(2) out(3)] Cons.prems(3) ins(1) by simp
  with rd(1) f(3,4) r(1) out show ?case by (subst serve_loop.simps) simp
qed

lemma handshake_ok:
  assumes "json_codec (sv_client S)" and "encode_message (sv_client S) (Hello PROTOCOL_VERSION c) = Ok hello"
    and "length hello \<le> MAX_FRAME_BYTES"
    and "encode_message (sv_server S) (HelloAck (sv_version S) PROTOCOL_VERSION) = Ok ack"
  shows "perform_handshake S (Chunk (hello @ tail) # es) = (Ok (), [ack], es)"
proof -
  obtain f where f: "hello = f @ [LF]" "LF \<notin> set f" "utf8_valid hello"
    "decode_line (sv_client S) (str_of_bytes hello) = Ok (Hello PROTOCOL_VERSION c)"
    using decode_frame [OF assms(1-3)] .
  have "takeWhile (\<lambda>b. b \<noteq> LF) (hello @ tail) = f" using f by (simp add: takeWhile_append)
  then have "read_line [] (Chunk (hello @ tail) # es) = (Ok hello, es)" using f by simp
  with f assms(4) show ?thesis by (auto simp: perform_handshake_def)
qed

section \<open>Properties\<close>

text \<open>A codec for the examples: one byte per message kind, two kinds being enough.\<close>

definition demo_client :: "client_message codec" where
  "demo_client =
     \<lparr>js_to_vec = (\<lambda>m. if m = Ping then Ok [112] else if m = Hello PROTOCOL_VERSION None then Ok [104] else Err ''unsupported''),
      js_from_slice = (\<lambda>b. if b = [112] then Ok Ping else if b = [104] then Ok (Hello PROTOCOL_VERSION None) else Err ''json'')\<rparr>"

definition demo_server_codec :: "server_message codec" where
  "demo_server_codec =
     \<lparr>js_to_vec = (\<lambda>m. if m = Pong then Ok [80] else if m = HelloAck ''1'' PROTOCOL_VERSION then Ok [72] else Ok [69]),
      js_from_slice = (\<lambda>b. if b = [80] then Ok Pong else if b = [72] then Ok (HelloAck ''1'' PROTOCOL_VERSION) else Err ''json'')\<rparr>"

definition demo_server :: server where
  "demo_server = \<lparr>sv_version = ''1'', sv_client = demo_client, sv_server = demo_server_codec\<rparr>"

lemma demo_json: "json_codec demo_client"
  by (auto simp: json_codec_def demo_client_def LF_def CR_def split: if_splits)

lemma demo_frames:
  "encode_message demo_client (Hello PROTOCOL_VERSION None) = Ok [104, 10]"
  "encode_message demo_client Ping = Ok [112, 10]"
  "encode_message demo_server_codec (HelloAck ''1'' PROTOCOL_VERSION) = Ok [72, 10]"
  "encode_message demo_server_codec Pong = Ok [80, 10]"
  by (simp_all add: encode_message_def demo_client_def demo_server_codec_def LF_def MAX_FRAME_BYTES_def)

lemma demo_len: "Suc (Suc 0) \<le> MAX_FRAME_BYTES"
  by (simp add: MAX_FRAME_BYTES_def)



text \<open>
  C40. What follows the greeting in the same read is lost: the handshake reads through a buffer of
  its own that is dropped with whatever it holds beyond the first line, so a client that sends its
  first request together with the greeting gets the same conversation as one that never sent it.
\<close>

theorem pipelined_request_lost:
  assumes "json_codec (sv_client S)" and "encode_message (sv_client S) (Hello PROTOCOL_VERSION c) = Ok hello"
    and "length hello \<le> MAX_FRAME_BYTES"
    and "encode_message (sv_server S) (HelloAck (sv_version S) PROTOCOL_VERSION) = Ok ack"
  shows "serve_connection_with S idle mgr (Chunk (hello @ request) # es) st =
         serve_connection_with S idle mgr (Chunk hello # es) st"
  using handshake_ok [OF assms, of request es] handshake_ok [OF assms, of "[]" es]
  by (simp add: serve_connection_with_def)

lemma pipelined_request_lost_witness:
  "serve_connection_with demo_server 30 (state_manager demo_env (\<lambda>_. True) True) [Chunk [104, 10, 112, 10]] demo_m0 =
   serve_connection_with demo_server 30 (state_manager demo_env (\<lambda>_. True) True) [Chunk [104, 10]] demo_m0"
  using pipelined_request_lost [of demo_server None "[104, 10]" "[72, 10]" 30
      "state_manager demo_env (\<lambda>_. True) True" "[112, 10]" "[]" demo_m0]
  by (simp add: demo_server_def demo_json demo_frames demo_len)

text \<open>
  C32. Only a greeted peer reaches the state manager, and only root is accepted when credentials
  are enforced: a peer that is not root, or whose first line is not a greeting with the protocol
  version of the server, leaves the state of the manager as it is.
\<close>

theorem ungreeted_peer_no_effect:
  assumes "(enforce \<and> (\<forall>pc. cred = Ok pc \<longrightarrow> pc_uid pc \<noteq> 0)) \<or>
     (\<forall>line. fst (read_line [] es) = Ok line \<longrightarrow>
        (\<forall>c. decode_line (sv_client S) (str_of_bytes line) \<noteq> Ok (Hello PROTOCOL_VERSION c)))"
  shows "snd (accept_connection enforce cred S idle mgr es st) = st"
proof (cases "enforce \<and> (\<forall>pc. cred = Ok pc \<longrightarrow> pc_uid pc \<noteq> 0)")
  case True
  then have "\<not> is_ok (verify_peer_credentials cred)"
    by (cases cred) (auto simp: verify_peer_credentials_def)
  with True show ?thesis by (simp add: accept_connection_def)
next
  case False
  obtain e out es' where "perform_handshake S es = (Err e, out, es')"
    using False assms
    by (cases "read_line [] es") (force simp: perform_handshake_def split: sum.splits client_message.splits if_splits)
  then show ?thesis by (simp add: accept_connection_def serve_connection_with_def)
qed

lemma ungreeted_peer_no_effect_witness:
  "snd (accept_connection True (Ok \<lparr>pc_uid = 1000, pc_gid = 1000, pc_pid = None\<rparr>) demo_server 30
     (state_manager demo_env (\<lambda>_. True) True) [Chunk [104, 10]] demo_m0) = demo_m0"
  by (rule ungreeted_peer_no_effect) simp

text \<open>
  Frames are bounded: while a connection reads a frame its buffer never holds more than the
  frame limit, and a peer that sends that many bytes and one more without a newline is answered
  with a protocol violation, with the manager's state unchanged.
\<close>

theorem oversize_frame_refused:
  assumes "data_only es" and "pend @ stream_bytes es = f @ b # rest" and "LF \<notin> set f" and "length f = MAX_FRAME_BYTES"
  shows "serve_loop S idle mgr pend es st =
           (case final_error S PROTOCOL_VIOLATION (''frame exceeds '' @ to_decimal MAX_FRAME_BYTES @ '' bytes'') of
              (r, out) \<Rightarrow> (r, out, st)) \<and>
         length (fst (snd (read_frame_bounded MAX_FRAME_BYTES [] pend es))) \<le> MAX_FRAME_BYTES"
proof
  obtain buf p e where r: "read_frame_bounded MAX_FRAME_BYTES [] pend es = (Outcome Oversize, buf, p, e)"
    using read_frame_oversize [OF assms(1-3), of "[]" MAX_FRAME_BYTES] assms(4)
    by (cases "read_frame_bounded MAX_FRAME_BYTES [] pend es") auto
  show "serve_loop S idle mgr pend es st =
           (case final_error S PROTOCOL_VIOLATION (''frame exceeds '' @ to_decimal MAX_FRAME_BYTES @ '' bytes'') of
              (r, out) \<Rightarrow> (r, out, st))"
    by (subst serve_loop.simps) (simp add: r)
  show "length (fst (snd (read_frame_bounded MAX_FRAME_BYTES [] pend es))) \<le> MAX_FRAME_BYTES"
    using read_frame_bounded_buf [OF r] by (simp add: r)
qed

lemma oversize_frame_refused_witness:
  "snd (snd (serve_loop demo_server 30 (state_manager demo_env (\<lambda>_. True) True)
     (replicate MAX_FRAME_BYTES 120 @ [120]) [] demo_m0)) = demo_m0"
proof -
  have "LF \<notin> set (replicate MAX_FRAME_BYTES (120 :: u8))" by (simp add: LF_def)
  from oversize_frame_refused [of "[]" "replicate MAX_FRAME_BYTES 120 @ [120]" "replicate MAX_FRAME_BYTES 120" 120 "[]"
      demo_server 30 "state_manager demo_env (\<lambda>_. True) True" demo_m0] this
  show ?thesis by (simp only: data_only_simps stream_bytes_simps append_Nil2 length_replicate)
     (simp split: prod.splits)
qed

end
