(* ===== verification/Btree_Map.thy ===== *)
theory Btree_Map
  imports Rust_Prelude "HOL-Library.List_Lexorder" "HOL-Library.Char_ord"
begin

text \<open>
  The ordered map of the standard library (\<open>std::collections::BTreeMap\<close>), as the sources use
  it: insertion that replaces an existing binding, and iteration in key order. A map is the list
  of its bindings in increasing key order; a string key is ordered by its bytes. The locale
  \<open>ordered_map\<close> is the contract the clients rely on, interpreted on the list operations below.
\<close>

type_synonym ('k, 'v) btree = "('k \<times> 'v) list"

fun btree_insert :: "'k::linorder \<Rightarrow> 'v \<Rightarrow> ('k, 'v) btree \<Rightarrow> ('k, 'v) btree" where
  "btree_insert k v [] = [(k, v)]"
| "btree_insert k v ((k', v') # m) =
     (if k < k' then (k, v) # (k', v') # m
      else if k = k' then (k, v) # m
      else (k', v') # btree_insert k v m)"

definition btree_ok :: "('k::linorder, 'v) btree \<Rightarrow> bool" where
  "btree_ok m \<longleftrightarrow> sorted_wrt (<) (map fst m)"

definition btree_insert_all :: "('k::linorder \<times> 'v) list \<Rightarrow> ('k, 'v) btree \<Rightarrow> ('k, 'v) btree" where
  "btree_insert_all kvs m = fold (\<lambda>(k, v). btree_insert k v) kvs m"

locale ordered_map =
  fixes insert :: "'k \<Rightarrow> 'v \<Rightarrow> 'm \<Rightarrow> 'm"
    and lookup :: "'m \<Rightarrow> 'k \<Rightarrow> 'v option"
    and ok :: "'m \<Rightarrow> bool"
  assumes lookup_insert: "ok m \<Longrightarrow> lookup (insert k v m) k' = (if k' = k then Some v else lookup m k')"
    and ok_insert: "ok m \<Longrightarrow> ok (insert k v m)"
begin

text \<open>Inserting the bindings of a list one after another, as the builders of a map do.\<close>

lemma ok_fold: "ok m \<Longrightarrow> ok (fold (\<lambda>(k, v). insert k v) kvs m)"
  by (induction kvs arbitrary: m) (auto simp: ok_insert)

lemma lookup_fold:
  "ok m \<Longrightarrow> lookup (fold (\<lambda>(k, v). insert k v) kvs m) k =
     (case map_of (rev kvs) k of Some v \<Rightarrow> Some v | None \<Rightarrow> lookup m k)"
  by (induction kvs arbitrary: m)
    (auto simp: ok_insert lookup_insert map_add_def split: option.splits)

end

lemma set_btree_insert: "set (map fst (btree_insert k v m)) = insert k (set (map fst m))"
proof (induction m)
  case (Cons kv m)
  then show ?case by (cases kv) (simp del: set_map add: insert_commute)
qed simp

lemma btree_ok_insert: "btree_ok m \<Longrightarrow> btree_ok (btree_insert k v m)"
proof (induction m)
  case (Cons kv m)
  obtain k' v' where kv: "kv = (k', v')" by (cases kv)
  have ok: "btree_ok m" and below: "\<forall>x\<in>set (map fst m). k' < x"
    using Cons.prems by (simp_all add: btree_ok_def kv)
  have "btree_ok (btree_insert k v m)" using Cons.IH ok by simp
  then show ?case
    using Cons.prems ok below set_btree_insert [of k v m]
    by (auto simp: btree_ok_def kv simp del: set_map intro: less_trans)
qed (simp add: btree_ok_def)

lemma map_of_btree_insert:
  "btree_ok m \<Longrightarrow> map_of (btree_insert k v m) k' = (if k' = k then Some v else map_of m k')"
  by (induction m) (auto simp: btree_ok_def)

lemma btree_ok_distinct: "btree_ok m \<Longrightarrow> distinct (map fst m)"
  by (simp add: btree_ok_def strict_sorted_iff)

lemma btree_ok_empty [simp]: "btree_ok []"
  by (simp add: btree_ok_def)

lemma map_of_rev_distinct: "distinct (map fst xs) \<Longrightarrow> map_of (rev xs) = map_of xs"
  by (rule map_of_eqI) (auto simp: distinct_map map_of_eq_Some_iff rev_map)

interpretation bt: ordered_map btree_insert map_of btree_ok
  by unfold_locales (auto simp: map_of_btree_insert btree_ok_insert)

lemma btree_ok_insert_all: "btree_ok m \<Longrightarrow> btree_ok (btree_insert_all kvs m)"
  unfolding btree_insert_all_def by (rule bt.ok_fold)

lemma map_of_btree_insert_all:
  "btree_ok m \<Longrightarrow> map_of (btree_insert_all kvs m) k =
     (case map_of (rev kvs) k of Some v \<Rightarrow> Some v | None \<Rightarrow> map_of m k)"
  unfolding btree_insert_all_def by (rule bt.lookup_fold)

lemma keys_btree_insert_all:
  "set (map fst (btree_insert_all kvs m)) = set (map fst kvs) \<union> set (map fst m)"
  unfolding btree_insert_all_def
  by (induction kvs arbitrary: m) (auto simp: set_btree_insert simp del: set_map)

end
