(* ===== verification/Hooks.thy ===== *)
theory Hooks
  imports Integrity_Label Btree_Map
begin

text \<open>
  The hook subsystem of \<open>pam_certauth_core/src/hooks\<close> up to the point where a process is
  started: stages (\<open>stage.rs\<close>), placeholder templates (\<open>placeholder.rs\<close>), the variables a hook
  may see (\<open>vars.rs\<close>), the validation of a configured hook (\<open>validator.rs\<close>), its environment
  (\<open>env.rs\<close>), the failure policy (\<open>executor.rs\<close>) and the runner (\<open>runner.rs\<close>). The process
  itself is in \<open>Hook_Exec\<close>; here an executor is a function.
\<close>

section \<open>Stages, host identity sources and the authentication context\<close>

datatype core_error = ConfigInvalid string

datatype hook_stage = PreAuth | PostAuthSuccess | SessionOpenStage | SessionCloseStage | UsbRemovedStage

fun stage_display :: "hook_stage \<Rightarrow> string" where
  "stage_display PreAuth = ''pre_auth''"
| "stage_display PostAuthSuccess = ''post_auth_success''"
| "stage_display SessionOpenStage = ''session_open''"
| "stage_display SessionCloseStage = ''session_close''"
| "stage_display UsbRemovedStage = ''usb_removed''"

definition stage_from_str :: "string \<Rightarrow> (core_error, hook_stage) result" where
  "stage_from_str s =
     (if s = ''pre_auth'' then Ok PreAuth
      else if s = ''post_auth_success'' then Ok PostAuthSuccess
      else if s = ''session_open'' then Ok SessionOpenStage
      else if s = ''session_close'' then Ok SessionCloseStage
      else if s = ''usb_removed'' then Ok UsbRemovedStage
      else Err (ConfigInvalid (''invalid hook stage: '' @ s)))"

datatype host_id_source_kind =
    MachineId | DmiBoardSerial | DmiSystemUuid | DmiSystemSerial | Hostname | CustomCommand | Override

fun source_display :: "host_id_source_kind \<Rightarrow> string" where
  "source_display MachineId = ''machine_id''"
| "source_display DmiBoardSerial = ''dmi_board_serial''"
| "source_display DmiSystemUuid = ''dmi_system_uuid''"
| "source_display DmiSystemSerial = ''dmi_system_serial''"
| "source_display Hostname = ''hostname''"
| "source_display CustomCommand = ''custom_command''"
| "source_display Override = ''override''"

definition source_from_str :: "string \<Rightarrow> (core_error, host_id_source_kind) result" where
  "source_from_str s =
     (if s = ''machine_id'' then Ok MachineId
      else if s = ''dmi_board_serial'' \<or> s = ''board_serial'' then Ok DmiBoardSerial
      else if s = ''dmi_system_uuid'' \<or> s = ''system_uuid'' then Ok DmiSystemUuid
      else if s = ''dmi_system_serial'' \<or> s = ''system_serial'' then Ok DmiSystemSerial
      else if s = ''hostname'' then Ok Hostname
      else if s = ''custom_command'' then Ok CustomCommand
      else if s = ''override'' then Ok Override
      else Err (ConfigInvalid (''invalid host identity source: '' @ s)))"

text \<open>\<open>AuthContext\<close>: what a successful authentication leaves for the session phase.\<close>

record auth_context =
  ac_session_id :: string
  ac_cert_cn :: "string option"
  ac_cert_serial :: "string option"
  ac_usb_serial :: "string option"
  ac_usb_vid_pid :: "string option"
  ac_pam_service :: string
  ac_host_id :: string
  ac_host_id_source :: host_id_source_kind
  ac_authenticated_at :: int
  ac_cert_not_after :: "int option"
  ac_cert_max_integrity :: "integrity_label option"
  ac_cert_ident :: "cert_ident option"
  ac_home_dir :: "string option"

definition auth_context_new :: "string \<Rightarrow> string \<Rightarrow> int \<Rightarrow> auth_context" where
  "auth_context_new session_id pam_service now =
     \<lparr>ac_session_id = session_id, ac_cert_cn = None, ac_cert_serial = None, ac_usb_serial = None,
      ac_usb_vid_pid = None, ac_pam_service = pam_service, ac_host_id = [],
      ac_host_id_source = Override, ac_authenticated_at = now, ac_cert_not_after = None,
      ac_cert_max_integrity = None, ac_cert_ident = None, ac_home_dir = None\<rparr>"

section \<open>Placeholder templates\<close>

datatype placeholder_var =
    PamUser | PamService | HostId | HostIdHash | HostIdSource | CertCn | CertSerial | UsbSerial
  | UsbVidPid | SessionId

definition placeholder_from_str :: "string \<Rightarrow> (core_error, placeholder_var) result" where
  "placeholder_from_str s =
     (if s = ''pam_user'' then Ok PamUser
      else if s = ''pam_service'' then Ok PamService
      else if s = ''host_id'' then Ok HostId
      else if s = ''host_id_hash'' then Ok HostIdHash
      else if s = ''host_id_source'' then Ok HostIdSource
      else if s = ''cert_cn'' then Ok CertCn
      else if s = ''cert_serial'' then Ok CertSerial
      else if s = ''usb_serial'' then Ok UsbSerial
      else if s = ''usb_vid_pid'' then Ok UsbVidPid
      else if s = ''session_id'' then Ok SessionId
      else Err (ConfigInvalid (''unknown placeholder: '' @ s)))"

datatype template_part = Literal string | Var placeholder_var

type_synonym template = "template_part list"

text \<open>
  \<open>Template::parse\<close>. The three characters it looks for are ASCII, so that walking the bytes of
  the input is walking its characters. \<open>placeholder_name\<close> is the inner loop that reads up to the
  closing brace, \<open>template_loop\<close> the outer one, with the pending literal and the parts so far.
\<close>

fun placeholder_name :: "string \<Rightarrow> (string \<times> string) option" where
  "placeholder_name [] = None"
| "placeholder_name (c # cs) =
     (if c = CHR ''}'' then Some ([], cs)
      else map_option (\<lambda>(n, r). (c # n, r)) (placeholder_name cs))"

lemma placeholder_name_shorter: "placeholder_name s = Some (n, r) \<Longrightarrow> length r < length s"
  by (induction s arbitrary: n r) (auto split: if_splits intro: less_SucI)

definition push_literal :: "string \<Rightarrow> template \<Rightarrow> template" where
  "push_literal literal parts = (if literal \<noteq> [] then parts @ [Literal literal] else parts)"

function template_loop :: "string \<Rightarrow> string \<Rightarrow> template \<Rightarrow> (core_error, template) result" where
  "template_loop [] literal parts =
     Ok (if literal \<noteq> [] \<or> parts = [] then parts @ [Literal literal] else parts)"
| "template_loop (ch # cs) literal parts =
     (if ch \<noteq> CHR ''$'' then template_loop cs (literal @ [ch]) parts
      else if cs \<noteq> [] \<and> hd cs = CHR ''$'' then template_loop (tl cs) (literal @ ''$'') parts
      else if cs \<noteq> [] \<and> hd cs = CHR ''{'' then
        (case placeholder_name (tl cs) of
           None \<Rightarrow> Err (ConfigInvalid ''unclosed placeholder'')
         | Some (name, rest) \<Rightarrow>
             if name = [] then Err (ConfigInvalid ''empty placeholder'')
             else (case placeholder_from_str name of
                 Inl e \<Rightarrow> Err e
               | Inr v \<Rightarrow> template_loop rest [] (push_literal literal parts @ [Var v])))
      else template_loop cs (literal @ ''$'') parts)"
  by pat_completeness auto
termination
  by (relation "measure (\<lambda>(s, _, _). length s)")
    (auto dest: placeholder_name_shorter simp: neq_Nil_conv)

definition template_parse :: "string \<Rightarrow> (core_error, template) result" where
  "template_parse input = template_loop input [] []"

text \<open>\<open>Template::render\<close>; the reason text names the variable in its debug form.\<close>

fun placeholder_debug :: "placeholder_var \<Rightarrow> string" where
  "placeholder_debug PamUser = ''PamUser''"
| "placeholder_debug PamService = ''PamService''"
| "placeholder_debug HostId = ''HostId''"
| "placeholder_debug HostIdHash = ''HostIdHash''"
| "placeholder_debug HostIdSource = ''HostIdSource''"
| "placeholder_debug CertCn = ''CertCn''"
| "placeholder_debug CertSerial = ''CertSerial''"
| "placeholder_debug UsbSerial = ''UsbSerial''"
| "placeholder_debug UsbVidPid = ''UsbVidPid''"
| "placeholder_debug SessionId = ''SessionId''"

fun template_render :: "(placeholder_var \<Rightarrow> string option) \<Rightarrow> template \<Rightarrow> (core_error, string) result" where
  "template_render resolve [] = Ok []"
| "template_render resolve (Literal s # ps) =
     and_then (template_render resolve ps) (\<lambda>r. Ok (s @ r))"
| "template_render resolve (Var v # ps) =
     and_then (ok_or (ConfigInvalid (''missing placeholder value: '' @ placeholder_debug v)) (resolve v))
       (\<lambda>s. and_then (template_render resolve ps) (\<lambda>r. Ok (s @ r)))"

section \<open>The values of the placeholders\<close>

record hook_vars =
  hv_stage :: hook_stage
  hv_pam_user :: "string option"
  hv_pam_service :: "string option"
  hv_host_id :: "string option"
  hv_host_id_hash :: "string option"
  hv_host_id_source :: "string option"
  hv_cert_cn :: "string option"
  hv_cert_serial :: "string option"
  hv_usb_serial :: "string option"
  hv_usb_vid_pid :: "string option"
  hv_session_id :: "string option"

definition hook_vars_empty :: hook_vars where
  "hook_vars_empty =
     \<lparr>hv_stage = PreAuth, hv_pam_user = None, hv_pam_service = None, hv_host_id = None,
      hv_host_id_hash = None, hv_host_id_source = None, hv_cert_cn = None, hv_cert_serial = None,
      hv_usb_serial = None, hv_usb_vid_pid = None, hv_session_id = None\<rparr>"

definition for_pre_auth :: "string \<Rightarrow> string \<Rightarrow> string \<Rightarrow> string \<Rightarrow> string \<Rightarrow> hook_vars" where
  "for_pre_auth pam_user pam_service host_id host_id_hash host_id_source =
     hook_vars_empty \<lparr>hv_stage := PreAuth, hv_pam_user := Some pam_user,
       hv_pam_service := Some pam_service, hv_host_id := Some host_id,
       hv_host_id_hash := Some host_id_hash, hv_host_id_source := Some host_id_source\<rparr>"

text \<open>Both \<open>host_id\<close> and \<open>host_id_hash\<close> are set to the context's \<open>host_id\<close>, as in the source.\<close>

definition for_session_like :: "hook_stage \<Rightarrow> string \<Rightarrow> auth_context \<Rightarrow> hook_vars" where
  "for_session_like stage pam_user ctx =
     hook_vars_empty \<lparr>hv_stage := stage, hv_pam_user := Some pam_user,
       hv_pam_service := Some (ac_pam_service ctx), hv_host_id := Some (ac_host_id ctx),
       hv_host_id_hash := Some (ac_host_id ctx),
       hv_host_id_source := Some (source_display (ac_host_id_source ctx)),
       hv_session_id := Some (ac_session_id ctx), hv_cert_cn := ac_cert_cn ctx,
       hv_cert_serial := ac_cert_serial ctx, hv_usb_serial := ac_usb_serial ctx,
       hv_usb_vid_pid := ac_usb_vid_pid ctx\<rparr>"

definition for_post_auth_success :: "string \<Rightarrow> auth_context \<Rightarrow> hook_vars" where
  "for_post_auth_success = for_session_like PostAuthSuccess"

definition for_session_open :: "string \<Rightarrow> auth_context \<Rightarrow> hook_vars" where
  "for_session_open = for_session_like SessionOpenStage"

definition for_session_close :: "string \<Rightarrow> auth_context \<Rightarrow> hook_vars" where
  "for_session_close = for_session_like SessionCloseStage"

fun resolve :: "hook_vars \<Rightarrow> placeholder_var \<Rightarrow> string option" where
  "resolve v PamUser = hv_pam_user v"
| "resolve v PamService = hv_pam_service v"
| "resolve v HostId = hv_host_id v"
| "resolve v HostIdHash = hv_host_id_hash v"
| "resolve v HostIdSource = hv_host_id_source v"
| "resolve v CertCn = hv_cert_cn v"
| "resolve v CertSerial = hv_cert_serial v"
| "resolve v UsbSerial = hv_usb_serial v"
| "resolve v UsbVidPid = hv_usb_vid_pid v"
| "resolve v SessionId = hv_session_id v"

section \<open>Validated hooks\<close>

datatype on_failure = Abort | Warn | Ignore

datatype run_as = RunAsRoot | RunAsUser

record raw_hook =
  rh_stage :: hook_stage
  rh_command :: "string list"
  rh_timeout_seconds :: u64
  rh_on_failure :: "string option"
  rh_run_as :: "string option"
  rh_env :: "(string, string) btree"

text \<open>The timeout is a duration in whole seconds.\<close>

record hook_config =
  hc_stage :: hook_stage
  hc_command :: "string list"
  hc_timeout :: nat
  hc_on_failure :: on_failure
  hc_run_as :: run_as
  hc_env :: "(string, template) btree"

datatype hook_validation_error =
    PlaceholderNotAllowedAtStage hook_stage placeholder_var
  | EmptyCommand
  | InvalidCommandPath string
  | InvalidTimeout
  | TemplateError string

fun is_var_allowed :: "hook_stage \<Rightarrow> placeholder_var \<Rightarrow> bool" where
  "is_var_allowed PreAuth var = (var \<in> {PamUser, PamService, HostId, HostIdHash, HostIdSource})"
| "is_var_allowed stage var = True"

fun core_error_to_string :: "core_error \<Rightarrow> string" where
  "core_error_to_string (ConfigInvalid reason) = ''invalid config: '' @ reason"

definition path_is_absolute :: "string \<Rightarrow> bool" where
  "path_is_absolute p \<longleftrightarrow> p \<noteq> [] \<and> hd p = CHR ''/''"

fun check_part :: "hook_stage \<Rightarrow> template_part \<Rightarrow> (hook_validation_error, unit) result" where
  "check_part stage (Literal s) = Ok ()"
| "check_part stage (Var v) = ensure (is_var_allowed stage v) (PlaceholderNotAllowedAtStage stage v)"

definition validate_env_entry ::
  "hook_stage \<Rightarrow> string \<times> string \<Rightarrow> (hook_validation_error, string \<times> template) result" where
  "validate_env_entry stage kv =
     and_then (map_err (\<lambda>e. TemplateError (core_error_to_string e)) (template_parse (snd kv)))
       (\<lambda>t. and_then (try_each (check_part stage) t) (\<lambda>_. Ok (fst kv, t)))"

definition parse_failure :: "string option \<Rightarrow> hook_stage \<Rightarrow> on_failure" where
  "parse_failure value stage =
     (if (value = Some ''warn'' \<or> value = None) \<and> stage \<noteq> PreAuth then Warn
      else if value = Some ''ignore'' then Ignore
      else Abort)"

definition validate_hook :: "raw_hook \<Rightarrow> (hook_validation_error, hook_config) result" where
  "validate_hook raw =
     (case rh_command raw of
        [] \<Rightarrow> Err EmptyCommand
      | first # _ \<Rightarrow>
          and_then (ensure (path_is_absolute first) (InvalidCommandPath first)) (\<lambda>_.
          and_then (ensure (\<not> (rh_timeout_seconds raw = 0 \<or> rh_timeout_seconds raw > 120)) InvalidTimeout) (\<lambda>_.
          and_then (try_map (validate_env_entry (rh_stage raw)) (rh_env raw)) (\<lambda>entries.
          Ok \<lparr>hc_stage = rh_stage raw, hc_command = rh_command raw,
              hc_timeout = unat (rh_timeout_seconds raw),
              hc_on_failure = parse_failure (rh_on_failure raw) (rh_stage raw),
              hc_run_as = (if rh_run_as raw = Some ''user'' then RunAsUser else RunAsRoot),
              hc_env = btree_insert_all entries []\<rparr>))))"

section \<open>The environment of a hook\<close>

record user_info =
  ui_name :: string
  ui_uid :: u32
  ui_gid :: u32
  ui_groups :: "u32 list"
  ui_home :: string

text \<open>Errors of the executor; an \<open>errno\<close> and an I/O error are their number.\<close>

datatype hook_error =
    CommandUnusable string
  | UserResolution string int
  | UnresolvedVar placeholder_var
  | PipeFailed int
  | ForkFailed int
  | WaitFailed int
  | HookTimeout nat
  | NonZeroExit int
  | SignalError int
  | ChildSetup string
  | HookIo int
  | EnvValueRejected string string

definition DEFAULT_PATH :: string where
  "DEFAULT_PATH = ''/usr/sbin:/usr/bin:/sbin:/bin''"

definition forbidden_control_reason :: "string \<Rightarrow> string option" where
  "forbidden_control_reason v =
     map_option (\<lambda>b. if b = 10 then ''contains newline (0x0A)''
                    else if b = 13 then ''contains carriage return (0x0D)''
                    else if b = 0 then ''contains NUL byte''
                    else ''contains control byte (< 0x20)'')
       (find (\<lambda>b. b < 0x20) (as_bytes v))"

definition base_env :: "hook_config \<Rightarrow> hook_vars \<Rightarrow> user_info option \<Rightarrow> (string \<times> string) list" where
  "base_env hook vars run_as_user =
     (let (user_name, home) = (case run_as_user of
            Some u \<Rightarrow> (ui_name u, ui_home u) | None \<Rightarrow> (''root'', ''/root''))
      in [(''PATH'', DEFAULT_PATH), (''HOME'', home), (''USER'', user_name),
          (''LOGNAME'', user_name), (''LANG'', ''C.UTF-8''),
          (''PAM_CERTAUTH_STAGE'', stage_display (hc_stage hook)),
          (''PAM_CERTAUTH_USER'', unwrap_or_default (hv_pam_user vars)),
          (''PAM_CERTAUTH_SERVICE'', unwrap_or_default (hv_pam_service vars)),
          (''PAM_CERTAUTH_HOST_ID'', unwrap_or_default (hv_host_id vars)),
          (''PAM_CERTAUTH_HOST_ID_HASH'', unwrap_or_default (hv_host_id_hash vars)),
          (''PAM_CERTAUTH_HOST_ID_SOURCE'', unwrap_or_default (hv_host_id_source vars)),
          (''PAM_CERTAUTH_CERT_CN'', unwrap_or_default (hv_cert_cn vars)),
          (''PAM_CERTAUTH_CERT_SERIAL'', unwrap_or_default (hv_cert_serial vars)),
          (''PAM_CERTAUTH_USB_SERIAL'', unwrap_or_default (hv_usb_serial vars)),
          (''PAM_CERTAUTH_USB_VID_PID'', unwrap_or_default (hv_usb_vid_pid vars)),
          (''PAM_CERTAUTH_SESSION_ID'', unwrap_or_default (hv_session_id vars))])"

fun render_parts :: "hook_vars \<Rightarrow> template \<Rightarrow> (hook_error, string) result" where
  "render_parts vars [] = Ok []"
| "render_parts vars (Literal s # ps) = and_then (render_parts vars ps) (\<lambda>r. Ok (s @ r))"
| "render_parts vars (Var v # ps) =
     and_then (ok_or (UnresolvedVar v) (resolve vars v))
       (\<lambda>s. and_then (render_parts vars ps) (\<lambda>r. Ok (s @ r)))"

definition render_entry ::
  "hook_vars \<Rightarrow> string \<times> template \<Rightarrow> (hook_error, string \<times> string) result" where
  "render_entry vars kt = and_then (render_parts vars (snd kt)) (\<lambda>r. Ok (fst kt, r))"

text \<open>\<open>CString::new\<close> refuses an interior NUL.\<close>

definition env_entry :: "string \<times> string \<Rightarrow> (hook_error, string) result" where
  "env_entry kv =
     (case forbidden_control_reason (snd kv) of
        Some reason \<Rightarrow> Err (EnvValueRejected (fst kv) reason)
      | None \<Rightarrow>
          (let raw = fst kv @ ''='' @ snd kv
           in if 0 \<in> set (as_bytes raw) then Err (ChildSetup ''env value contains NUL byte'')
              else Ok raw))"

definition env_map ::
  "hook_config \<Rightarrow> hook_vars \<Rightarrow> user_info option \<Rightarrow> (string \<times> string) list \<Rightarrow> (string, string) btree" where
  "env_map hook vars run_as_user custom =
     btree_insert_all custom (btree_insert_all (base_env hook vars run_as_user) [])"

definition build_env_vector ::
  "hook_config \<Rightarrow> hook_vars \<Rightarrow> user_info option \<Rightarrow> (hook_error, string list) result" where
  "build_env_vector hook vars run_as_user =
     and_then (try_map (render_entry vars) (hc_env hook)) (\<lambda>custom.
     try_map env_entry (env_map hook vars run_as_user custom))"

section \<open>The failure policy and the runner\<close>

text \<open>The duration of an outcome is in milliseconds; the exit code is an \<open>i32\<close>.\<close>

record hook_outcome =
  ho_stage :: hook_stage
  ho_command :: "string list"
  ho_exit_code :: int
  ho_killed_by_timeout :: bool
  ho_duration_ms :: nat
  ho_stdout_lines :: nat
  ho_stderr_lines :: nat

definition apply_on_failure ::
  "(hook_error, hook_outcome) result \<Rightarrow> on_failure \<Rightarrow> (hook_error, unit) result" where
  "apply_on_failure outcome policy =
     (case outcome of
        Inr oc \<Rightarrow>
          if ho_exit_code oc = 0 \<and> \<not> ho_killed_by_timeout oc then Ok ()
          else if policy = Ignore \<and> ho_killed_by_timeout oc then Ok ()
          else if ho_killed_by_timeout oc then Err (HookTimeout (min (ho_duration_ms oc) u64_max))
          else if policy = Abort then Err (NonZeroExit (ho_exit_code oc))
          else Ok ()
      | Inl e \<Rightarrow> if policy = Abort then Err e else Ok ())"

text \<open>
  The executor \<open>exec\<close> is applied to the state \<open>w\<close> of the world and gives its result and the new
  state. The runner returns with the executor's state, whether it fails or not.
\<close>

type_synonym 'w executor = "hook_config \<Rightarrow> hook_vars \<Rightarrow> 'w \<Rightarrow> (hook_error, hook_outcome) result \<times> 'w"

fun run_hook_list ::
  "'w executor \<Rightarrow> hook_vars \<Rightarrow> hook_config list \<Rightarrow> 'w \<Rightarrow> (hook_error, unit) result \<times> 'w" where
  "run_hook_list exec vars [] w = (Ok (), w)"
| "run_hook_list exec vars (hook # hooks) w =
     (case exec hook vars w of (outcome, w') \<Rightarrow>
        case apply_on_failure outcome (hc_on_failure hook) of
          Inl e \<Rightarrow> (Err e, w')
        | Inr _ \<Rightarrow> run_hook_list exec vars hooks w')"

definition run_hooks_for_stage ::
  "hook_config list \<Rightarrow> hook_stage \<Rightarrow> 'w executor \<Rightarrow> hook_vars \<Rightarrow> 'w \<Rightarrow> (hook_error, unit) result \<times> 'w" where
  "run_hooks_for_stage hooks stage exec vars w =
     run_hook_list exec vars (filter (\<lambda>h. hc_stage h = stage) hooks) w"

definition count_for_stage :: "hook_config list \<Rightarrow> hook_stage \<Rightarrow> nat" where
  "count_for_stage hooks stage = length (filter (\<lambda>h. hc_stage h = stage) hooks)"

section \<open>Templates: printing and parsing\<close>

fun placeholder_str :: "placeholder_var \<Rightarrow> string" where
  "placeholder_str PamUser = ''pam_user''"
| "placeholder_str PamService = ''pam_service''"
| "placeholder_str HostId = ''host_id''"
| "placeholder_str HostIdHash = ''host_id_hash''"
| "placeholder_str HostIdSource = ''host_id_source''"
| "placeholder_str CertCn = ''cert_cn''"
| "placeholder_str CertSerial = ''cert_serial''"
| "placeholder_str UsbSerial = ''usb_serial''"
| "placeholder_str UsbVidPid = ''usb_vid_pid''"
| "placeholder_str SessionId = ''session_id''"

text \<open>The concrete syntax of a template: a dollar sign of a literal is doubled.\<close>

definition escape_char :: "char \<Rightarrow> string" where
  "escape_char c = (if c = CHR ''$'' then ''$$'' else [c])"

fun part_print :: "template_part \<Rightarrow> string" where
  "part_print (Literal s) = concat (map escape_char s)"
| "part_print (Var v) = ''${'' @ placeholder_str v @ ''}''"

definition template_print :: "template \<Rightarrow> string" where
  "template_print ps = concat (map part_print ps)"

fun is_literal :: "template_part \<Rightarrow> bool" where
  "is_literal (Literal s) = True"
| "is_literal (Var v) = False"

text \<open>No empty literal and no two literals in a row, the single empty literal apart.\<close>

fun merged :: "template \<Rightarrow> bool" where
  "merged [] = True"
| "merged (Literal s # ps) = (s \<noteq> [] \<and> (ps \<noteq> [] \<longrightarrow> \<not> is_literal (hd ps)) \<and> merged ps)"
| "merged (Var v # ps) = merged ps"

definition normal_template :: "template \<Rightarrow> bool" where
  "normal_template ps \<longleftrightarrow> ps = [Literal []] \<or> (ps \<noteq> [] \<and> merged ps)"

lemma placeholder_from_str_str [simp]: "placeholder_from_str (placeholder_str v) = Ok v"
  by (cases v) (simp_all add: placeholder_from_str_def)

lemma placeholder_name_str [simp]:
  "placeholder_name (placeholder_str v @ CHR ''}'' # rest) = Some (placeholder_str v, rest)"
  by (cases v) simp_all

lemma placeholder_str_ne [simp]: "placeholder_str v \<noteq> []"
  by (cases v) simp_all

lemma template_loop_literal:
  "template_loop (part_print (Literal s) @ rest) literal parts = template_loop rest (literal @ s) parts"
  by (induction s arbitrary: literal) (simp_all add: escape_char_def)

lemma template_loop_var:
  "template_loop (part_print (Var v) @ rest) literal parts =
     template_loop rest [] (push_literal literal parts @ [Var v])"
  by (simp del: template_loop.simps(2) add: template_loop.simps(2) [of "CHR ''$''"])

lemma template_loop_print:
  "merged ps \<Longrightarrow> literal = [] \<or> ps = [] \<or> \<not> is_literal (hd ps) \<Longrightarrow>
   template_loop (template_print ps) literal parts =
     Ok (if push_literal literal parts @ ps = [] then [Literal []] else push_literal literal parts @ ps)"
proof (induction ps arbitrary: literal parts rule: merged.induct)
  case 1
  then show ?case by (simp add: template_print_def push_literal_def)
next
  case (2 s ps)
  have "ps = [] \<or> \<not> is_literal (hd ps)" "merged ps" "literal = []" "s \<noteq> []"
    using "2.prems" by auto
  then show ?case
    using "2.IH" [of s parts] template_loop_literal [of s "template_print ps" "[]" parts]
    by (simp add: template_print_def push_literal_def)
next
  case (3 v ps)
  then show ?case
    using "3.IH" [of "[]" "push_literal literal parts @ [Var v]"]
      template_loop_var [of v "template_print ps" literal parts]
    by (simp add: template_print_def push_literal_def)
qed

lemma merged_snoc_var: "merged ps \<Longrightarrow> merged (ps @ [Var v])"
  by (induction ps rule: merged.induct) (auto simp: hd_append)

lemma merged_snoc_literal:
  "merged ps \<Longrightarrow> s \<noteq> [] \<Longrightarrow> ps = [] \<or> \<not> is_literal (last ps) \<Longrightarrow> merged (ps @ [Literal s])"
  by (induction ps rule: merged.induct) (auto simp: hd_append split: if_splits)

lemma template_loop_merged:
  "template_loop input literal parts = Ok ps \<Longrightarrow> merged parts \<Longrightarrow> parts = [] \<or> \<not> is_literal (last parts) \<Longrightarrow>
   normal_template ps"
proof (induction input literal parts arbitrary: ps rule: template_loop.induct)
  case (1 literal parts)
  then show ?case
    by (auto simp: normal_template_def merged_snoc_literal split: if_splits)
next
  case (2 ch cs literal parts)
  have ok: "merged (push_literal literal parts @ [Var v])" for v
    using "2.prems"(2,3) merged_snoc_literal [of parts literal] merged_snoc_var [of parts v]
      merged_snoc_var [of "parts @ [Literal literal]" v]
    by (auto simp: push_literal_def)
  show ?case
  proof (cases "ch = CHR ''$'' \<and> cs \<noteq> [] \<and> hd cs = CHR ''{''")
    case True
    then show ?thesis
      using "2.prems" "2.IH"(3) ok by (auto split: option.splits if_splits sum.splits)
  next
    case False
    then show ?thesis using "2.prems" "2.IH"(1,2,4) by (auto split: if_splits)
  qed
qed

lemma template_parse_print:
  assumes "normal_template ps"
  shows "template_parse (template_print ps) = Ok ps"
proof (cases "ps = [Literal []]")
  case False
  then show ?thesis
    using assms template_loop_print [of ps "[]" "[]"]
    by (auto simp: template_parse_def normal_template_def push_literal_def)
qed (simp add: template_parse_def template_print_def)

lemma template_parse_normal: "template_parse s = Ok ps \<Longrightarrow> normal_template ps"
  using template_loop_merged [of s "[]" "[]" ps] by (simp add: template_parse_def)

text \<open>
  Templates round trip: printing a template and parsing the text gives the template back
  exactly when it has no empty and no adjacent literals (the lone empty literal apart), and these
  are the only templates the parser builds.
\<close>

theorem template_roundtrip:
  "(template_parse (template_print ps) = Ok ps) = normal_template ps
   \<and> (\<exists>s. template_parse s = Ok ps) = normal_template ps"
  using template_parse_print template_parse_normal by blast

section \<open>The environment a hook gets\<close>

lemma map_of_rendered:
  "try_map (render_entry vars) ts = Ok custom \<Longrightarrow>
   map_of custom k = (case map_of ts k of None \<Rightarrow> None | Some t \<Rightarrow> result_ok (render_parts vars t))"
  by (induction ts arbitrary: custom) (auto simp: result_simps render_entry_def)

lemma map_fst_rendered: "try_map (render_entry vars) ts = Ok custom \<Longrightarrow> map fst custom = map fst ts"
  by (induction ts arbitrary: custom) (auto simp: result_simps render_entry_def)

lemma distinct_base_env: "distinct (map fst (base_env hook vars u))"
  by (simp add: base_env_def Let_def split: prod.splits)

text \<open>The environment before it is encoded: the configured values over the fixed ones.\<close>

lemma env_map_ok: "btree_ok (env_map hook vars u custom)"
  unfolding env_map_def by (intro btree_ok_insert_all) simp

lemma env_map_lookup:
  assumes "btree_ok (hc_env hook)" "try_map (render_entry vars) (hc_env hook) = Ok custom"
  shows "map_of (env_map hook vars u custom) k =
     (case map_of (hc_env hook) k of
        Some t \<Rightarrow> result_ok (render_parts vars t) | None \<Rightarrow> map_of (base_env hook vars u) k)"
proof -
  have ok: "btree_ok (btree_insert_all (base_env hook vars u) [])" by (rule btree_ok_insert_all) simp
  have d: "distinct (map fst custom)"
    using btree_ok_distinct [OF assms(1)] map_fst_rendered [OF assms(2)] by simp
  have "\<exists>v. render_parts vars t = Ok v" if "map_of (hc_env hook) k = Some t" for t
    using try_map_mem_rev [OF assms(2) map_of_SomeD [OF that]]
    by (auto simp: render_entry_def result_simps)
  then show ?thesis
    unfolding env_map_def map_of_btree_insert_all [OF ok] map_of_rev_distinct [OF d]
      map_of_rendered [OF assms(2)]
    by (auto simp: map_of_btree_insert_all [OF btree_ok_empty] map_of_rev_distinct [OF distinct_base_env]
        split: option.splits)
qed

lemma env_map_keys:
  assumes "try_map (render_entry vars) (hc_env hook) = Ok custom"
  shows "fst ` set (env_map hook vars u custom) = fst ` set (hc_env hook) \<union> fst ` set (base_env hook vars u)"
  using arg_cong [OF map_fst_rendered [OF assms], of set]
  by (simp add: env_map_def keys_btree_insert_all flip: set_map)

lemma env_entry_Ok:
  "(env_entry (k, v) = Ok e) =
     (e = k @ ''='' @ v \<and> (\<forall>b\<in>set (as_bytes v). 0x20 \<le> b) \<and> 0 \<notin> set (as_bytes e))"
proof (cases "find (\<lambda>b. b < 0x20) (as_bytes v)")
  case None
  then have "forbidden_control_reason v = None" by (simp add: forbidden_control_reason_def)
  moreover have "\<forall>b\<in>set (as_bytes v). 0x20 \<le> b" using None by (auto simp: find_None_iff not_less)
  ultimately show ?thesis by (auto simp: env_entry_def Let_def)
next
  case (Some b)
  then have "b \<in> set (as_bytes v)" "\<not> 0x20 \<le> b" by (auto simp: find_Some_iff)
  with Some show ?thesis by (auto simp: env_entry_def forbidden_control_reason_def)
qed

lemma build_env_vector_Ok:
  assumes "build_env_vector hook vars u = Ok out"
  obtains custom where "try_map (render_entry vars) (hc_env hook) = Ok custom"
    "out = map (\<lambda>(k, v). k @ ''='' @ v) (env_map hook vars u custom)"
    "\<And>k v. (k, v) \<in> set (env_map hook vars u custom) \<Longrightarrow>
       (\<forall>b\<in>set (as_bytes v). 0x20 \<le> b) \<and> 0 \<notin> set (as_bytes k)"
proof -
  obtain custom where c: "try_map (render_entry vars) (hc_env hook) = Ok custom"
    and e: "list_all2 (\<lambda>kv e. env_entry kv = Ok e) (env_map hook vars u custom) out"
    using assms by (auto simp: build_env_vector_def result_simps try_map_Ok)
  have "out = map (\<lambda>(k, v). k @ ''='' @ v) (env_map hook vars u custom)"
    using e by induction (auto simp: env_entry_Ok)
  moreover have "(\<forall>b\<in>set (as_bytes v). 0x20 \<le> b) \<and> 0 \<notin> set (as_bytes k)"
    if "(k, v) \<in> set (env_map hook vars u custom)" for k v
    using e that by induction (auto simp: env_entry_Ok as_bytes_def)
  ultimately show ?thesis using c that by blast
qed


lemma validate_hook_Ok:
  assumes "validate_hook raw = Ok hook"
  shows "hc_stage hook = rh_stage raw" "hc_command hook = rh_command raw"
    "hc_command hook \<noteq> []" "path_is_absolute (hd (hc_command hook))"
    "0 < hc_timeout hook" "hc_timeout hook \<le> 120" "btree_ok (hc_env hook)"
    "hc_on_failure hook = parse_failure (rh_on_failure raw) (rh_stage raw)"
    "\<And>k t v. (k, t) \<in> set (hc_env hook) \<Longrightarrow> Var v \<in> set t \<Longrightarrow> is_var_allowed (hc_stage hook) v"
proof -
  obtain first more_args entries where cmd: "rh_command raw = first # more_args"
    and abs: "path_is_absolute first"
    and t: "rh_timeout_seconds raw \<noteq> 0" "\<not> rh_timeout_seconds raw > 120"
    and e: "try_map (validate_env_entry (rh_stage raw)) (rh_env raw) = Ok entries"
    and h: "hook = \<lparr>hc_stage = rh_stage raw, hc_command = rh_command raw,
        hc_timeout = unat (rh_timeout_seconds raw),
        hc_on_failure = parse_failure (rh_on_failure raw) (rh_stage raw),
        hc_run_as = (if rh_run_as raw = Some ''user'' then RunAsUser else RunAsRoot),
        hc_env = btree_insert_all entries []\<rparr>"
    using assms by (auto simp: validate_hook_def result_simps split: list.splits)
  show "hc_stage hook = rh_stage raw" "hc_command hook = rh_command raw" "hc_command hook \<noteq> []"
    "path_is_absolute (hd (hc_command hook))" "btree_ok (hc_env hook)"
    "hc_on_failure hook = parse_failure (rh_on_failure raw) (rh_stage raw)"
    using cmd abs by (simp_all add: h btree_ok_insert_all)
  show "0 < hc_timeout hook" using t(1) by (simp add: h unat_gt_0)
  have "unat (rh_timeout_seconds raw) \<le> unat (120 :: u64)"
    using t(2) by (simp only: word_le_nat_alt [symmetric] not_less)
  then show "hc_timeout hook \<le> 120" by (simp add: h)
  fix k ts v assume kt: "(k, ts) \<in> set (hc_env hook)" and v: "Var v \<in> set ts"
  have "map_of (btree_insert_all entries []) k = Some ts"
    using kt by (intro map_of_is_SomeI btree_ok_distinct btree_ok_insert_all) (simp_all add: h)
  then have "(k, ts) \<in> set entries"
    by (auto simp: map_of_btree_insert_all split: option.splits dest: map_of_SomeD)
  from try_map_mem [OF e this] v show "is_var_allowed (hc_stage hook) v"
    by (auto simp: validate_env_entry_def result_simps h)
qed

lemma render_parts_Err:
  "render_parts vars t = Err e \<Longrightarrow> \<exists>v. e = UnresolvedVar v \<and> Var v \<in> set t \<and> resolve vars v = None"
  by (induction vars t rule: render_parts.induct) (auto simp: result_simps)

lemma env_entry_Err_not_unresolved: "env_entry kv \<noteq> Err (UnresolvedVar v)"
  by (auto simp: env_entry_def Let_def split: option.splits)

lemma pre_auth_vars_allowed:
  "is_var_allowed PreAuth v \<Longrightarrow> resolve (for_pre_auth user service hid hash src) v \<noteq> None"
  by (auto simp: for_pre_auth_def)

text \<open>
  Validation makes the placeholders of a hook safe where it restricts them: the environment of
  a validated \<open>pre_auth\<close> hook is never refused for a variable that is not known yet.
\<close>

theorem validated_pre_auth_resolves:
  assumes "validate_hook raw = Ok hook" "hc_stage hook = PreAuth"
  shows "build_env_vector hook (for_pre_auth user service hid hash src) u \<noteq> Err (UnresolvedVar v)"
proof
  assume "build_env_vector hook (for_pre_auth user service hid hash src) u = Err (UnresolvedVar v)"
  then consider
      "try_map (render_entry (for_pre_auth user service hid hash src)) (hc_env hook) = Err (UnresolvedVar v)"
    | custom where "try_map env_entry (env_map hook (for_pre_auth user service hid hash src) u custom) = Err (UnresolvedVar v)"
    by (auto simp: build_env_vector_def result_simps)
  then show False
  proof cases
    case 1
    then obtain k t where "(k, t) \<in> set (hc_env hook)"
      "render_parts (for_pre_auth user service hid hash src) t = Err (UnresolvedVar v)"
      by (auto dest!: try_map_Err simp: render_entry_def result_simps)
    then show False
      using validate_hook_Ok(9) [OF assms(1)] assms(2) pre_auth_vars_allowed render_parts_Err by metis
  next
    case 2
    then show False using env_entry_Err_not_unresolved by (blast dest: try_map_Err)
  qed
qed

section \<open>What the runner does\<close>

text \<open>\<open>logged f\<close> is the executor with results \<open>f\<close> that records the hooks it was called with.\<close>

definition logged ::
  "(hook_config \<Rightarrow> hook_vars \<Rightarrow> (hook_error, hook_outcome) result) \<Rightarrow> hook_config list executor" where
  "logged f hook vars log = (f hook vars, log @ [hook])"

definition passes :: "(hook_config \<Rightarrow> hook_vars \<Rightarrow> (hook_error, hook_outcome) result) \<Rightarrow> hook_vars \<Rightarrow> hook_config \<Rightarrow> bool" where
  "passes f vars hook \<longleftrightarrow> is_ok (apply_on_failure (f hook vars) (hc_on_failure hook))"

lemma run_hook_list_logged:
  "run_hook_list (logged f) vars hooks log =
     (case dropWhile (passes f vars) hooks of
        [] \<Rightarrow> (Ok (), log @ hooks)
      | h # _ \<Rightarrow> (apply_on_failure (f h vars) (hc_on_failure h), log @ takeWhile (passes f vars) hooks @ [h]))"
proof (induction hooks arbitrary: log)
  case (Cons h hooks)
  show ?case
  proof (cases "apply_on_failure (f h vars) (hc_on_failure h)")
    case (Inr u)
    then have "passes f vars h" by (simp add: passes_def)
    with Inr show ?thesis
      by (cases "dropWhile (passes f vars) hooks") (simp_all add: logged_def [of f h vars log] Cons.IH del: dropWhile_eq_Nil_conv)
  qed (simp add: logged_def passes_def)
qed simp

text \<open>
  The runner executes the hooks of the stage in the order of the configuration, up to and
  including the first one whose failure policy lets the failure through, and its result is that
  failure; the hooks of other stages are not run, and with no such hook all of the stage run.
\<close>

theorem run_hooks_prefix:
  "run_hooks_for_stage hooks stage (logged f) vars [] =
     (let hs = filter (\<lambda>h. hc_stage h = stage) hooks
      in case dropWhile (passes f vars) hs of
           [] \<Rightarrow> (Ok (), hs)
         | h # _ \<Rightarrow> (apply_on_failure (f h vars) (hc_on_failure h), takeWhile (passes f vars) hs @ [h]))"
  unfolding run_hooks_for_stage_def run_hook_list_logged Let_def append_Nil by (rule refl)

lemma run_hook_list_Ok:
  "run_hook_list exec vars hooks w = (Ok u, w') \<Longrightarrow> h \<in> set hooks \<Longrightarrow> hc_on_failure h = Abort \<Longrightarrow>
   \<exists>v oc v'. exec h vars v = (Ok oc, v') \<and> ho_exit_code oc = 0 \<and> \<not> ho_killed_by_timeout oc"
proof (induction hooks arbitrary: w)
  case (Cons g hooks)
  obtain r v where e: "exec g vars w = (r, v)" by fastforce
  with Cons.prems(1) have ok: "apply_on_failure r (hc_on_failure g) = Ok ()"
    and more_hooks: "run_hook_list exec vars hooks v = (Ok u, w')"
    by (auto split: sum.splits)
  show ?case
  proof (cases "h = g")
    case True
    then have "\<exists>oc. r = Ok oc \<and> ho_exit_code oc = 0 \<and> \<not> ho_killed_by_timeout oc"
      using ok Cons.prems(3) by (auto simp: apply_on_failure_def split: sum.splits if_splits)
    with True e show ?thesis by blast
  next
    case False
    then show ?thesis using Cons.IH more_hooks Cons.prems(2,3) by simp
  qed
qed simp

section \<open>A concrete hook\<close>

definition demo_raw_hook :: raw_hook where
  "demo_raw_hook =
     \<lparr>rh_stage = PreAuth, rh_command = [''/bin/true''], rh_timeout_seconds = 10,
      rh_on_failure = None, rh_run_as = None, rh_env = [(''GREETING'', ''hi $${pam_user}'')]\<rparr>"

definition demo_hook :: hook_config where
  "demo_hook =
     \<lparr>hc_stage = PreAuth, hc_command = [''/bin/true''], hc_timeout = 10, hc_on_failure = Abort,
      hc_run_as = RunAsRoot, hc_env = [(''GREETING'', [Literal ''hi ${pam_user}''])]\<rparr>"

definition demo_vars :: hook_vars where
  "demo_vars = for_pre_auth ''ann'' ''login'' ''h'' ''h'' ''machine_id''"

lemma demo_validate: "validate_hook demo_raw_hook = Ok demo_hook"
  by code_simp

lemma demo_env_Ok: "is_ok (build_env_vector demo_hook demo_vars None)"
  by code_simp


theorem validated_pre_auth_resolves_witness:
  "build_env_vector demo_hook (for_pre_auth ''ann'' ''login'' ''h'' ''h'' ''machine_id'') None
     \<noteq> Err (UnresolvedVar CertCn)"
  by (rule validated_pre_auth_resolves [OF demo_validate]) (simp add: demo_hook_def)

end
