(* ===== verification/Hook_Exec.thy ===== *)
theory Hook_Exec
  imports Hooks
begin

text \<open>
  The process side of the hook subsystem (\<open>pam_certauth_core/src/hooks\<close>): user resolution
  (\<open>user.rs\<close>), resource caps (\<open>rlimit.rs\<close>), the child between \<open>fork\<close> and \<open>execve\<close>
  (\<open>child_setup.rs\<close>), supervision with the timeout (\<open>wait.rs\<close>), the readers of the child's
  output (\<open>pipe_reader.rs\<close>) and the executor that composes them (\<open>fork_exec.rs\<close>), for Linux.

  The kernel, the name service and the clock are parameters: the result of each system call is an
  argument. A process is the list of the system calls it makes, so that their order is visible.
\<close>

section \<open>Users and resource caps\<close>

record passwd =
  pw_name :: string
  pw_uid :: u32
  pw_gid :: u32
  pw_dir :: string

text \<open>\<open>getpwnam_r\<close> and \<open>getgrouplist\<close>; an error is its \<open>errno\<close>.\<close>

record nss =
  ns_user :: "string \<Rightarrow> (int, passwd option) result"
  ns_groups :: "string \<Rightarrow> u32 \<Rightarrow> (int, u32 list) result"

definition ENOENT :: int where "ENOENT = 2"

definition has_nul :: "string \<Rightarrow> bool" where
  "has_nul s \<longleftrightarrow> 0 \<in> set (as_bytes s)"

definition lookup_user :: "nss \<Rightarrow> string \<Rightarrow> (hook_error, user_info) result" where
  "lookup_user N name =
     (if name = [] then Err (ChildSetup ''empty username'')
      else if has_nul name then Err (ChildSetup ''username contains NUL byte'')
      else (case ns_user N name of
          Inl errno \<Rightarrow> Err (UserResolution name errno)
        | Inr None \<Rightarrow> Err (UserResolution name ENOENT)
        | Inr (Some user) \<Rightarrow>
            and_then (map_err (UserResolution name) (ns_groups N name (pw_gid user)))
              (\<lambda>groups. Ok \<lparr>ui_name = pw_name user, ui_uid = pw_uid user, ui_gid = pw_gid user,
                            ui_groups = groups, ui_home = pw_dir user\<rparr>)))"

record rlimit_caps =
  cpu_seconds :: nat
  max_open_files :: nat
  max_processes :: nat
  max_file_size_bytes :: nat

definition default_caps_for_timeout :: "nat \<Rightarrow> rlimit_caps" where
  "default_caps_for_timeout secs =
     \<lparr>cpu_seconds = max (min (secs * 2) u64_max) 2, max_open_files = 256, max_processes = 64,
      max_file_size_bytes = 1024 * 1024\<rparr>"

section \<open>The child\<close>

datatype resource = RlimitCpu | RlimitNofile | RlimitFsize | RlimitNproc

datatype syscall =
    Setpgid | Setsid | OpenDevNull | Dup2 int int | CloseFd int | CloseRange | GetNofile
  | Setrlimit resource nat | Umask nat | PrctlNoNewPrivs | Setgroups "u32 list" | Setgid u32
  | Setuid u32 | Execve "string list" "string list" | WriteStderr string | ExitProcess nat

text \<open>
  \<open>succeeds\<close> says which calls succeed, \<open>devnull_fd\<close> is what opening \<open>/dev/null\<close> returns (negative
  on failure) and \<open>nofile_cur\<close> the soft limit on descriptors, where it can be read.
\<close>

record kernel =
  succeeds :: "syscall \<Rightarrow> bool"
  devnull_fd :: int
  nofile_cur :: "nat option"

definition die :: "string \<Rightarrow> syscall list" where
  "die msg = [WriteStderr (msg @ [CHR 0x0A]), ExitProcess 127]"

text \<open>A call that must succeed before the rest runs.\<close>

definition must :: "kernel \<Rightarrow> syscall \<Rightarrow> string \<Rightarrow> syscall list \<Rightarrow> syscall list" where
  "must K call msg next_calls = call # (if succeeds K call then next_calls else die msg)"

definition close_high_fds_via_rlimit :: "kernel \<Rightarrow> syscall list" where
  "close_high_fds_via_rlimit K =
     (let max_fd = (case nofile_cur K of Some cur \<Rightarrow> min cur 65536 | None \<Rightarrow> 1024)
      in GetNofile # map (\<lambda>fd. CloseFd (int fd)) [3..<max_fd])"

definition close_high_fds :: "kernel \<Rightarrow> syscall list" where
  "close_high_fds K =
     CloseRange # (if succeeds K CloseRange then [] else close_high_fds_via_rlimit K)"

definition caps_calls :: "rlimit_caps \<Rightarrow> syscall list" where
  "caps_calls caps =
     [Setrlimit RlimitCpu (cpu_seconds caps), Setrlimit RlimitNofile (max_open_files caps),
      Setrlimit RlimitFsize (max_file_size_bytes caps), Setrlimit RlimitNproc (max_processes caps)]"

text \<open>\<open>apply_caps\<close>: the calls made, up to the first that fails, and whether all succeeded.\<close>

definition apply_caps :: "kernel \<Rightarrow> rlimit_caps \<Rightarrow> syscall list \<times> bool" where
  "apply_caps K caps =
     (let cs = caps_calls caps; done_calls = takeWhile (succeeds K) cs
      in (take (Suc (length done_calls)) cs, length done_calls = length cs))"

definition drop_privileges ::
  "kernel \<Rightarrow> user_info option \<Rightarrow> u32 list \<Rightarrow> syscall list \<Rightarrow> syscall list" where
  "drop_privileges K run_as groups next_calls =
     (case run_as of
        None \<Rightarrow> next_calls
      | Some user \<Rightarrow>
          (let ids = must K (Setgid (ui_gid user)) ''hook child: setgid failed''
                (must K (Setuid (ui_uid user)) ''hook child: setuid failed'' next_calls)
           in if groups \<noteq> [] then must K (Setgroups groups) ''hook child: setgroups failed'' ids
              else ids))"

definition exec_hook :: "kernel \<Rightarrow> string list \<Rightarrow> string list \<Rightarrow> syscall list" where
  "exec_hook K argv env =
     (if argv = [] then die ''hook child: empty argv''
      else must K (Execve argv env) ''hook child: execve failed'' [])"

definition redirect_output :: "kernel \<Rightarrow> int \<Rightarrow> int \<Rightarrow> syscall list \<Rightarrow> syscall list" where
  "redirect_output K stdout_w stderr_w next_calls =
     must K (Dup2 stdout_w 1) ''hook child: dup2(stdout, 1) failed''
       (must K (Dup2 stderr_w 2) ''hook child: dup2(stderr, 2) failed''
          ((if stdout_w > 2 then [CloseFd stdout_w] else []) @
           (if stderr_w > 2 \<and> stderr_w \<noteq> stdout_w then [CloseFd stderr_w] else []) @ next_calls))"

definition redirect_input :: "kernel \<Rightarrow> syscall list \<Rightarrow> syscall list" where
  "redirect_input K next_calls =
     OpenDevNull #
     (if devnull_fd K < 0 then die ''hook child: open(/dev/null) failed''
      else must K (Dup2 (devnull_fd K) 0) ''hook child: dup2(devnull, 0) failed''
             (CloseFd (devnull_fd K) # next_calls))"

definition child_setup ::
  "kernel \<Rightarrow> string list \<Rightarrow> string list \<Rightarrow> user_info option \<Rightarrow> rlimit_caps \<Rightarrow> int \<Rightarrow> int \<Rightarrow> u32 list \<Rightarrow>
   syscall list" where
  "child_setup K argv env run_as caps stdout_w stderr_w groups =
     must K Setpgid ''hook child: setpgid failed''
       (Setsid #
        redirect_input K (redirect_output K stdout_w stderr_w
          (close_high_fds K @
           fst (apply_caps K caps) @
           (if \<not> snd (apply_caps K caps) then die ''hook child: setrlimit failed''
            else Umask 63 #
              must K PrctlNoNewPrivs ''hook child: prctl(NO_NEW_PRIVS) failed''
                (drop_privileges K run_as groups (exec_hook K argv env))))))"

section \<open>Supervision\<close>

datatype wait_status = Exited int | Signaled int | OtherStatus

record exit_status =
  es_code :: "int option"
  es_signal :: "int option"

fun from_wait_status :: "wait_status \<Rightarrow> exit_status" where
  "from_wait_status (Exited code) = \<lparr>es_code = Some code, es_signal = None\<rparr>"
| "from_wait_status (Signaled sig) = \<lparr>es_code = None, es_signal = Some sig\<rparr>"
| "from_wait_status OtherStatus = \<lparr>es_code = None, es_signal = None\<rparr>"

definition conventional_code :: "exit_status \<Rightarrow> int" where
  "conventional_code st =
     (case (es_code st, es_signal st) of
        (Some c, _) \<Rightarrow> c | (None, Some s) \<Rightarrow> 128 + s | (None, None) \<Rightarrow> - 1)"

text \<open>
  One call of \<open>waitpid\<close>: the child is still alive (with the clock read next, in milliseconds), was
  reaped (with the clock), the call was interrupted, or failed with an \<open>errno\<close>. A list of polls is
  what successive calls return; a loop that has used it up is still waiting (\<open>None\<close>).
\<close>

datatype poll = StillAlive int | Reaped wait_status int | Eintr | PollError int

datatype signal = SIGTERM | SIGKILL

record wait_outcome =
  wo_status :: exit_status
  wo_killed_by_timeout :: bool
  wo_elapsed :: int

text \<open>What ends a polling loop: the status of the child with the clock or an error, or the deadline.\<close>

type_synonym reaped = "(int, wait_status \<times> int) result"

datatype poll_result = Final reaped | Deadline

text \<open>The polling loop of \<open>wait_with_timeout\<close> and of the SIGTERM phase, up to its deadline.\<close>

fun poll_until :: "int \<Rightarrow> poll list \<Rightarrow> (poll_result \<times> poll list) option" where
  "poll_until deadline [] = None"
| "poll_until deadline (StillAlive now # ps) =
     (if now \<ge> deadline then Some (Deadline, ps) else poll_until deadline ps)"
| "poll_until deadline (Reaped st now # ps) = Some (Final (Ok (st, now)), ps)"
| "poll_until deadline (Eintr # ps) = poll_until deadline ps"
| "poll_until deadline (PollError e # ps) = Some (Final (Err e), ps)"

text \<open>The blocking reap after SIGKILL: every status is final.\<close>

fun reap_loop :: "poll list \<Rightarrow> reaped option" where
  "reap_loop [] = None"
| "reap_loop (Reaped st now # ps) = Some (Ok (st, now))"
| "reap_loop (StillAlive now # ps) = Some (Ok (OtherStatus, now))"
| "reap_loop (Eintr # ps) = reap_loop ps"
| "reap_loop (PollError e # ps) = Some (Err e)"

text \<open>
  \<open>killed_at\<close> is the clock read after SIGTERM was sent, and \<open>killpg_error\<close> the \<open>errno\<close> of sending a
  signal to the group, where it fails.
\<close>

record wait_env =
  we_start :: int
  killed_at :: int
  killpg_error :: "signal \<Rightarrow> int option"

definition ESRCH :: int where "ESRCH = 3"

definition kill_failed :: "wait_env \<Rightarrow> signal \<Rightarrow> int option" where
  "kill_failed E sig = (case killpg_error E sig of
       Some e \<Rightarrow> if e = ESRCH then None else Some e | None \<Rightarrow> None)"

definition finish_wait :: "wait_env \<Rightarrow> bool \<Rightarrow> reaped \<Rightarrow> (hook_error, wait_outcome) result" where
  "finish_wait E killed r =
     (case r of
        Inl e \<Rightarrow> Err (WaitFailed e)
      | Inr (st, now) \<Rightarrow> Ok \<lparr>wo_status = from_wait_status st, wo_killed_by_timeout = killed,
                             wo_elapsed = now - we_start E\<rparr>)"

text \<open>\<open>escalate\<close>: the result, where there is one, and the signals sent.\<close>

definition escalate ::
  "wait_env \<Rightarrow> poll list \<Rightarrow> (hook_error, wait_outcome) result option \<times> signal list" where
  "escalate E ps =
     (case kill_failed E SIGTERM of
        Some e \<Rightarrow> (Some (Err (WaitFailed e)), [SIGTERM])
      | None \<Rightarrow>
          (case poll_until (killed_at E + 2000) ps of
             None \<Rightarrow> (None, [SIGTERM])
           | Some (Deadline, qs) \<Rightarrow>
               (case kill_failed E SIGKILL of
                  Some e \<Rightarrow> (Some (Err (WaitFailed e)), [SIGTERM, SIGKILL])
                | None \<Rightarrow> (map_option (finish_wait E True) (reap_loop qs), [SIGTERM, SIGKILL]))
           | Some (Final r, qs) \<Rightarrow> (Some (finish_wait E True r), [SIGTERM])))"

definition wait_with_timeout ::
  "wait_env \<Rightarrow> nat \<Rightarrow> poll list \<Rightarrow> (hook_error, wait_outcome) result option \<times> signal list" where
  "wait_with_timeout E timeout_ms ps =
     (case poll_until (we_start E + int timeout_ms) ps of
        None \<Rightarrow> (None, [])
      | Some (Deadline, qs) \<Rightarrow> escalate E qs
      | Some (Final r, qs) \<Rightarrow> (Some (finish_wait E False r), []))"

section \<open>The readers of the child's output\<close>

definition MAX_LINE_BYTES :: nat where "MAX_LINE_BYTES = 4096"
definition MAX_CAPTURED_BYTES :: nat where "MAX_CAPTURED_BYTES = 1024 * 1024"

text \<open>
  \<open>log_lines\<close> are the lines handed to the log so far: the bytes, before their lossy decoding, and
  whether the truncation marker is appended. The byte count is a \<open>usize\<close>, added to with saturation.
\<close>

record pipe_reader =
  pr_partial :: bytes
  line_count :: nat
  bytes_ingested :: nat
  capped :: bool
  log_lines :: "(bytes \<times> bool) list"

definition pipe_reader_new :: pipe_reader where
  "pipe_reader_new =
     \<lparr>pr_partial = [], line_count = 0, bytes_ingested = 0, capped = False, log_lines = []\<rparr>"

definition emit_line :: "bytes \<Rightarrow> pipe_reader \<Rightarrow> pipe_reader" where
  "emit_line raw r =
     r \<lparr>line_count := line_count r + 1,
        log_lines := log_lines r @ [(take MAX_LINE_BYTES raw, length raw > MAX_LINE_BYTES)]\<rparr>"

definition flush_partial :: "pipe_reader \<Rightarrow> pipe_reader" where
  "flush_partial r = emit_line (pr_partial r) (r \<lparr>pr_partial := []\<rparr>)"

definition ingest_byte :: "u8 \<Rightarrow> pipe_reader \<Rightarrow> pipe_reader" where
  "ingest_byte b r = (if b = 10 then flush_partial r else r \<lparr>pr_partial := pr_partial r @ [b]\<rparr>)"

definition process_chunk :: "bytes \<Rightarrow> pipe_reader \<Rightarrow> pipe_reader" where
  "process_chunk chunk r0 =
     (let r = r0 \<lparr>bytes_ingested := min (bytes_ingested r0 + length chunk) usize_max\<rparr>;
          already = bytes_ingested r - length chunk;
          remaining_budget = MAX_CAPTURED_BYTES - already;
          head_len = min (length chunk) remaining_budget;
          r1 = fold ingest_byte (take head_len chunk) r
      in if head_len < length chunk \<and> \<not> capped r1
         then r1 \<lparr>capped := True, pr_partial := []\<rparr>
         else r1)"

text \<open>\<open>drain\<close>: read to the end of the pipe, then flush an unterminated last line.\<close>

definition drain :: "bytes \<Rightarrow> pipe_reader \<Rightarrow> pipe_reader" where
  "drain remaining r0 =
     (let r = process_chunk remaining r0
      in if pr_partial r \<noteq> [] \<and> \<not> capped r then flush_partial r else r)"

text \<open>\<open>read_available\<close>: one non-blocking read. \<open>None\<close> is \<open>WouldBlock\<close>, the empty chunk end of file.\<close>

definition read_available :: "bytes option \<Rightarrow> pipe_reader \<Rightarrow> nat \<times> pipe_reader" where
  "read_available got r =
     (case got of
        None \<Rightarrow> (0, r)
      | Some chunk \<Rightarrow> if chunk = [] then (0, r) else (length chunk, process_chunk chunk r))"

section \<open>The executor\<close>

definition build_groups_box :: "user_info option \<Rightarrow> u32 list" where
  "build_groups_box user = (case user of None \<Rightarrow> [] | Some u \<Rightarrow> ui_groups u)"

text \<open>
  What the host does while a hook runs: the two pipes (read end, write end), the fork, the threads
  that could be started, the polls of the child, what it wrote, and the clock at the end.
\<close>

record hook_host =
  hh_nss :: nss
  hh_pipe :: "(int, int \<times> int) result"
  hh_pipe2 :: "(int, int \<times> int) result"
  hh_fork :: "(int, unit) result"
  hh_kernel :: kernel
  hh_reader_ok :: "string \<Rightarrow> bool"
  hh_wait :: wait_env
  hh_polls :: "poll list"
  hh_stdout :: bytes
  hh_stderr :: bytes
  hh_duration_ms :: nat

definition spawn_reader :: "hook_host \<Rightarrow> string \<Rightarrow> (hook_error, unit) result" where
  "spawn_reader H name =
     ensure (hh_reader_ok H name) (ChildSetup (name @ '' reader thread spawn failed''))"

text \<open>\<open>supervise_parent\<close>: the result of the parent, \<open>None\<close> while it waits, and the signals sent.\<close>

definition supervise_parent ::
  "hook_host \<Rightarrow> hook_config \<Rightarrow> (hook_error, hook_outcome) result option \<times> signal list" where
  "supervise_parent H hook =
     (case and_then (spawn_reader H ''pam_certauth.hook.stdout'')
             (\<lambda>_. spawn_reader H ''pam_certauth.hook.stderr'') of
        Inl e \<Rightarrow> (Some (Err e), [])
      | Inr _ \<Rightarrow>
          (case wait_with_timeout (hh_wait H) (hc_timeout hook * 1000) (hh_polls H) of
             (r, signals) \<Rightarrow>
               (map_option (\<lambda>r. and_then r (\<lambda>w.
                   Ok \<lparr>ho_stage = hc_stage hook, ho_command = hc_command hook,
                       ho_exit_code = conventional_code (wo_status w),
                       ho_killed_by_timeout = wo_killed_by_timeout w,
                       ho_duration_ms = hh_duration_ms H,
                       ho_stdout_lines = line_count (drain (hh_stdout H) pipe_reader_new),
                       ho_stderr_lines = line_count (drain (hh_stderr H) pipe_reader_new)\<rparr>)) r, signals)))"

definition hook_user :: "hook_host \<Rightarrow> hook_config \<Rightarrow> hook_vars \<Rightarrow> (hook_error, user_info option) result" where
  "hook_user H hook vars =
     (case hc_run_as hook of
        RunAsRoot \<Rightarrow> Ok None
      | RunAsUser \<Rightarrow>
          and_then (ok_or (ChildSetup ''run_as=user but vars.pam_user is None'') (hv_pam_user vars))
            (\<lambda>name. and_then (lookup_user (hh_nss H) name) (\<lambda>u. Ok (Some u))))"

text \<open>The steps before the fork: what the child gets.\<close>

record prepared =
  pp_user :: "user_info option"
  pp_env :: "string list"
  pp_out :: "int \<times> int"
  pp_err :: "int \<times> int"

definition prepare :: "hook_host \<Rightarrow> hook_config \<Rightarrow> hook_vars \<Rightarrow> (hook_error, prepared) result" where
  "prepare H hook vars =
     and_then (hook_user H hook vars) (\<lambda>user.
     and_then (build_env_vector hook vars user) (\<lambda>env.
     and_then (ensure (hc_command hook \<noteq> []) (CommandUnusable [])) (\<lambda>_.
     and_then (try_each (\<lambda>arg. ensure (\<not> has_nul arg) (ChildSetup ''argv contains NUL byte'')) (hc_command hook)) (\<lambda>_.
     and_then (map_err PipeFailed (hh_pipe H)) (\<lambda>out.
     and_then (map_err PipeFailed (hh_pipe2 H)) (\<lambda>err.
     and_then (map_err ForkFailed (hh_fork H)) (\<lambda>_.
     Ok \<lparr>pp_user = user, pp_env = env, pp_out = out, pp_err = err\<rparr>)))))))"

text \<open>
  \<open>ForkExecExecutor::execute\<close>: the parent's result, the system calls of the child and the signals
  sent to it. The child closes its copies of the read ends first.
\<close>

definition fork_exec_execute ::
  "hook_host \<Rightarrow> hook_config \<Rightarrow> hook_vars \<Rightarrow>
   (hook_error, hook_outcome) result option \<times> syscall list \<times> signal list" where
  "fork_exec_execute H hook vars =
     (case prepare H hook vars of
        Inl e \<Rightarrow> (Some (Err e), [], [])
      | Inr p \<Rightarrow>
          (case supervise_parent H hook of (r, signals) \<Rightarrow>
             (r,
              CloseFd (fst (pp_out p)) # CloseFd (fst (pp_err p)) #
                child_setup (hh_kernel H) (hc_command hook) (pp_env p) (pp_user p)
                  (default_caps_for_timeout (hc_timeout hook)) (snd (pp_out p)) (snd (pp_err p))
                  (build_groups_box (pp_user p)),
              signals)))"

section \<open>The child reaches the hook only with its privileges dropped\<close>

text \<open>The calls that give up the identity of the caller, in the only order that works.\<close>

definition identity_calls :: "user_info option \<Rightarrow> u32 list \<Rightarrow> syscall list" where
  "identity_calls run_as groups =
     (case run_as of
        None \<Rightarrow> []
      | Some u \<Rightarrow> (if groups \<noteq> [] then [Setgroups groups] else []) @ [Setgid (ui_gid u), Setuid (ui_uid u)])"

definition is_exec :: "syscall \<Rightarrow> bool" where
  "is_exec c = (case c of Execve _ _ \<Rightarrow> True | _ \<Rightarrow> False)"

lemma is_exec_simps [simp]:
  "is_exec (Execve a e)" "\<not> is_exec Setpgid" "\<not> is_exec Setsid" "\<not> is_exec OpenDevNull"
  "\<not> is_exec (Dup2 i j)" "\<not> is_exec (CloseFd i)" "\<not> is_exec CloseRange" "\<not> is_exec GetNofile"
  "\<not> is_exec (Setrlimit r n)" "\<not> is_exec (Umask n)" "\<not> is_exec PrctlNoNewPrivs"
  "\<not> is_exec (Setgroups gs)" "\<not> is_exec (Setgid g)" "\<not> is_exec (Setuid g)"
  "\<not> is_exec (WriteStderr m)" "\<not> is_exec (ExitProcess n)"
  by (simp_all add: is_exec_def)

lemma no_exec_die [simp]: "list_ex is_exec (die msg) = False"
  by (simp add: die_def)

lemma exec_must [simp]:
  "\<not> is_exec c \<Longrightarrow> list_ex is_exec (must K c msg cs) = (succeeds K c \<and> list_ex is_exec cs)"
  by (simp add: must_def)

lemma no_exec_close [simp]: "list_ex is_exec (close_high_fds K) = False"
  by (auto simp: close_high_fds_def close_high_fds_via_rlimit_def Let_def list_ex_iff)

lemma no_exec_caps [simp]: "list_ex is_exec (take n (caps_calls caps)) = False"
  by (auto simp: caps_calls_def list_ex_iff dest!: in_set_takeD)

lemma apply_caps_ok:
  "snd (apply_caps K caps) \<Longrightarrow> fst (apply_caps K caps) = caps_calls caps \<and> (\<forall>c\<in>set (caps_calls caps). succeeds K c)"
proof -
  assume a: "snd (apply_caps K caps)"
  then have w: "takeWhile (succeeds K) (caps_calls caps) = caps_calls caps"
    by (metis apply_caps_def snd_conv takeWhile_eq_take take_all_iff order_refl)
  then have "\<forall>c\<in>set (caps_calls caps). succeeds K c" by (simp only: takeWhile_eq_all_conv)
  then show ?thesis unfolding apply_caps_def Let_def w by simp
qed

lemma exec_drop_privileges:
  assumes "list_ex is_exec (drop_privileges K run_as groups cs)"
  shows "drop_privileges K run_as groups cs = identity_calls run_as groups @ cs"
    and "\<forall>c\<in>set (identity_calls run_as groups). succeeds K c" and "list_ex is_exec cs"
  using assms
  by (auto simp: drop_privileges_def identity_calls_def must_def Let_def split: option.splits if_splits)

lemma exec_exec_hook:
  assumes "list_ex is_exec (exec_hook K argv env)"
  shows "\<exists>after. exec_hook K argv env = Execve argv env # after \<and> \<not> list_ex is_exec after"
  using assms by (auto simp: exec_hook_def must_def split: if_splits)

text \<open>What every hook is confined by before it starts.\<close>

definition confinement :: "rlimit_caps \<Rightarrow> syscall list" where
  "confinement caps = Setpgid # caps_calls caps @ [PrctlNoNewPrivs]"

lemma child_setup_exec:
  assumes "list_ex is_exec (child_setup K argv env run_as caps out_w err_w groups)"
  shows "\<exists>pre after. child_setup K argv env run_as caps out_w err_w groups =
      pre @ identity_calls run_as groups @ Execve argv env # after
    \<and> \<not> list_ex is_exec pre \<and> \<not> list_ex is_exec after
    \<and> set (confinement caps) \<subseteq> set pre
    \<and> (\<forall>c \<in> set (confinement caps @ identity_calls run_as groups). succeeds K c)"
proof -
  let ?tail = "drop_privileges K run_as groups (exec_hook K argv env)"
  have caps: "snd (apply_caps K caps)" and t: "list_ex is_exec ?tail"
    and s: "succeeds K Setpgid" "\<not> devnull_fd K < 0" "succeeds K (Dup2 (devnull_fd K) 0)"
      "succeeds K (Dup2 out_w 1)" "succeeds K (Dup2 err_w 2)" "succeeds K PrctlNoNewPrivs"
    using assms
    by (auto simp: child_setup_def redirect_input_def redirect_output_def apply_caps_def Let_def
        split: if_splits)
  note c = apply_caps_ok [OF caps]
  obtain after where a: "exec_hook K argv env = Execve argv env # after" "\<not> list_ex is_exec after"
    using exec_exec_hook [OF exec_drop_privileges(3) [OF t]] by blast
  define pre where "pre = [Setpgid, Setsid, OpenDevNull, Dup2 (devnull_fd K) 0, CloseFd (devnull_fd K),
      Dup2 out_w 1, Dup2 err_w 2] @ (if out_w > 2 then [CloseFd out_w] else []) @
      (if err_w > 2 \<and> err_w \<noteq> out_w then [CloseFd err_w] else []) @ close_high_fds K @
      caps_calls caps @ [Umask 63, PrctlNoNewPrivs]"
  have "child_setup K argv env run_as caps out_w err_w groups = pre @ ?tail"
    using s caps c by (simp add: child_setup_def redirect_input_def redirect_output_def must_def pre_def)
  moreover have "\<not> list_ex is_exec pre"
    using no_exec_caps [of "length (caps_calls caps)" caps] by (auto simp: pre_def)
  moreover have "set (confinement caps) \<subseteq> set pre" by (auto simp: confinement_def pre_def)
  moreover have "\<forall>c \<in> set (confinement caps @ identity_calls run_as groups). succeeds K c"
    using s c exec_drop_privileges(2) [OF t] by (auto simp: confinement_def)
  ultimately show ?thesis
    using exec_drop_privileges(1) [OF t] a by (intro exI [of _ pre] exI [of _ after]) simp
qed

lemma child_setup_ends:
  "\<exists>cs c. child_setup K argv env run_as caps out_w err_w groups = cs @ [c] \<and> (is_exec c \<or> c = ExitProcess 127)"
proof -
  define fin where "fin cs \<longleftrightarrow> cs \<noteq> [] \<and> (is_exec (last cs) \<or> last cs = ExitProcess 127)" for cs
  have m: "fin cs \<Longrightarrow> fin (must K c msg cs)" for c msg cs by (simp add: fin_def must_def die_def)
  have d: "fin (die msg)" for msg by (simp add: fin_def die_def)
  have a: "fin cs \<Longrightarrow> fin (bs @ cs)" "fin cs \<Longrightarrow> fin (c # cs)" for bs cs c by (simp_all add: fin_def)
  have e: "fin (exec_hook K argv env)" by (simp add: exec_hook_def must_def die_def fin_def)
  have "fin (drop_privileges K run_as groups (exec_hook K argv env))"
    using e by (auto simp: drop_privileges_def Let_def intro!: m split: option.split)
  then have "fin (child_setup K argv env run_as caps out_w err_w groups)"
    unfolding child_setup_def redirect_input_def redirect_output_def by (auto intro!: m a d)
  then show ?thesis
    by (intro exI [of _ "butlast (child_setup K argv env run_as caps out_w err_w groups)"]
        exI [of _ "last (child_setup K argv env run_as caps out_w err_w groups)"]) (simp add: fin_def)
qed

lemma prepare_Ok:
  assumes "prepare H hook vars = Ok p"
  shows "hook_user H hook vars = Ok (pp_user p)" "build_env_vector hook vars (pp_user p) = Ok (pp_env p)"
    "hc_command hook \<noteq> []" "\<forall>arg\<in>set (hc_command hook). \<not> has_nul arg"
  using assms by (auto simp: prepare_def result_simps)

text \<open>
  C14. A hook configured to run as the user never runs with the caller's identity. Where the child
  of an executed hook reaches \<open>execve\<close> at all, it does so once, with the hook's command and the
  environment built for it. Immediately before it, supplementary groups, group and user were set to
  those of the PAM user, in this order; the resource caps, the own process group and the
  no-new-privileges flag were set before that; and all these calls succeeded.
\<close>

theorem hook_runs_as_user:
  assumes "fork_exec_execute H hook vars = (r, child, signals)" "hc_run_as hook = RunAsUser"
    "list_ex is_exec child"
  shows "\<exists>name u env pre after. hv_pam_user vars = Some name \<and> lookup_user (hh_nss H) name = Ok u
    \<and> build_env_vector hook vars (Some u) = Ok env
    \<and> child = pre @ identity_calls (Some u) (ui_groups u) @ Execve (hc_command hook) env # after
    \<and> \<not> list_ex is_exec pre \<and> \<not> list_ex is_exec after
    \<and> set (confinement (default_caps_for_timeout (hc_timeout hook))) \<subseteq> set pre
    \<and> list_all (succeeds (hh_kernel H))
        (confinement (default_caps_for_timeout (hc_timeout hook)) @ identity_calls (Some u) (ui_groups u))"
proof -
  obtain p where p: "prepare H hook vars = Ok p"
    and ch: "child = CloseFd (fst (pp_out p)) # CloseFd (fst (pp_err p)) #
                child_setup (hh_kernel H) (hc_command hook) (pp_env p) (pp_user p)
                  (default_caps_for_timeout (hc_timeout hook)) (snd (pp_out p)) (snd (pp_err p))
                  (build_groups_box (pp_user p))"
    using assms(1,3) by (auto simp: fork_exec_execute_def split: sum.splits prod.splits)
  obtain name u where u: "hv_pam_user vars = Some name" "lookup_user (hh_nss H) name = Ok u" "pp_user p = Some u"
    using prepare_Ok(1) [OF p] assms(2) by (auto simp: hook_user_def result_simps)
  have "list_ex is_exec (child_setup (hh_kernel H) (hc_command hook) (pp_env p) (Some u)
      (default_caps_for_timeout (hc_timeout hook)) (snd (pp_out p)) (snd (pp_err p)) (ui_groups u))"
    using assms(3) ch u(3) by (simp add: build_groups_box_def)
  from child_setup_exec [OF this] obtain pre after where
    c: "child_setup (hh_kernel H) (hc_command hook) (pp_env p) (Some u)
        (default_caps_for_timeout (hc_timeout hook)) (snd (pp_out p)) (snd (pp_err p)) (ui_groups u) =
        pre @ identity_calls (Some u) (ui_groups u) @ Execve (hc_command hook) (pp_env p) # after"
      "\<not> list_ex is_exec pre" "\<not> list_ex is_exec after"
      "set (confinement (default_caps_for_timeout (hc_timeout hook))) \<subseteq> set pre"
      "\<forall>c \<in> set (confinement (default_caps_for_timeout (hc_timeout hook)) @ identity_calls (Some u) (ui_groups u)).
         succeeds (hh_kernel H) c" by blast
  show ?thesis
  proof (intro exI conjI)
    show "child = (CloseFd (fst (pp_out p)) # CloseFd (fst (pp_err p)) # pre) @
        identity_calls (Some u) (ui_groups u) @ Execve (hc_command hook) (pp_env p) # after"
      using ch c(1) u(3) by (simp add: build_groups_box_def)
    show "list_all (succeeds (hh_kernel H)) (confinement (default_caps_for_timeout (hc_timeout hook)) @
        identity_calls (Some u) (ui_groups u))" using c(5) by (simp add: list_all_iff)
  qed (use u c prepare_Ok(2) [OF p] in auto)
qed

section \<open>Supervision returns and signals only after the deadline\<close>

lemma poll_until_keeps:
  "poll_until d ps = Some (Deadline, qs) \<Longrightarrow>
   (\<exists>now. StillAlive now \<in> set ps \<and> d \<le> now) \<and> set qs \<subseteq> set ps \<and> (Reaped st t \<in> set ps \<longrightarrow> Reaped st t \<in> set qs)"
  by (induction d ps rule: poll_until.induct) (auto split: if_splits)

lemma poll_until_returns: "Reaped st t \<in> set ps \<Longrightarrow> poll_until d ps \<noteq> None"
  by (induction d ps rule: poll_until.induct) auto

lemma reap_loop_returns: "Reaped st t \<in> set ps \<Longrightarrow> reap_loop ps \<noteq> None"
  by (induction ps rule: reap_loop.induct) auto

lemma deadline_reap_returns:
  "poll_until d ps = Some (Deadline, qs) \<Longrightarrow> Reaped st t \<in> set ps \<Longrightarrow> \<exists>z. reap_loop qs = Some z"
  using poll_until_keeps [of d ps qs st t] reap_loop_returns [of st t qs] by auto

lemma finish_wait_Ok: "finish_wait E killed r = Ok w \<Longrightarrow> wo_killed_by_timeout w = killed"
  by (auto simp: finish_wait_def split: sum.splits)

lemma escalate_cases:
  assumes "escalate E ps = (r, signals)"
  shows "signals = [SIGTERM] \<or>
      signals = [SIGTERM, SIGKILL] \<and> (\<exists>now. StillAlive now \<in> set ps \<and> killed_at E + 2000 \<le> now)"
    and "r = Some (Ok w) \<Longrightarrow> wo_killed_by_timeout w"
  using assms
  by (auto simp: escalate_def split: option.splits poll_result.splits
      dest: poll_until_keeps dest!: finish_wait_Ok)

lemma escalate_returns:
  assumes "Reaped st t \<in> set ps"
  shows "fst (escalate E ps) \<noteq> None"
proof -
  obtain p qs where p: "poll_until (killed_at E + 2000) ps = Some (p, qs)"
    using poll_until_returns [OF assms, of "killed_at E + 2000"] by auto
  show ?thesis
    using p deadline_reap_returns [of "killed_at E + 2000" ps qs, OF _ assms]
    by (cases p) (auto simp: escalate_def split: option.splits)
qed


section \<open>Reading the output in pieces\<close>

definition reader_ok :: "pipe_reader \<Rightarrow> bool" where
  "reader_ok r \<longleftrightarrow> capped r = (MAX_CAPTURED_BYTES < bytes_ingested r) \<and> (capped r \<longrightarrow> pr_partial r = [])"

lemma ingest_byte_keeps [simp]:
  "bytes_ingested (ingest_byte b r) = bytes_ingested r" "capped (ingest_byte b r) = capped r"
  by (simp_all add: ingest_byte_def flush_partial_def emit_line_def)

lemma fold_ingest_keeps [simp]:
  "bytes_ingested (fold ingest_byte bs r) = bytes_ingested r" "capped (fold ingest_byte bs r) = capped r"
  by (induction bs arbitrary: r) simp_all

lemma ingest_byte_upd:
  "ingest_byte b (r \<lparr>bytes_ingested := n\<rparr>) = ingest_byte b r \<lparr>bytes_ingested := n\<rparr>"
  by (simp add: ingest_byte_def flush_partial_def emit_line_def)

lemma fold_ingest_upd:
  "fold ingest_byte bs (r \<lparr>bytes_ingested := n\<rparr>) = fold ingest_byte bs r \<lparr>bytes_ingested := n\<rparr>"
  by (induction bs arbitrary: r) (simp_all add: ingest_byte_upd)

text \<open>Below the width of the counter, a chunk is ingested up to the budget that is left.\<close>

definition ingest :: "bytes \<Rightarrow> pipe_reader \<Rightarrow> pipe_reader" where
  "ingest chunk r =
     (let n = bytes_ingested r + length chunk;
          r' = fold ingest_byte (take (MAX_CAPTURED_BYTES - bytes_ingested r) chunk) r
      in if MAX_CAPTURED_BYTES < n then r' \<lparr>bytes_ingested := n, capped := True, pr_partial := []\<rparr>
         else r' \<lparr>bytes_ingested := n\<rparr>)"

lemma process_chunk_eq:
  assumes "reader_ok r" "bytes_ingested r + length chunk \<le> usize_max"
  shows "process_chunk chunk r = ingest chunk r"
proof -
  let ?n = "bytes_ingested r + length chunk" and ?k = "MAX_CAPTURED_BYTES - bytes_ingested r"
  have p: "process_chunk chunk r =
      (let r1 = fold ingest_byte (take ?k chunk) r \<lparr>bytes_ingested := ?n\<rparr>
       in if ?k < length chunk \<and> \<not> capped r then r1 \<lparr>capped := True, pr_partial := []\<rparr> else r1)"
    using assms(2) by (simp add: process_chunk_def Let_def fold_ingest_upd min_def)
  show ?thesis
  proof (cases "capped r")
    case True
    then have "?k = 0" "MAX_CAPTURED_BYTES < ?n" "pr_partial r = []" using assms(1) by (simp_all add: reader_ok_def)
    then show ?thesis using True by (simp add: p ingest_def Let_def)
  next
    case False
    then have "(?k < length chunk) = (MAX_CAPTURED_BYTES < ?n)" using assms(1) by (auto simp: reader_ok_def)
    then show ?thesis using False by (simp add: p ingest_def Let_def)
  qed
qed

lemma ingest_ok: "reader_ok r \<Longrightarrow> reader_ok (ingest chunk r)"
  by (auto simp: reader_ok_def ingest_def Let_def)

lemma bytes_ingested_ingest [simp]: "bytes_ingested (ingest chunk r) = bytes_ingested r + length chunk"
  by (simp add: ingest_def Let_def)

lemma ingest_append:
  assumes "reader_ok r"
  shows "ingest b (ingest a r) = ingest (a @ b) r"
proof (cases "MAX_CAPTURED_BYTES < bytes_ingested r + length a")
  case True
  then have "take (MAX_CAPTURED_BYTES - bytes_ingested r) (a @ b) = take (MAX_CAPTURED_BYTES - bytes_ingested r) a"
    by simp
  then show ?thesis using True by (simp add: ingest_def Let_def add.assoc)
next
  case False
  then have "take (MAX_CAPTURED_BYTES - bytes_ingested r) (a @ b) =
      a @ take (MAX_CAPTURED_BYTES - (bytes_ingested r + length a)) b" by simp
  then show ?thesis using False by (simp add: ingest_def Let_def add.assoc fold_ingest_upd)
qed

lemma fold_process_chunk:
  "reader_ok r \<Longrightarrow> bytes_ingested r + length (concat cs) \<le> usize_max \<Longrightarrow>
   fold process_chunk cs r = (if cs = [] then r else ingest (concat cs) r)"
proof (induction cs arbitrary: r)
  case (Cons c cs)
  have c: "process_chunk c r = ingest c r" by (rule process_chunk_eq) (use Cons.prems in simp_all)
  show ?case
    using Cons.IH [of "ingest c r"] Cons.prems c
    by (cases "cs = []") (simp_all add: ingest_ok ingest_append add.assoc)
qed simp

lemma ingest_Nil: "reader_ok r \<Longrightarrow> ingest [] r = r"
  by (auto simp: ingest_def Let_def reader_ok_def)

text \<open>The bytes of complete lines and of the pending one are never more than were ingested.\<close>

definition logged_bytes :: "pipe_reader \<Rightarrow> nat" where
  "logged_bytes r = sum_list (map (\<lambda>(l, _). length l) (log_lines r)) + length (pr_partial r)"

definition lines_ok :: "pipe_reader \<Rightarrow> bool" where
  "lines_ok r \<longleftrightarrow> line_count r = length (log_lines r) \<and> (\<forall>(l, _)\<in>set (log_lines r). length l \<le> MAX_LINE_BYTES)"

lemma ingest_byte_lines:
  "lines_ok r \<Longrightarrow> lines_ok (ingest_byte b r)" "logged_bytes (ingest_byte b r) \<le> logged_bytes r + 1"
  by (auto simp: lines_ok_def logged_bytes_def ingest_byte_def flush_partial_def emit_line_def)

lemma fold_ingest_lines:
  "lines_ok r \<Longrightarrow> lines_ok (fold ingest_byte bs r)"
  "logged_bytes (fold ingest_byte bs r) \<le> logged_bytes r + length bs"
proof (induction bs arbitrary: r)
  case (Cons b bs)
  { case 1 then show ?case using Cons.IH(1) ingest_byte_lines(1) by simp }
  { case 2 then show ?case using Cons.IH(2) [of "ingest_byte b r"] ingest_byte_lines(2) [of b r] by simp }
qed simp_all

lemma ingest_new_bound:
  "lines_ok (ingest out pipe_reader_new) \<and> logged_bytes (ingest out pipe_reader_new) \<le> MAX_CAPTURED_BYTES"
  (is "lines_ok ?r \<and> _")
proof -
  let ?f = "fold ingest_byte (take MAX_CAPTURED_BYTES out) pipe_reader_new"
  have "lines_ok ?f" by (rule fold_ingest_lines(1)) (simp add: lines_ok_def pipe_reader_new_def)
  moreover have "logged_bytes ?f \<le> MAX_CAPTURED_BYTES"
    using fold_ingest_lines(2) [of "take MAX_CAPTURED_BYTES out" pipe_reader_new]
    by (simp add: logged_bytes_def pipe_reader_new_def)
  moreover have "log_lines ?r = log_lines ?f" "line_count ?r = line_count ?f" "length (pr_partial ?r) \<le> length (pr_partial ?f)"
    by (simp_all add: ingest_def Let_def pipe_reader_new_def)
  ultimately show ?thesis by (simp add: lines_ok_def logged_bytes_def)
qed

text \<open>
  The captured output does not depend on how the pipe delivers it: reading in any pieces and
  then draining gives the same lines as draining everything at once. No more than the cap of one
  mebibyte reaches the log, in lines of at most 4096 bytes, and the count is the number of lines.
\<close>

theorem output_capture:
  assumes "length (concat cs @ out) \<le> usize_max"
  defines "r \<equiv> drain out (fold process_chunk cs pipe_reader_new)"
  shows "r = drain (concat cs @ out) pipe_reader_new
    \<and> line_count r = length (log_lines r)
    \<and> list_all (\<lambda>(l, _). length l \<le> MAX_LINE_BYTES) (log_lines r)
    \<and> sum_list (map (\<lambda>(l, _). length l) (log_lines r)) \<le> MAX_CAPTURED_BYTES"
proof -
  have n: "reader_ok pipe_reader_new" "bytes_ingested pipe_reader_new = 0"
    by (simp_all add: reader_ok_def pipe_reader_new_def)
  let ?i = "ingest (concat cs @ out) pipe_reader_new"
  have "fold process_chunk cs pipe_reader_new = ingest (concat cs) pipe_reader_new"
    using fold_process_chunk [of pipe_reader_new cs] n assms(1) ingest_Nil [OF n(1)] by auto
  then have p: "process_chunk out (fold process_chunk cs pipe_reader_new) = ?i"
    using process_chunk_eq [OF ingest_ok [OF n(1)], of "concat cs" out] n assms(1) ingest_append [OF n(1)]
    by simp
  moreover have "process_chunk (concat cs @ out) pipe_reader_new = ?i"
    by (rule process_chunk_eq [OF n(1)]) (use n assms(1) in simp)
  ultimately have eq: "r = drain (concat cs @ out) pipe_reader_new"
    by (simp add: r_def drain_def)
  have "r = (if pr_partial ?i \<noteq> [] \<and> \<not> capped ?i then flush_partial ?i else ?i)"
    by (simp add: r_def drain_def p)
  then have "lines_ok r \<and> logged_bytes r \<le> MAX_CAPTURED_BYTES"
    using ingest_new_bound [of "concat cs @ out"]
    by (auto simp: lines_ok_def logged_bytes_def flush_partial_def emit_line_def split: if_splits)
  with eq show ?thesis by (auto simp: lines_ok_def logged_bytes_def list_all_iff)
qed

section \<open>A concrete host\<close>

definition demo_nss :: nss where
  "demo_nss =
     \<lparr>ns_user = (\<lambda>name. Ok (Some \<lparr>pw_name = name, pw_uid = 1000, pw_gid = 100, pw_dir = ''/home''\<rparr>)),
      ns_groups = (\<lambda>name gid. Ok [gid, 27])\<rparr>"

definition demo_kernel :: kernel where
  "demo_kernel = \<lparr>succeeds = (\<lambda>_. True), devnull_fd = 7, nofile_cur = None\<rparr>"

definition demo_wait :: wait_env where
  "demo_wait = \<lparr>we_start = 0, killed_at = 10000, killpg_error = (\<lambda>_. None)\<rparr>"

definition demo_host :: hook_host where
  "demo_host =
     \<lparr>hh_nss = demo_nss, hh_pipe = Ok (3, 4), hh_pipe2 = Ok (5, 6), hh_fork = Ok (),
      hh_kernel = demo_kernel, hh_reader_ok = (\<lambda>_. True), hh_wait = demo_wait,
      hh_polls = [StillAlive 50, Reaped (Exited 0) 100], hh_stdout = [104, 105, 10],
      hh_stderr = [], hh_duration_ms = 100\<rparr>"

definition demo_user_hook :: hook_config where
  "demo_user_hook = demo_hook \<lparr>hc_run_as := RunAsUser, hc_env := []\<rparr>"

definition demo_run :: "(hook_error, hook_outcome) result option \<times> syscall list \<times> signal list" where
  "demo_run = fork_exec_execute demo_host demo_user_hook demo_vars"

definition demo_user :: user_info where
  "demo_user = \<lparr>ui_name = ''ann'', ui_uid = 1000, ui_gid = 100, ui_groups = [100, 27], ui_home = ''/home''\<rparr>"

lemma demo_lookup: "lookup_user demo_nss ''ann'' = Ok demo_user"
  by code_simp

lemma demo_user_env: "is_ok (build_env_vector demo_user_hook demo_vars (Some demo_user))"
  by code_simp

lemma demo_prepare: "is_ok (prepare demo_host demo_user_hook demo_vars)"
proof -
  have u: "hook_user demo_host demo_user_hook demo_vars = Ok (Some demo_user)"
    using demo_lookup
    by (simp add: hook_user_def demo_host_def demo_user_hook_def demo_vars_def for_pre_auth_def)
  have c: "hc_command demo_user_hook = [''/bin/true'']" by (simp add: demo_user_hook_def demo_hook_def)
  have "\<not> has_nul ''/bin/true''" by code_simp
  with u c demo_user_env show ?thesis by (auto simp: prepare_def demo_host_def is_ok_ex)
qed

lemma child_all_succeed:
  assumes "\<And>c. succeeds K c" "0 \<le> devnull_fd K" "argv \<noteq> []"
  shows "list_ex is_exec (child_setup K argv env run_as caps out_w err_w groups)"
proof -
  have "snd (apply_caps K caps)" using assms(1) by (simp add: apply_caps_def caps_calls_def)
  then show ?thesis
    using assms by (auto simp: child_setup_def redirect_input_def redirect_output_def drop_privileges_def
        exec_hook_def must_def Let_def split: option.split)
qed

lemma demo_run_execs: "list_ex is_exec (fst (snd demo_run))"
proof -
  obtain p where "prepare demo_host demo_user_hook demo_vars = Ok p"
    using demo_prepare by (auto simp: is_ok_ex)
  then show ?thesis
    by (auto simp: demo_run_def fork_exec_execute_def demo_host_def demo_kernel_def demo_user_hook_def
        demo_hook_def intro!: child_all_succeed split: prod.split)
qed

theorem hook_runs_as_user_witness:
  "\<exists>env pre after. fst (snd demo_run) =
     pre @ [Setgroups [100, 27], Setgid 100, Setuid 1000, Execve [''/bin/true''] env] @ after"
proof -
  have "hc_run_as demo_user_hook = RunAsUser" by (simp add: demo_user_hook_def)
  from hook_runs_as_user [of demo_host demo_user_hook demo_vars "fst demo_run" "fst (snd demo_run)"
      "snd (snd demo_run)", OF _ this demo_run_execs]
  obtain name v env pre after where v: "hv_pam_user demo_vars = Some name"
    "lookup_user (hh_nss demo_host) name = Ok v"
    "fst (snd demo_run) = pre @ identity_calls (Some v) (ui_groups v) @ Execve (hc_command demo_user_hook) env # after"
    unfolding demo_run_def prod.collapse by blast
  have "v = demo_user" using v(1,2) demo_lookup by (simp add: demo_vars_def for_pre_auth_def demo_host_def)
  with v(3) show ?thesis
    by (intro exI [of _ env] exI [of _ pre] exI [of _ after])
      (simp add: identity_calls_def demo_user_def demo_user_hook_def demo_hook_def)
qed

text \<open>A child that ignores SIGTERM: killed two seconds later, and reaped.\<close>

definition demo_polls :: "poll list" where
  "demo_polls = [StillAlive 9000, StillAlive 10000, Eintr, StillAlive 12000, Reaped (Signaled 9) 12001]"


theorem output_capture_witness:
  "drain [105, 10, 33] (fold process_chunk [[104], [105, 10]] pipe_reader_new) =
     drain [104, 105, 10, 105, 10, 33] pipe_reader_new"
  using output_capture [of "[[104], [105, 10]]" "[105, 10, 33]"] by (simp add: usize_max_def)

end
