(* ===== verification/Usb_Mount.thy ===== *)
theory Usb_Mount
  imports Btree_Map "HOL-Library.Product_Lexorder"
begin

text \<open>
  Finding and mounting the medium: the enumeration of USB block devices and their partitions and the
  wait for one (\<open>pam_certauth_core/src/usb\<close>), and the mount with its guard
  (\<open>pam_certauth_core/src/mount/usb.rs\<close>, \<open>mount_guard.rs\<close>), for Linux. udev and the kernel are
  parameters: a device is the record of the properties udev gives, and a call to the system is its
  result. Property values are text; instants are milliseconds.
\<close>

section \<open>Devices and partitions\<close>

record usb_device =
  dev_devnode :: string
  dev_serial :: "string option"
  dev_vid :: u16
  dev_pid :: u16
  dev_fs_type :: "string option"

datatype usb_error =
    Udev string
  | UsbIo int
  | UsbTimeout
  | NoMatchingDevice
  | MissingProperty string
  | UsbUnsupportedPlatform
  | TooManyPartitions string nat nat

record partition_candidate =
  pc_devnode :: string
  pc_fs_type :: "string option"
  pc_fs_label :: "string option"

definition ALLOWED_FS :: "string list" where
  "ALLOWED_FS = [''vfat'', ''exfat'', ''ext4'', ''ntfs'']"

definition select_partitions ::
  "string option \<Rightarrow> partition_candidate list \<Rightarrow> partition_candidate list" where
  "select_partitions parent_fs_type partitions =
     (if parent_fs_type \<noteq> None then []
      else filter (\<lambda>p. case pc_fs_type p of None \<Rightarrow> False | Some fs \<Rightarrow> fs \<in> set ALLOWED_FS) partitions)"

text \<open>A udev node; the children of a disk are given with the disk.\<close>

record udev_node =
  un_devnode :: "string option"
  un_sysname :: string
  un_property :: "string \<Rightarrow> string option"

definition parse_hex16 :: "string option \<Rightarrow> (usb_error, u16) result" where
  "parse_hex16 v =
     and_then (ok_or (MissingProperty ''ID_VENDOR_ID/ID_MODEL_ID'') v) (\<lambda>s.
       case unsigned_from_str_radix 65535 16 s of
         Some n \<Rightarrow> Ok (of_nat n)
       | None \<Rightarrow> Err (MissingProperty (''malformed hex VID/PID: '' @ s)))"

text \<open>\<open>natural_cmp\<close> compares the text before the trailing digits and then their value.\<close>

definition is_ascii_digit :: "char \<Rightarrow> bool" where
  "is_ascii_digit c \<longleftrightarrow> 48 \<le> (of_char c :: nat) \<and> (of_char c :: nat) \<le> 57"

definition split_suffix :: "string \<Rightarrow> string \<times> nat" where
  "split_suffix s =
     (let suffix = rev (takeWhile is_ascii_digit (rev s));
          prefix = rev (dropWhile is_ascii_digit (rev s))
      in (prefix, case unsigned_from_str_radix (2 ^ 64 - 1) 10 suffix of Some n \<Rightarrow> n | None \<Rightarrow> 0))"

definition natural_sort :: "(string \<times> 'a) list \<Rightarrow> (string \<times> 'a) list" where
  "natural_sort tagged = sort_key (\<lambda>(name, _). split_suffix name) tagged"

definition non_empty :: "string option \<Rightarrow> string option" where
  "non_empty v = (case v of Some s \<Rightarrow> if s = [] then None else Some s | None \<Rightarrow> None)"

definition partition_of :: "udev_node \<Rightarrow> (string \<times> partition_candidate) option" where
  "partition_of child =
     (if un_property child ''DEVTYPE'' \<noteq> Some ''partition'' then None
      else (case un_devnode child of
          None \<Rightarrow> None
        | Some devnode \<Rightarrow>
            Some (un_sysname child,
                  \<lparr>pc_devnode = devnode, pc_fs_type = non_empty (un_property child ''ID_FS_TYPE''),
                   pc_fs_label = non_empty (un_property child ''ID_FS_LABEL'')\<rparr>)))"

definition collect_partition_candidates ::
  "(string, udev_node list) result \<Rightarrow> (usb_error, partition_candidate list) result" where
  "collect_partition_candidates children =
     and_then (map_err Udev children) (\<lambda>nodes.
       Ok (map snd (natural_sort (List.map_filter partition_of nodes))))"

definition is_whole_disk :: "udev_node \<Rightarrow> bool" where
  "is_whole_disk d \<longleftrightarrow> un_property d ''DEVTYPE'' = Some ''disk''"

text \<open>\<open>children\<close> is what scanning below a node gives.\<close>

definition devices_from ::
  "(udev_node \<Rightarrow> (string, udev_node list) result) \<Rightarrow> udev_node \<Rightarrow> (u16 \<times> u16) option \<Rightarrow> nat \<Rightarrow>
   (usb_error, usb_device list) result" where
  "devices_from children d flt max_usb_partitions =
     (case un_devnode d of
        None \<Rightarrow> Ok []
      | Some devnode \<Rightarrow>
          and_then (parse_hex16 (un_property d ''ID_VENDOR_ID'')) (\<lambda>vid.
          and_then (parse_hex16 (un_property d ''ID_MODEL_ID'')) (\<lambda>pid.
          if (case flt of Some (fv, fp) \<Rightarrow> vid \<noteq> fv \<or> pid \<noteq> fp | None \<Rightarrow> False) then Ok []
          else
            let serial = (case un_property d ''ID_SERIAL_SHORT'' of
                    Some s \<Rightarrow> Some s | None \<Rightarrow> un_property d ''ID_SERIAL'');
                fs_type = non_empty (un_property d ''ID_FS_TYPE'')
            in if fs_type \<noteq> None then
                 Ok [\<lparr>dev_devnode = devnode, dev_serial = serial, dev_vid = vid, dev_pid = pid,
                      dev_fs_type = fs_type\<rparr>]
               else if \<not> is_whole_disk d then Ok []
               else (case collect_partition_candidates (children d) of
                   Inl _ \<Rightarrow> Ok []
                 | Inr candidates \<Rightarrow>
                     if length candidates > max_usb_partitions
                     then Err (TooManyPartitions devnode (length candidates) max_usb_partitions)
                     else Ok (map (\<lambda>p. \<lparr>dev_devnode = pc_devnode p, dev_serial = serial,
                                        dev_vid = vid, dev_pid = pid, dev_fs_type = pc_fs_type p\<rparr>)
                               (select_partitions None candidates))))))"

text \<open>The scan of the bus, restricted to USB block devices.\<close>

definition enumerate_once_with_limit ::
  "(udev_node \<Rightarrow> (string, udev_node list) result) \<Rightarrow> (string, udev_node list) result \<Rightarrow>
   (u16 \<times> u16) option \<Rightarrow> nat \<Rightarrow> (usb_error, usb_device list) result" where
  "enumerate_once_with_limit children scan flt max_usb_partitions =
     and_then (map_err Udev scan) (\<lambda>scanned.
     and_then (try_map (\<lambda>d. devices_from children d flt max_usb_partitions) scanned)
       (\<lambda>devs. Ok (concat devs)))"

section \<open>Waiting for a device\<close>

datatype event_type = EventAdd | EventOther

datatype poll_outcome = PollZero | PollReady | PollEintr | PollFailed int

text \<open>One turn of the loop: the clock, the events drained from the queue, and what the poll returns.\<close>

record wait_turn =
  wt_now :: int
  wt_events :: "(event_type \<times> udev_node) list"
  wt_poll :: poll_outcome

fun drain_events ::
  "(udev_node \<Rightarrow> (usb_error, usb_device list) result) \<Rightarrow> (event_type \<times> udev_node) list \<Rightarrow>
   (usb_error, usb_device list) result" where
  "drain_events devs [] = Ok []"
| "drain_events devs ((ty, d) # evs) =
     (if ty = EventAdd \<and> un_property d ''ID_BUS'' = Some ''usb'' then
        and_then (devs d) (\<lambda>found. if found \<noteq> [] then Ok found else drain_events devs evs)
      else drain_events devs evs)"

definition remaining_ms :: "int \<Rightarrow> int \<Rightarrow> nat" where
  "remaining_ms deadline now = min (nat (deadline - now)) 65535"

text \<open>
  The second phase of \<open>wait_for_usb_real\<close>: its result, \<open>None\<close> while it waits, and the timeouts the
  poll was called with, in milliseconds.
\<close>

fun wait_loop ::
  "(udev_node \<Rightarrow> (usb_error, usb_device list) result) \<Rightarrow> int \<Rightarrow> wait_turn list \<Rightarrow>
   (usb_error, usb_device list) result option \<times> nat list" where
  "wait_loop devs deadline [] = (None, [])"
| "wait_loop devs deadline (t # ts) =
     (if wt_now t \<ge> deadline then (Some (Err UsbTimeout), [])
      else (case drain_events devs (wt_events t) of
          Inl e \<Rightarrow> (Some (Err e), [])
        | Inr found \<Rightarrow>
            if found \<noteq> [] then (Some (Ok found), [])
            else let ms = remaining_ms deadline (wt_now t)
              in (case wt_poll t of
                    PollZero \<Rightarrow> (Some (Err UsbTimeout), [ms])
                  | PollReady \<Rightarrow> (case wait_loop devs deadline ts of (r, asked) \<Rightarrow> (r, ms # asked))
                  | PollEintr \<Rightarrow> (case wait_loop devs deadline ts of (r, asked) \<Rightarrow> (r, ms # asked))
                  | PollFailed e \<Rightarrow> (Some (Err (UsbIo e)), [ms]))))"

definition wait_for_usb_real ::
  "(udev_node \<Rightarrow> (string, udev_node list) result) \<Rightarrow> (string, udev_node list) result \<Rightarrow>
   (string, unit) result \<Rightarrow> int \<Rightarrow> wait_turn list \<Rightarrow> nat \<Rightarrow> (u16 \<times> u16) option \<Rightarrow> nat \<Rightarrow>
   (usb_error, usb_device list) result option \<times> nat list" where
  "wait_for_usb_real children scan listen started turns timeout_ms flt max_usb_partitions =
     (case enumerate_once_with_limit children scan flt max_usb_partitions of
        Inl e \<Rightarrow> (Some (Err e), [])
      | Inr already \<Rightarrow>
          if already \<noteq> [] then (Some (Ok already), [])
          else (case map_err Udev listen of
              Inl e \<Rightarrow> (Some (Err e), [])
            | Inr _ \<Rightarrow> wait_loop (\<lambda>d. devices_from children d flt max_usb_partitions)
                         (started + int timeout_ms) turns))"

section \<open>Mounting\<close>

type_synonym mount_flags = u32

definition NOSUID :: mount_flags where "NOSUID = 1"
definition NODEV :: mount_flags where "NODEV = push_bit 1 1"
definition NOEXEC :: mount_flags where "NOEXEC = push_bit 2 1"
definition RO :: mount_flags where "RO = push_bit 3 1"
definition NOATIME :: mount_flags where "NOATIME = push_bit 4 1"

definition flags_contain :: "mount_flags \<Rightarrow> mount_flags \<Rightarrow> bool" where
  "flags_contain self other \<longleftrightarrow> self AND other = other"

definition hardened_flags :: mount_flags where
  "hardened_flags = NOSUID OR NODEV OR NOEXEC OR RO OR NOATIME"

datatype ms_flag = MS_NOSUID | MS_NODEV | MS_NOEXEC | MS_RDONLY | MS_NOATIME

text \<open>The flags \<open>NixMounter\<close> passes to \<open>mount(2)\<close>.\<close>

definition ms_flags :: "mount_flags \<Rightarrow> ms_flag list" where
  "ms_flags flags =
     (if flags_contain flags NOSUID then [MS_NOSUID] else []) @
     (if flags_contain flags NODEV then [MS_NODEV] else []) @
     (if flags_contain flags NOEXEC then [MS_NOEXEC] else []) @
     (if flags_contain flags RO then [MS_RDONLY] else []) @
     (if flags_contain flags NOATIME then [MS_NOATIME] else [])"

datatype mount_error =
    MountSyscall int
  | UnsupportedFs string
  | MountpointInvalid string
  | MountUnsupportedPlatform

record mount_sys =
  my_exists :: "string \<Rightarrow> bool"
  my_mount :: "string \<Rightarrow> string \<Rightarrow> string \<Rightarrow> ms_flag list \<Rightarrow> (int, unit) result"
  my_create_dir_all :: "string \<Rightarrow> (int, unit) result"

definition nix_mount ::
  "mount_sys \<Rightarrow> string \<Rightarrow> string \<Rightarrow> string \<Rightarrow> mount_flags \<Rightarrow> (mount_error, unit) result" where
  "nix_mount M source target fs_type flags =
     map_err MountSyscall (my_mount M source target fs_type (ms_flags flags))"

definition select_fs_type :: "usb_device \<Rightarrow> (mount_error, string) result" where
  "select_fs_type dev = ok_or (UnsupportedFs ''(unknown)'') (dev_fs_type dev)"

text \<open>A guard: the target and whether it is mounted. Dropping it unmounts and removes the directory,
  in this order; failures are logged only.\<close>

record mount_guard =
  mg_target :: string
  mg_mounted :: bool

datatype guard_call = Umount string | Rmdir string

definition guard_adopt :: "string \<Rightarrow> mount_guard" where
  "guard_adopt target = \<lparr>mg_target = target, mg_mounted = True\<rparr>"

definition guard_drop :: "mount_guard \<Rightarrow> guard_call list" where
  "guard_drop g = (if mg_mounted g then [Umount (mg_target g)] else []) @ [Rmdir (mg_target g)]"

definition mount_usb_device :: "mount_sys \<Rightarrow> usb_device \<Rightarrow> string \<Rightarrow> (mount_error, mount_guard) result" where
  "mount_usb_device M dev mountpoint =
     and_then (ensure (my_exists M mountpoint) (MountpointInvalid mountpoint)) (\<lambda>_.
     and_then (select_fs_type dev) (\<lambda>fs.
     and_then (ensure (fs \<in> set ALLOWED_FS) (UnsupportedFs fs)) (\<lambda>_.
     and_then (nix_mount M (dev_devnode dev) mountpoint fs hardened_flags) (\<lambda>_.
     Ok (guard_adopt mountpoint)))))"

text \<open>The tmpfs variant of the guard, with the check of the session id it is named by.\<close>

datatype mount_guard_error =
    GuardMount string | GuardUmount string | GuardMkdir string | GuardRmdir string | InvalidSessionId string

definition is_ascii_alphanumeric :: "char \<Rightarrow> bool" where
  "is_ascii_alphanumeric c \<longleftrightarrow>
     is_ascii_digit c \<or> (65 \<le> (of_char c :: nat) \<and> (of_char c :: nat) \<le> 90)
     \<or> (97 \<le> (of_char c :: nat) \<and> (of_char c :: nat) \<le> 122)"

definition session_id_ok :: "string \<Rightarrow> bool" where
  "session_id_ok s \<longleftrightarrow>
     list_all (\<lambda>c. is_ascii_alphanumeric c \<or> c = CHR ''_'' \<or> c = CHR ''-'') s \<and> s \<noteq> [] \<and> length s \<le> 64"

record guard_ops =
  go_mkdir :: "string \<Rightarrow> (mount_guard_error, unit) result"
  go_mount :: "string \<Rightarrow> string \<Rightarrow> string \<Rightarrow> mount_flags \<Rightarrow> string option \<Rightarrow> (mount_guard_error, unit) result"

definition new_tmpfs :: "guard_ops \<Rightarrow> string \<Rightarrow> string \<Rightarrow> (mount_guard_error, mount_guard) result" where
  "new_tmpfs ops base session_id =
     (let target = base @ ''/'' @ session_id
      in and_then (ensure (session_id_ok session_id) (InvalidSessionId ''must match [A-Za-z0-9_-]{1,64}'')) (\<lambda>_.
         and_then (go_mkdir ops target) (\<lambda>_.
         and_then (go_mount ops ''tmpfs'' target ''tmpfs'' hardened_flags (Some ''size=4m,mode=0700'')) (\<lambda>_.
         Ok (guard_adopt target)))))"

section \<open>What is enumerated\<close>

lemma filter_ok:
  "(case flt of Some (fv, fp) \<Rightarrow> vid \<noteq> fv \<or> pid \<noteq> fp | None \<Rightarrow> False) = False \<Longrightarrow>
   flt = None \<or> flt = Some (vid, pid)"
  by (auto split: option.splits)

text \<open>A device that comes out of the enumeration: it has a filesystem and passes the filter.\<close>

definition candidate_ok :: "(u16 \<times> u16) option \<Rightarrow> usb_device \<Rightarrow> bool" where
  "candidate_ok flt dev \<longleftrightarrow>
     dev_fs_type dev \<noteq> None \<and> (flt = None \<or> flt = Some (dev_vid dev, dev_pid dev))"

lemma select_partitions_fs:
  "p \<in> set (select_partitions parent ps) \<Longrightarrow> \<exists>fs\<in>set ALLOWED_FS. pc_fs_type p = Some fs"
  by (auto simp: select_partitions_def split: if_splits option.splits)

lemma select_partitions_length: "length (select_partitions parent ps) \<le> length ps"
  by (simp add: select_partitions_def)

lemma devices_from_Ok:
  assumes "devices_from children d flt n = Ok devs"
  shows "\<forall>dev\<in>set devs. candidate_ok flt dev" "length devs \<le> max 1 n"
proof -
  have "(\<forall>dev\<in>set devs. candidate_ok flt dev) \<and> length devs \<le> max 1 n"
  proof (cases "un_devnode d")
    case None
    then show ?thesis using assms by (simp add: devices_from_def)
  next
    case (Some devnode)
    then obtain vid pid where vp: "parse_hex16 (un_property d ''ID_VENDOR_ID'') = Ok vid"
      "parse_hex16 (un_property d ''ID_MODEL_ID'') = Ok pid"
      using assms by (auto simp: devices_from_def result_simps)
    show ?thesis
    proof (cases "(case flt of Some (fv, fp) \<Rightarrow> vid \<noteq> fv \<or> pid \<noteq> fp | None \<Rightarrow> False)")
      case True
      then show ?thesis using assms Some vp by (simp add: devices_from_def)
    next
      case False
      note f = filter_ok [where flt = flt and vid = vid and pid = pid]
      show ?thesis
      proof (cases "non_empty (un_property d ''ID_FS_TYPE'')")
        case (Some fs)
        then show ?thesis
          using assms \<open>un_devnode d = Some devnode\<close> vp False f
          by (auto simp: devices_from_def candidate_ok_def Let_def)
      next
        case None
        then show ?thesis
          using assms Some vp False f
          by (auto simp: devices_from_def candidate_ok_def Let_def is_whole_disk_def
              le_max_iff_disj not_less split: if_splits sum.splits
              dest!: select_partitions_fs intro: order_trans [OF select_partitions_length])
      qed
    qed
  qed
  then show "\<forall>dev\<in>set devs. candidate_ok flt dev" "length devs \<le> max 1 n" by auto
qed

lemma enumerate_Ok:
  assumes "enumerate_once_with_limit children scan flt n = Ok devs"
  shows "\<forall>dev\<in>set devs. candidate_ok flt dev"
proof -
  obtain scanned dss where "try_map (\<lambda>d. devices_from children d flt n) scanned = Ok dss" "devs = concat dss"
    using assms by (auto simp: enumerate_once_with_limit_def result_simps)
  then show ?thesis using devices_from_Ok(1) by (fastforce dest: try_map_mem)
qed

lemma drain_events_Ok:
  "drain_events devs evs = Ok found \<Longrightarrow> found = [] \<or> (\<exists>d. devs d = Ok found)"
  by (induction devs evs rule: drain_events.induct) (auto simp: result_simps split: if_splits)

lemma wait_loop_Ok:
  "fst (wait_loop devs deadline ts) = Some (Ok found) \<Longrightarrow> found \<noteq> [] \<and> (\<exists>d. devs d = Ok found)"
  by (induction devs deadline ts rule: wait_loop.induct)
    (auto simp: Let_def dest: drain_events_Ok split: if_splits sum.splits poll_outcome.splits prod.splits)

lemma wait_for_usb_Ok:
  assumes "fst (wait_for_usb_real children scan listen started turns timeout_ms flt n) = Some (Ok devs)"
  shows "devs \<noteq> [] \<and> (\<forall>dev\<in>set devs. candidate_ok flt dev)"
  using assms enumerate_Ok devices_from_Ok(1)
  by (auto simp: wait_for_usb_real_def split: sum.splits if_splits dest!: wait_loop_Ok)

text \<open>
  The wait for a medium gives up early. Whatever timeout is configured, a poll lasts at most
  65535 milliseconds, and a poll that sees no event ends the wait with a timeout, also when the
  deadline is still ahead.
\<close>

theorem usb_wait_capped:
  assumes "65535 < timeout_ms" "wt_now t = started" "wt_events t = []" "wt_poll t = PollZero"
  shows "wait_loop devs (started + int timeout_ms) (t # ts) = (Some (Err UsbTimeout), [65535])
    \<and> started + 65535 < started + int timeout_ms"
  using assms by (simp add: remaining_ms_def Let_def)

definition demo_turn :: wait_turn where
  "demo_turn = \<lparr>wt_now = 0, wt_events = [], wt_poll = PollZero\<rparr>"

theorem usb_wait_capped_witness:
  "wait_loop (\<lambda>_. Ok []) (0 + int 300000) [demo_turn] = (Some (Err UsbTimeout), [65535])"
proof -
  have "65535 < (300000 :: nat)" "wt_now demo_turn = 0" "wt_events demo_turn = []" "wt_poll demo_turn = PollZero"
    by (simp_all add: demo_turn_def)
  from usb_wait_capped [OF this, of "\<lambda>_. Ok []" "[]"] show ?thesis by blast
qed

text \<open>A partition node seen on its own is not skipped: with a filesystem, it is a device.\<close>

lemma loose_partition_enumerated:
  assumes "un_devnode d = Some devnode" "un_property d ''DEVTYPE'' = Some ''partition''"
    "non_empty (un_property d ''ID_FS_TYPE'') = Some fs"
    "parse_hex16 (un_property d ''ID_VENDOR_ID'') = Ok vid" "parse_hex16 (un_property d ''ID_MODEL_ID'') = Ok pid"
  shows "\<exists>dev. devices_from children d None n = Ok [dev] \<and> dev_devnode dev = devnode \<and> dev_fs_type dev = Some fs"
  using assms by (simp add: devices_from_def Let_def)

section \<open>The mount is read-only and inert\<close>

lemma ms_flags_hardened: "ms_flags hardened_flags = [MS_NOSUID, MS_NODEV, MS_NOEXEC, MS_RDONLY, MS_NOATIME]"
  by (simp add: ms_flags_def flags_contain_def hardened_flags_def NOSUID_def NODEV_def NOEXEC_def RO_def NOATIME_def)

lemma mount_usb_device_Ok:
  assumes "mount_usb_device M dev mp = Ok g"
  shows "\<exists>fs\<in>set ALLOWED_FS. dev_fs_type dev = Some fs \<and>
      my_mount M (dev_devnode dev) mp fs [MS_NOSUID, MS_NODEV, MS_NOEXEC, MS_RDONLY, MS_NOATIME] = Ok ()"
    and "g = guard_adopt mp" "guard_drop g = [Umount mp, Rmdir mp]"
  using assms
  by (auto simp: mount_usb_device_def result_simps select_fs_type_def nix_mount_def ms_flags_hardened
      guard_drop_def guard_adopt_def)

end
