(* ===== verification/Credentials.thy ===== *)
theory Credentials
  imports Trust_Chain
begin

text \<open>
  The credentials of the PKCS#12 path: finding the bundle on the mounted medium
  (\<open>pam_certauth_core/src/discovery.rs\<close> and the check of its path pattern in
  \<open>config/validated.rs\<close>), opening it with a PIN in a bounded number of attempts
  (\<open>pkcs12/mod.rs\<close>, \<open>pkcs12/error.rs\<close>), and the challenge that proves possession of the private
  key (\<open>challenge/\<close>, \<open>gost/algorithms.rs\<close>).

  The file system, OpenSSL's PKCS#12 reader, its signature operations and the random source are
  parameters.
\<close>

section \<open>Strings and paths\<close>

text \<open>\<open>str::replace\<close> with a non-empty pattern, \<open>str::contains\<close>, \<open>str::split\<close> and \<open>Path::join\<close>.\<close>

function str_replace :: "string \<Rightarrow> string \<Rightarrow> string \<Rightarrow> string" where
  "str_replace pat by s =
     (if s = [] \<or> pat = [] then s
      else if take (length pat) s = pat then by @ str_replace pat by (drop (length pat) s)
      else hd s # str_replace pat by (tl s))"
  by pat_completeness auto
termination
  by (relation "measure (\<lambda>(pat, by, s). length s)") (auto simp: neq_Nil_conv)

declare str_replace.simps [simp del]

fun str_contains :: "string \<Rightarrow> string \<Rightarrow> bool" where
  "str_contains pat [] = (pat = [])"
| "str_contains pat (c # cs) = (take (length pat) (c # cs) = pat \<or> str_contains pat cs)"

fun split_on :: "char \<Rightarrow> string \<Rightarrow> string list" where
  "split_on sep [] = [[]]"
| "split_on sep (c # cs) =
     (if c = sep then [] # split_on sep cs
      else (case split_on sep cs of [] \<Rightarrow> [[c]] | p # ps \<Rightarrow> (c # p) # ps))"

definition path_join :: "string \<Rightarrow> string \<Rightarrow> string" where
  "path_join p q =
     (if q \<noteq> [] \<and> hd q = CHR ''/'' then q
      else if p = [] \<or> last p = CHR ''/'' then p @ q
      else p @ ''/'' @ q)"

section \<open>Discovery\<close>

definition MAX_P12_BYTES :: nat where "MAX_P12_BYTES = 10 * 1024 * 1024"
definition MAX_CHAIN_BYTES :: nat where "MAX_CHAIN_BYTES = 1024 * 1024"
definition DEFAULT_PKCS12_PATH_PATTERN :: string where
  "DEFAULT_PKCS12_PATH_PATTERN = ''certs/user.p12''"

record discovered_creds =
  dc_p12_path :: string
  dc_p12_bytes :: bytes
  dc_chain_pem :: "bytes option"

datatype discovery_error =
    DiscoveryIo string
  | P12NotFound string
  | P12TooLarge nat
  | ChainTooLarge nat

record file_system =
  fs_is_file :: "string \<Rightarrow> bool"
  fs_len :: "string \<Rightarrow> (string, nat) result"
  fs_read :: "string \<Rightarrow> (string, bytes) result"

definition expand_user :: "string \<Rightarrow> string \<Rightarrow> string" where
  "expand_user pattern pam_user = str_replace ''${user}'' pam_user pattern"

definition discover_credentials ::
  "file_system \<Rightarrow> string \<Rightarrow> string \<Rightarrow> string \<Rightarrow> (discovery_error, discovered_creds) result" where
  "discover_credentials F mountpoint pattern pam_user =
     (let resolved = expand_user pattern pam_user;
          p12_path = path_join mountpoint resolved;
          chain_path = path_join (path_join mountpoint ''certs'') ''chain.pem''
      in if \<not> fs_is_file F p12_path then Err (P12NotFound resolved)
         else
           and_then (map_err DiscoveryIo (fs_len F p12_path)) (\<lambda>len.
           and_then (ensure (\<not> len > MAX_P12_BYTES) (P12TooLarge len)) (\<lambda>_.
           and_then (map_err DiscoveryIo (fs_read F p12_path)) (\<lambda>p12_bytes.
           and_then (if fs_is_file F chain_path then
                and_then (map_err DiscoveryIo (fs_len F chain_path)) (\<lambda>clen.
                and_then (ensure (\<not> clen > MAX_CHAIN_BYTES) (ChainTooLarge clen)) (\<lambda>_.
                and_then (map_err DiscoveryIo (fs_read F chain_path)) (\<lambda>b. Ok (Some b))))
              else Ok None) (\<lambda>chain_pem.
           Ok \<lparr>dc_p12_path = p12_path, dc_p12_bytes = p12_bytes, dc_chain_pem = chain_pem\<rparr>)))))"

text \<open>The configured pattern: refused when empty, absolute, or with a dot segment. The reason text
  quotes the value.\<close>

definition validate_pkcs12_path_pattern :: "string option \<Rightarrow> (string, string option) result" where
  "validate_pkcs12_path_pattern raw =
     (case raw of
        None \<Rightarrow> Ok None
      | Some value \<Rightarrow>
          if value = [] then Err ''pkcs12_path_pattern must be non-empty when set''
          else if hd value = CHR ''/'' then
            Err ''pkcs12_path_pattern must be a relative path under the USB mountpoint''
          else if list_ex (\<lambda>seg. seg = ''..'' \<or> seg = ''.'') (split_on (CHR ''/'') value) then
            Err ''pkcs12_path_pattern must not contain '..' or '.' segments''
          else Ok (Some value))"

section \<open>The PKCS\#12 bundle\<close>

datatype pam_conv_error = NoConv | ConvFailed | NonUtf8

datatype pkcs12_error = WrongPin | MissingKey | MissingCert | Corrupt string

datatype acquire_error = AcqMaxTries | AcqConv pam_conv_error | AcqCorrupt string | AcqMissing string

datatype p12_envelope_error = Asn1 string

type_synonym skey = nat

text \<open>
  OpenSSL's view of a bundle: the outer ASN.1 structure (\<open>d2i_PKCS12\<close>), the contents under a PIN
  (each certificate and the key with the result of encoding it), and the key of its PKCS\#8 form.
\<close>

record p12_parsed =
  pd_pkey :: "(string, bytes) result option"
  pd_cert :: "(string, bytes) result option"
  pd_ca :: "(string, bytes) result list option"

record pkcs12_lib =
  pl_from_der :: "bytes \<Rightarrow> (string, unit) result"
  pl_parse2 :: "bytes \<Rightarrow> string \<Rightarrow> (string, p12_parsed) result"
  pl_from_pkcs8 :: "bytes \<Rightarrow> (string, skey) result"

record loaded_key_material =
  lk_end_entity :: certificate
  lk_presented_chain :: "certificate list"
  lk_key :: bytes

text \<open>The four texts searched for are ASCII without a letter that a non-ASCII letter folds to, so
  that folding ASCII letters only gives the same answer.\<close>

definition classify_parse_error :: "string \<Rightarrow> pkcs12_error" where
  "classify_parse_error raw =
     (let lc = to_ascii_lowercase raw
      in if str_contains ''mac verify'' lc \<or> str_contains ''wrong password'' lc
            \<or> str_contains ''bad decrypt'' lc \<or> str_contains ''invalid mac'' lc
         then WrongPin else Corrupt raw)"

definition chain_cert :: "crypto \<Rightarrow> (string, bytes) result \<Rightarrow> (pkcs12_error, certificate) result" where
  "chain_cert C der_result =
     and_then (map_err Corrupt der_result) (\<lambda>der.
       map_err (\<lambda>e. Corrupt (''chain cert: '' @ trust_error_to_string e)) (certificate_from_der C der))"

definition from_p12 ::
  "crypto \<Rightarrow> pkcs12_lib \<Rightarrow> bytes \<Rightarrow> string \<Rightarrow> (pkcs12_error, loaded_key_material) result" where
  "from_p12 C L p12 pin =
     and_then (map_err Corrupt (pl_from_der L p12)) (\<lambda>_.
     and_then (map_err classify_parse_error (pl_parse2 L p12 pin)) (\<lambda>parsed.
     and_then (ok_or MissingKey (pd_pkey parsed)) (\<lambda>pkey.
     and_then (ok_or MissingCert (pd_cert parsed)) (\<lambda>cert.
     and_then (map_err Corrupt cert) (\<lambda>der.
     and_then (map_err (\<lambda>e. Corrupt (''end-entity: '' @ trust_error_to_string e))
                 (certificate_from_der C der)) (\<lambda>end_entity.
     and_then (try_map (chain_cert C) (case pd_ca parsed of None \<Rightarrow> [] | Some stack \<Rightarrow> stack)) (\<lambda>chain.
     and_then (map_err Corrupt pkey) (\<lambda>key_der.
     Ok \<lparr>lk_end_entity = end_entity, lk_presented_chain = chain, lk_key = key_der\<rparr>))))))))"

definition private_key :: "pkcs12_lib \<Rightarrow> loaded_key_material \<Rightarrow> (pkcs12_error, skey) result" where
  "private_key L m = map_err Corrupt (pl_from_pkcs8 L (lk_key m))"

definition validate_p12_envelope :: "pkcs12_lib \<Rightarrow> bytes \<Rightarrow> (p12_envelope_error, unit) result" where
  "validate_p12_envelope L p12 = map_err Asn1 (pl_from_der L p12)"

definition try_extract_cert_without_pin :: "crypto \<Rightarrow> pkcs12_lib \<Rightarrow> bytes \<Rightarrow> certificate option" where
  "try_extract_cert_without_pin C L p12 =
     (case pl_from_der L p12 of Inl _ \<Rightarrow> None | Inr _ \<Rightarrow>
       (case pl_parse2 L p12 [] of Inl _ \<Rightarrow> None | Inr parsed \<Rightarrow>
         (case pd_cert parsed of None \<Rightarrow> None | Some (Inl _) \<Rightarrow> None | Some (Inr der) \<Rightarrow>
           result_ok (certificate_from_der C der))))"

text \<open>
  The PIN loop. The prompts are answered from the list \<open>answers\<close>, and what is left of it is returned
  with the result; an exhausted list is a conversation that is no longer there (\<open>NoConv\<close>).
\<close>

type_synonym answers = "(pam_conv_error, string) result list"

definition next_answer :: "answers \<Rightarrow> (pam_conv_error, string) result \<times> answers" where
  "next_answer as = (case as of [] \<Rightarrow> (Err NoConv, []) | a # rest \<Rightarrow> (a, rest))"

fun acquire_p12_material_with_prompter ::
  "crypto \<Rightarrow> pkcs12_lib \<Rightarrow> bytes \<Rightarrow> nat \<Rightarrow> answers \<Rightarrow> (acquire_error, loaded_key_material) result \<times> answers" where
  "acquire_p12_material_with_prompter C L p12 0 as = (Err AcqMaxTries, as)"
| "acquire_p12_material_with_prompter C L p12 (Suc n) as =
     (case next_answer as of
        (Inl e, rest) \<Rightarrow> (Err (AcqConv e), rest)
      | (Inr pin, rest) \<Rightarrow>
          (case from_p12 C L p12 pin of
             Inr m \<Rightarrow> (Ok m, rest)
           | Inl WrongPin \<Rightarrow> acquire_p12_material_with_prompter C L p12 n rest
           | Inl MissingKey \<Rightarrow> (Err (AcqMissing ''key''), rest)
           | Inl MissingCert \<Rightarrow> (Err (AcqMissing ''cert''), rest)
           | Inl (Corrupt m) \<Rightarrow> (Err (AcqCorrupt m), rest)))"

section \<open>The challenge\<close>

datatype crypto_error =
    CrRng string
  | CrOpenssl string
  | CrBadSignature
  | CrUnsupportedKey string
  | CrEngineLoadFailed gost_engine_error

datatype key_id = IdRsa | IdEc | IdEd25519 | IdRaw int

datatype curve_nid = Prime256v1 | Secp384r1 | OtherCurve int

datatype digest = Sha256 | Sha384 | NidDigest int

text \<open>A signature scheme: RSA-PSS with a digest and a salt length (MGF1 over the same digest), or the
  key's own scheme over a digest.\<close>

datatype scheme = RsaPss digest nat | Plain digest

record sig_lib =
  sl_fill :: "nat \<Rightarrow> (string, bytes) result"
  sl_key_id :: "pkey \<Rightarrow> key_id"
  sl_ec_curve :: "pkey \<Rightarrow> (string, curve_nid option) result"
  sl_sign :: "scheme \<Rightarrow> skey \<Rightarrow> bytes \<Rightarrow> (string, bytes) result"
  sl_verify :: "scheme \<Rightarrow> pkey \<Rightarrow> bytes \<Rightarrow> bytes \<Rightarrow> (string, bool) result"
  sl_digest_from_nid :: "int \<Rightarrow> digest option"

definition NONCE_SIZE :: nat where "NONCE_SIZE = 32"

text \<open>The three routines differ in the scheme only: a fresh nonce is signed with the private key and
  the signature verified with the public key of the certificate.\<close>

definition sign_and_verify ::
  "sig_lib \<Rightarrow> scheme \<Rightarrow> pkey \<Rightarrow> skey \<Rightarrow> (crypto_error, unit) result" where
  "sign_and_verify S sch pub_key priv_key =
     and_then (map_err CrRng (sl_fill S NONCE_SIZE)) (\<lambda>nonce.
     and_then (map_err CrOpenssl (sl_sign S sch priv_key nonce)) (\<lambda>sig.
     and_then (map_err CrOpenssl (sl_verify S sch pub_key nonce sig)) (\<lambda>good.
     ensure good CrBadSignature)))"

definition challenge_response_rsa_pss :: "sig_lib \<Rightarrow> pkey \<Rightarrow> skey \<Rightarrow> (crypto_error, unit) result" where
  "challenge_response_rsa_pss S = sign_and_verify S (RsaPss Sha256 32)"

definition ec_digest :: "sig_lib \<Rightarrow> pkey \<Rightarrow> (crypto_error, digest) result" where
  "ec_digest S pk =
     and_then (map_err CrOpenssl (sl_ec_curve S pk)) (\<lambda>curve.
     and_then (ok_or (CrUnsupportedKey ''EC w/o named curve'') curve) (\<lambda>nid.
     case nid of
       Prime256v1 \<Rightarrow> Ok Sha256
     | Secp384r1 \<Rightarrow> Ok Sha384
     | OtherCurve _ \<Rightarrow> Err (CrUnsupportedKey ''EC curve not supported'')))"

definition challenge_response_ecdsa :: "sig_lib \<Rightarrow> pkey \<Rightarrow> skey \<Rightarrow> (crypto_error, unit) result" where
  "challenge_response_ecdsa S pub_key priv_key =
     and_then (ec_digest S pub_key) (\<lambda>md. sign_and_verify S (Plain md) pub_key priv_key)"

definition challenge_response_gost ::
  "sig_lib \<Rightarrow> pkey \<Rightarrow> skey \<Rightarrow> digest \<Rightarrow> (crypto_error, unit) result" where
  "challenge_response_gost S pub_key priv_key md = sign_and_verify S (Plain md) pub_key priv_key"

definition GOST_2012_256_NAME :: string where "GOST_2012_256_NAME = ''md_gost12_256''"
definition GOST_2012_512_NAME :: string where "GOST_2012_512_NAME = ''md_gost12_512''"

definition nid_from_name :: "string \<Rightarrow> (gost_engine_error, int) result" where
  "nid_from_name name =
     (if name = GOST_2012_256_NAME then Ok 1177
      else if name = GOST_2012_512_NAME then Ok 1178
      else Err (DigestUnavailable name))"

definition digest_by_name :: "sig_lib \<Rightarrow> engine_lock \<Rightarrow> string \<Rightarrow> (gost_engine_error, digest) result" where
  "digest_by_name S lock name =
     (if \<not> engine_is_available lock
      then Err (NotAvailable (''engine not pinned; cannot resolve digest '' @ name))
      else and_then (nid_from_name name) (\<lambda>nid.
             ok_or (DigestUnavailable name) (sl_digest_from_nid S nid)))"

definition gost_2012_256_md :: "sig_lib \<Rightarrow> engine_lock \<Rightarrow> (gost_engine_error, digest) result" where
  "gost_2012_256_md S lock = digest_by_name S lock GOST_2012_256_NAME"

definition gost_2012_512_md :: "sig_lib \<Rightarrow> engine_lock \<Rightarrow> (gost_engine_error, digest) result" where
  "gost_2012_512_md S lock = digest_by_name S lock GOST_2012_512_NAME"

definition gost_signature_md_for ::
  "sig_lib \<Rightarrow> engine_lock \<Rightarrow> signature_alg \<Rightarrow> (gost_engine_error, digest option) result" where
  "gost_signature_md_for S lock sig_alg =
     (case sig_alg of
        IdTc26SignWithDigestGostR341012_256 \<Rightarrow> and_then (gost_2012_256_md S lock) (\<lambda>d. Ok (Some d))
      | IdTc26SignWithDigestGostR341012_512 \<Rightarrow> and_then (gost_2012_512_md S lock) (\<lambda>d. Ok (Some d))
      | _ \<Rightarrow> Ok None)"

definition NID_ID_GOST_R3410_2012_256 :: int where "NID_ID_GOST_R3410_2012_256 = 979"
definition NID_ID_GOST_R3410_2012_512 :: int where "NID_ID_GOST_R3410_2012_512 = 980"

definition gost_challenge ::
  "gost_sys \<Rightarrow> sig_lib \<Rightarrow> (sig_lib \<Rightarrow> engine_lock \<Rightarrow> (gost_engine_error, digest) result) \<Rightarrow> pkey \<Rightarrow> skey \<Rightarrow>
   string option \<Rightarrow> engine_lock \<Rightarrow> (crypto_error, unit) result \<times> engine_lock" where
  "gost_challenge G S md_of pub_key key gost_engine_path lock =
     (case ensure_loaded_with_path G gost_engine_path lock of (loaded, lock') \<Rightarrow>
        (and_then (map_err CrEngineLoadFailed loaded) (\<lambda>_.
         and_then (map_err CrEngineLoadFailed (md_of S lock')) (\<lambda>md.
         challenge_response_gost S pub_key key md)), lock'))"

fun pubkey_error :: "trust_error \<Rightarrow> crypto_error" where
  "pubkey_error (Openssl s) = CrOpenssl s"
| "pubkey_error _ = CrUnsupportedKey ''cannot extract pubkey''"

definition challenge_response ::
  "gost_sys \<Rightarrow> sig_lib \<Rightarrow> certificate \<Rightarrow> skey \<Rightarrow> string option \<Rightarrow> engine_lock \<Rightarrow>
   (crypto_error, unit) result \<times> engine_lock" where
  "challenge_response G S end_entity key gost_engine_path lock =
     (case map_err pubkey_error (certificate_public_key end_entity) of
        Inl e \<Rightarrow> (Err e, lock)
      | Inr pub_key \<Rightarrow>
          (case sl_key_id S pub_key of
             IdRsa \<Rightarrow> (challenge_response_rsa_pss S pub_key key, lock)
           | IdEc \<Rightarrow> (challenge_response_ecdsa S pub_key key, lock)
           | IdEd25519 \<Rightarrow> (Err (CrUnsupportedKey ''Ed25519 not in stage-2 scope''), lock)
           | IdRaw raw \<Rightarrow>
               if raw = NID_ID_GOST_R3410_2012_256
               then gost_challenge G S gost_2012_256_md pub_key key gost_engine_path lock
               else if raw = NID_ID_GOST_R3410_2012_512
               then gost_challenge G S gost_2012_512_md pub_key key gost_engine_path lock
               else (Err (CrUnsupportedKey ''unknown''), lock)))"

section \<open>Where the bundle is looked for\<close>

lemma str_replace_Nil [simp]: "str_replace pat by [] = []"
  by (subst str_replace.simps) simp

lemma take_eq_length: "take (length p) a = p \<Longrightarrow> length p \<le> length a"
proof -
  assume "take (length p) a = p"
  then have "length (take (length p) a) = length p" by (rule arg_cong)
  then show ?thesis by simp
qed

lemma take_before_sep:
  assumes "c \<notin> set p"
  shows "(take (length p) (a @ c # b) = p) = (take (length p) a = p)"
proof (cases "length p \<le> length a")
  case False
  then have "c \<in> set (take (length p) (a @ c # b))" by (simp add: take_Cons')
  then have "take (length p) (a @ c # b) \<noteq> p" using assms by (metis (no_types))
  moreover have "take (length p) a \<noteq> p" using False take_eq_length by blast
  ultimately show ?thesis by simp
qed simp

lemma str_replace_hit:
  "take (length pat) s = pat \<Longrightarrow> s \<noteq> [] \<Longrightarrow> pat \<noteq> [] \<Longrightarrow>
   str_replace pat by s = by @ str_replace pat by (drop (length pat) s)"
  by (subst str_replace.simps) simp

lemma str_replace_miss:
  "take (length pat) (x # xs) \<noteq> pat \<Longrightarrow> pat \<noteq> [] \<Longrightarrow> str_replace pat by (x # xs) = x # str_replace pat by xs"
  by (subst str_replace.simps) simp

lemma str_replace_split:
  assumes "c \<notin> set pat" "pat \<noteq> []"
  shows "str_replace pat by (a @ c # b) = str_replace pat by a @ c # str_replace pat by b"
proof (induction "length a" arbitrary: a rule: less_induct)
  case less
  note t = take_before_sep [OF assms(1), of a b]
  show ?case
  proof (cases a)
    case Nil
    then show ?thesis using t assms by (simp add: str_replace_miss)
  next
    case (Cons x xs)
    show ?thesis
    proof (cases "take (length pat) a = pat")
      case True
      have l: "length pat \<le> length a" using take_eq_length [OF True] .
      have "str_replace pat by (drop (length pat) a @ c # b) =
          str_replace pat by (drop (length pat) a) @ c # str_replace pat by b"
        by (rule less.hyps) (use assms(2) Cons in simp)
      moreover have "str_replace pat by (a @ c # b) = by @ str_replace pat by (drop (length pat) (a @ c # b))"
        by (rule str_replace_hit) (use t True assms(2) in simp_all)
      moreover have "str_replace pat by a = by @ str_replace pat by (drop (length pat) a)"
        by (rule str_replace_hit) (use True assms(2) Cons in simp_all)
      ultimately show ?thesis using l by simp
    next
      case False
      have "str_replace pat by (xs @ c # b) = str_replace pat by xs @ c # str_replace pat by b"
        by (rule less.hyps) (simp add: Cons)
      moreover have "str_replace pat by (x # xs @ c # b) = x # str_replace pat by (xs @ c # b)"
        using False t assms(2) Cons by (intro str_replace_miss) auto
      moreover have "str_replace pat by (x # xs) = x # str_replace pat by xs"
        using False assms(2) Cons by (intro str_replace_miss) auto
      ultimately show ?thesis by (simp add: Cons)
    qed
  qed
qed

lemma str_replace_same_or_contains:
  "str_replace pat by s = s \<or> set by \<subseteq> set (str_replace pat by s)"
proof (induction pat "by" s rule: str_replace.induct)
  case (1 pat "by" s)
  then show ?case by (subst (1 2) str_replace.simps) (auto simp: str_replace.simps [of pat "by" s])
qed

lemma str_replace_no_sep: "c \<notin> set by \<Longrightarrow> c \<notin> set s \<Longrightarrow> c \<notin> set (str_replace pat by s)"
proof (induction pat "by" s rule: str_replace.induct)
  case (1 pat "by" s)
  then show ?case
    by (subst str_replace.simps) (auto dest: in_set_dropD list.set_sel(2) simp: neq_Nil_conv)
qed

lemma split_on_ne [simp]: "split_on c s \<noteq> []"
  by (induction s) (auto split: list.splits)

lemma split_on_no_sep: "c \<notin> set s \<Longrightarrow> split_on c s = [s]"
  by (induction s) auto

lemma split_on_append: "c \<notin> set a \<Longrightarrow> split_on c (a @ c # b) = a # split_on c b"
  by (induction a) auto

text \<open>The expansion works on each path segment alone.\<close>

lemma split_on_replace:
  assumes "c \<notin> set pat" "pat \<noteq> []" "c \<notin> set by"
  shows "split_on c (str_replace pat by s) = map (str_replace pat by) (split_on c s)"
proof (induction "length s" arbitrary: s rule: less_induct)
  case less
  show ?case
  proof (cases "c \<in> set s")
    case True
    then obtain a b where s: "s = a @ c # b" "c \<notin> set a" by (meson split_list_first)
    have "split_on c (str_replace pat by b) = map (str_replace pat by) (split_on c b)"
      using less s(1) by simp
    then show ?thesis
      using s assms str_replace_no_sep [OF assms(3) s(2), of pat]
      by (simp add: str_replace_split split_on_append)
  next
    case False
    then show ?thesis using str_replace_no_sep [OF assms(3) False, of pat] by (simp add: split_on_no_sep)
  qed
qed

lemma split_on_hd: "s \<noteq> [] \<Longrightarrow> (hd s = c) = (hd (split_on c s) = [])"
  by (cases s) (auto split: list.splits)

lemma expand_segment:
  assumes "x \<in> set by" "x \<noteq> CHR ''.''" "seg \<noteq> ''..''" "seg \<noteq> ''.''"
  shows "str_replace pat by seg \<noteq> ''..'' \<and> str_replace pat by seg \<noteq> ''.''"
  using str_replace_same_or_contains [of pat "by" seg] assms by auto

text \<open>
  C37. A validated path pattern keeps the bundle inside the medium for an ordinary user name: when the
  name has no slash and is not made of dots only, no segment of the expanded path is a dot segment and
  the path is relative, so that it is joined below the mountpoint. The condition on the name is
  needed: the expansion comes after the validation, and a name with a slash and dots leads out of it.
\<close>

theorem p12_path_confined:
  assumes "validate_pkcs12_path_pattern (Some pattern) = Ok (Some pattern)"
    and "CHR ''/'' \<notin> set pam_user" "x \<in> set pam_user" "x \<noteq> CHR ''.''"
    and "mountpoint \<noteq> []" "last mountpoint \<noteq> CHR ''/''"
  shows "path_join mountpoint (expand_user pattern pam_user) = mountpoint @ ''/'' @ expand_user pattern pam_user
    \<and> ''..'' \<notin> set (split_on (CHR ''/'') (expand_user pattern pam_user))
    \<and> ''.'' \<notin> set (split_on (CHR ''/'') (expand_user pattern pam_user))
    \<and> path_join ''/mnt'' (expand_user ''${user}.p12'' ''../tmp/x'') = ''/mnt/../tmp/x.p12''"
proof -
  let ?e = "expand_user pattern pam_user" and ?segs = "split_on (CHR ''/'') pattern"
  have v: "pattern \<noteq> []" "hd pattern \<noteq> CHR ''/''" "\<forall>seg\<in>set ?segs. seg \<noteq> ''..'' \<and> seg \<noteq> ''.''"
    using assms(1) by (auto simp: validate_pkcs12_path_pattern_def list_ex_iff split: if_splits)
  have segs: "split_on (CHR ''/'') ?e = map (str_replace ''${user}'' pam_user) ?segs"
    unfolding expand_user_def by (rule split_on_replace) (use assms(2) in auto)
  have dots: "\<forall>seg\<in>set (split_on (CHR ''/'') ?e). seg \<noteq> ''..'' \<and> seg \<noteq> ''.''"
    unfolding segs using v(3) expand_segment [OF assms(3,4)] by auto
  have "hd (split_on (CHR ''/'') ?e) = str_replace ''${user}'' pam_user (hd ?segs)"
    by (simp add: segs hd_map)
  moreover have "hd ?segs \<noteq> []" using v(1,2) split_on_hd [of pattern "CHR ''/''"] by simp
  moreover have "str_replace ''${user}'' pam_user (hd ?segs) \<noteq> []"
    using str_replace_same_or_contains [of "''${user}''" pam_user "hd ?segs"] assms(3) \<open>hd ?segs \<noteq> []\<close> by auto
  ultimately have "?e = [] \<or> hd ?e \<noteq> CHR ''/''" using split_on_hd [of ?e "CHR ''/''"] by metis
  then have "path_join mountpoint ?e = mountpoint @ ''/'' @ ?e"
    using assms(5,6) by (auto simp: path_join_def)
  moreover have "path_join ''/mnt'' (expand_user ''${user}.p12'' ''../tmp/x'') = ''/mnt/../tmp/x.p12''"
    by code_simp
  ultimately show ?thesis using dots by auto
qed

theorem p12_path_confined_witness:
  "path_join ''/mnt'' (expand_user ''certs/${user}.p12'' ''j.doe'') = ''/mnt/certs/j.doe.p12''
   \<and> ''..'' \<notin> set (split_on (CHR ''/'') (expand_user ''certs/${user}.p12'' ''j.doe''))"
proof -
  have v: "validate_pkcs12_path_pattern (Some ''certs/${user}.p12'') = Ok (Some ''certs/${user}.p12'')"
    by code_simp
  have e: "expand_user ''certs/${user}.p12'' ''j.doe'' = ''certs/j.doe.p12''" by code_simp
  from p12_path_confined [OF v, of "''j.doe''" "CHR ''d''" "''/mnt''"] e show ?thesis by simp
qed

section \<open>The PIN loop\<close>

text \<open>What the loop may have read when it stops with \<open>r\<close>.\<close>

definition attempts_ok ::
  "crypto \<Rightarrow> pkcs12_lib \<Rightarrow> bytes \<Rightarrow> nat \<Rightarrow> answers \<Rightarrow> (acquire_error, loaded_key_material) result \<Rightarrow> bool" where
  "attempts_ok C L p12 n used r \<longleftrightarrow>
     length used \<le> n \<and>
     (\<exists>wrong fin. used = map Ok wrong @ fin \<and> (\<forall>pin\<in>set wrong. from_p12 C L p12 pin = Err WrongPin) \<and>
        (case r of
           Inr m \<Rightarrow> \<exists>pin. fin = [Ok pin] \<and> from_p12 C L p12 pin = Ok m
         | Inl AcqMaxTries \<Rightarrow> fin = [] \<and> length wrong = n
         | Inl (AcqConv e) \<Rightarrow> fin = [Err e] \<or> fin = [] \<and> e = NoConv
         | Inl (AcqMissing what) \<Rightarrow> \<exists>pin. fin = [Ok pin] \<and> from_p12 C L p12 pin \<in> {Err MissingKey, Err MissingCert}
         | Inl (AcqCorrupt m) \<Rightarrow> \<exists>pin. fin = [Ok pin] \<and> from_p12 C L p12 pin = Err (Corrupt m)))"

lemma attempts_ok_wrong:
  assumes "attempts_ok C L p12 n used r" "from_p12 C L p12 pin = Err WrongPin"
  shows "attempts_ok C L p12 (Suc n) (Ok pin # used) r"
proof -
  obtain wrong fin where w: "used = map Ok wrong @ fin" "\<forall>p\<in>set wrong. from_p12 C L p12 p = Err WrongPin"
    and r: "case r of
           Inr m \<Rightarrow> \<exists>pin. fin = [Ok pin] \<and> from_p12 C L p12 pin = Ok m
         | Inl AcqMaxTries \<Rightarrow> fin = [] \<and> length wrong = n
         | Inl (AcqConv e) \<Rightarrow> fin = [Err e] \<or> fin = [] \<and> e = NoConv
         | Inl (AcqMissing what) \<Rightarrow> \<exists>pin. fin = [Ok pin] \<and> from_p12 C L p12 pin \<in> {Err MissingKey, Err MissingCert}
         | Inl (AcqCorrupt m) \<Rightarrow> \<exists>pin. fin = [Ok pin] \<and> from_p12 C L p12 pin = Err (Corrupt m)"
    using assms(1) unfolding attempts_ok_def by blast
  show ?thesis
    unfolding attempts_ok_def
    using assms w r by (intro conjI exI [of _ "pin # wrong"] exI [of _ fin])
      (auto simp: attempts_ok_def split: sum.splits acquire_error.splits)
qed

lemma attempts_ok_last:
  assumes "case r of
      Inr m \<Rightarrow> from_p12 C L p12 pin = Ok m
    | Inl (AcqMissing what) \<Rightarrow> from_p12 C L p12 pin \<in> {Err MissingKey, Err MissingCert}
    | Inl (AcqCorrupt m) \<Rightarrow> from_p12 C L p12 pin = Err (Corrupt m)
    | _ \<Rightarrow> False"
  shows "attempts_ok C L p12 (Suc n) [Ok pin] r"
  unfolding attempts_ok_def
  using assms by (intro conjI exI [of _ "[]"] exI [of _ "[Ok pin]"])
    (auto split: sum.splits acquire_error.splits)

text \<open>
  The PIN loop asks at most as often as it is allowed to, and it stops for the right reason: it
  succeeds with the first PIN that opens the bundle, after wrong PINs only; it reports that the tries
  are used up exactly when all of them were wrong; and any other failure of the bundle or of the
  conversation ends it at once.
\<close>

theorem pin_attempts:
  assumes "acquire_p12_material_with_prompter C L p12 n as = (r, rest)"
  shows "\<exists>used. as = used @ rest \<and> attempts_ok C L p12 n used r"
  using assms
proof (induction n arbitrary: as)
  case 0
  then show ?case by (intro exI [of _ "[]"]) (auto simp: attempts_ok_def)
next
  case (Suc n)
  show ?case
  proof (cases as)
    case Nil
    then have "r = Err (AcqConv NoConv)" "rest = []" using Suc.prems by (auto simp: next_answer_def)
    with Nil show ?thesis by (intro exI [of _ "[]"]) (auto simp: attempts_ok_def)
  next
    case (Cons a as')
    show ?thesis
    proof (cases a)
      case (Inl e)
      with Cons Suc.prems have "r = Err (AcqConv e)" "rest = as'" by (auto simp: next_answer_def)
      moreover have "attempts_ok C L p12 (Suc n) [Err e] (Err (AcqConv e))"
        unfolding attempts_ok_def by (intro conjI exI [of _ "[]"] exI [of _ "[Err e]"]) auto
      ultimately show ?thesis using Inl Cons by (intro exI [of _ "[Err e]"]) simp
    next
      case (Inr pin)
      show ?thesis
      proof (cases "from_p12 C L p12 pin = Err WrongPin")
        case True
        then have "acquire_p12_material_with_prompter C L p12 n as' = (r, rest)"
          using Suc.prems Cons Inr by (simp add: next_answer_def)
        from Suc.IH [OF this] obtain used where "as' = used @ rest" "attempts_ok C L p12 n used r" by blast
        with True Cons Inr show ?thesis
          by (intro exI [of _ "Ok pin # used"]) (simp add: attempts_ok_wrong)
      next
        case False
        with Suc.prems Cons Inr have "rest = as'" "attempts_ok C L p12 (Suc n) [Ok pin] r"
          by (auto simp: next_answer_def intro!: attempts_ok_last split: sum.splits pkcs12_error.splits)
        with Cons Inr show ?thesis by (intro exI [of _ "[Ok pin]"]) simp
      qed
    qed
  qed
qed

text \<open>A bundle whose MAC no PIN verifies.\<close>

definition demo_p12_locked :: pkcs12_lib where
  "demo_p12_locked =
     \<lparr>pl_from_der = (\<lambda>_. Ok ()), pl_parse2 = (\<lambda>_ _. Err ''PKCS12 routines: MAC verify failure''),
      pl_from_pkcs8 = (\<lambda>_. Err ''no key'')\<rparr>"

theorem pin_attempts_witness:
  "\<exists>used. [Ok ''0'', Ok ''1'', Ok ''2'', Ok ''3''] = used @ [Ok ''3'']
     \<and> attempts_ok demo_x509_crypto demo_p12_locked [48] 3 used (Err AcqMaxTries)"
proof -
  have "acquire_p12_material_with_prompter demo_x509_crypto demo_p12_locked [48] 3
      [Ok ''0'', Ok ''1'', Ok ''2'', Ok ''3''] = (Err AcqMaxTries, [Ok ''3''])"
    by (simp add: numeral_3_eq_3 next_answer_def from_p12_def demo_p12_locked_def classify_parse_error_def)
      code_simp
  from pin_attempts [OF this] show ?thesis .
qed

section \<open>The challenge proves possession of the key\<close>

lemma sign_and_verify_Ok:
  "sign_and_verify S sch pk sk = Ok u \<Longrightarrow>
   \<exists>nonce sig. sl_fill S NONCE_SIZE = Ok nonce \<and> sl_sign S sch sk nonce = Ok sig \<and>
     sl_verify S sch pk nonce sig = Ok True"
  by (auto simp: sign_and_verify_def result_simps)

definition answered :: "sig_lib \<Rightarrow> pkey \<Rightarrow> skey \<Rightarrow> bool" where
  "answered S pk sk \<longleftrightarrow>
     (\<exists>sch nonce sig. sl_fill S NONCE_SIZE = Ok nonce \<and> sl_sign S sch sk nonce = Ok sig \<and>
        sl_verify S sch pk nonce sig = Ok True)"

lemma challenge_response_Ok:
  assumes "challenge_response G S cert sk path lock = (Ok u, lock')"
  shows "\<exists>pk. certificate_public_key cert = Ok pk \<and> answered S pk sk"
proof -
  obtain pk where pk: "certificate_public_key cert = Ok pk"
    using assms by (cases "certificate_public_key cert") (auto simp: challenge_response_def)
  have "\<exists>sch u. sign_and_verify S sch pk sk = Ok u"
    using assms pk
    by (auto simp: challenge_response_def gost_challenge_def challenge_response_rsa_pss_def
        challenge_response_ecdsa_def challenge_response_gost_def result_simps
        split: key_id.splits if_splits prod.splits)
  with pk show ?thesis unfolding answered_def using sign_and_verify_Ok by blast
qed

end
