(* ===== verification/Token.thy ===== *)
theory Token
  imports Credentials
begin

text \<open>
  The PKCS\#11 token (\<open>pam_certauth_core/src/token/pkcs11\<close>): waiting for it (\<open>backend.rs\<close>,
  \<open>waiter.rs\<close>), its serial (\<open>info.rs\<close>), the login with a bounded number of PINs (\<open>session.rs\<close>,
  \<open>pin_loop.rs\<close>), finding the certificate and its key (\<open>cert_lookup.rs\<close>, \<open>key_lookup.rs\<close>), the
  signing mechanism (\<open>mechanism.rs\<close>) and the challenge (\<open>sign.rs\<close>).

  The provider library is a parameter, given by the results of its calls. The process-wide lock of
  \<open>locking.rs\<close> wraps every call and does not change what a single caller sees.
\<close>

section \<open>Errors and the provider\<close>

datatype rv = RvPinIncorrect | RvPinLocked | RvOther

text \<open>An error of the provider: its return value and its text.\<close>

datatype ck_error = CkError rv string

datatype pkcs11_error =
    ModulePathMissing string
  | ModuleLoadFailed string ck_error
  | InitFailed ck_error
  | NoTokenAvailable
  | TokenNotFound string
  | TokenWaitTimeout nat
  | SessionOpenFailed ck_error
  | PinIncorrect
  | PinLocked
  | LogoutFailed ck_error
  | CloseSessionFailed ck_error
  | CertificateNotFound "string option"
  | CertificateValueMissing
  | CertificateParseFailed string
  | PrivateKeyNotFound string
  | KeyTypeAttributeMissing
  | TokenSerialMissing
  | UnsupportedKeyType string
  | MechanismNotSupported string
  | Pkcs11Openssl string
  | Cryptoki ck_error

type_synonym slot = nat
type_synonym object_handle = nat

datatype object_class = ClassCertificate | ClassPrivateKey

datatype key_type = KeyRsa | KeyEc | KeyGostr3410 | KeyOther string

datatype attribute =
    AttrClass object_class
  | AttrCertificateTypeX509
  | AttrLabel bytes
  | AttrId bytes
  | AttrValue bytes
  | AttrKeyType key_type
  | AttrExtractable bool
  | AttrOther

datatype mechanism = Sha256RsaPkcsPss nat | EcdsaSha256 | EcdsaSha384

text \<open>An open session: what searching, reading and signing give on this token.\<close>

record session =
  ss_find_objects :: "attribute list \<Rightarrow> (ck_error, object_handle list) result"
  ss_get_attributes :: "object_handle \<Rightarrow> (ck_error, attribute list) result"
  ss_sign :: "mechanism \<Rightarrow> object_handle \<Rightarrow> bytes \<Rightarrow> (ck_error, bytes) result"

record provider =
  pv_exists :: "string \<Rightarrow> bool"
  pv_load :: "string \<Rightarrow> (ck_error, unit) result"
  pv_initialize :: "(ck_error, unit) result"
  pv_token_label :: "slot \<Rightarrow> (ck_error, string) result"
  pv_token_serial :: "slot \<Rightarrow> (ck_error, string) result"
  pv_open_session :: "slot \<Rightarrow> (ck_error, session) result"

section \<open>Finding the token\<close>

definition backend_load :: "provider \<Rightarrow> string \<Rightarrow> (pkcs11_error, unit) result" where
  "backend_load P module_path =
     and_then (ensure (pv_exists P module_path) (ModulePathMissing module_path)) (\<lambda>_.
     and_then (map_err (ModuleLoadFailed module_path) (pv_load P module_path)) (\<lambda>_.
     map_err InitFailed (pv_initialize P)))"

fun find_label :: "provider \<Rightarrow> string \<Rightarrow> slot list \<Rightarrow> (pkcs11_error, slot) result" where
  "find_label P want [] = Err (TokenNotFound want)"
| "find_label P want (slot # slots) =
     and_then (map_err Cryptoki (pv_token_label P slot)) (\<lambda>label.
       if trim_end label = want then Ok slot else find_label P want slots)"

text \<open>\<open>slots\<close> is what listing the slots with a token gives at the time of the call.\<close>

definition find_slot ::
  "provider \<Rightarrow> (ck_error, slot list) result \<Rightarrow> string option \<Rightarrow> (pkcs11_error, slot) result" where
  "find_slot P slots token_label =
     and_then (map_err Cryptoki slots) (\<lambda>ss.
       case ss of
         [] \<Rightarrow> Err NoTokenAvailable
       | first # _ \<Rightarrow>
           (case token_label of None \<Rightarrow> Ok first | Some want \<Rightarrow> find_label P want ss))"

text \<open>
  The polling loop: each turn lists the slots and then reads the clock (milliseconds). The loop that
  has used up the turns is still waiting (\<open>None\<close>).
\<close>

fun wait_for_token_loop ::
  "provider \<Rightarrow> string option \<Rightarrow> nat \<Rightarrow> int \<Rightarrow> ((ck_error, slot list) result \<times> int) list \<Rightarrow>
   (pkcs11_error, slot) result option" where
  "wait_for_token_loop P token_label timeout_ms started [] = None"
| "wait_for_token_loop P token_label timeout_ms started ((slots, now) # turns) =
     (let give_up = (if now - started \<ge> int timeout_ms
            then Some (Err (TokenWaitTimeout (timeout_ms div 1000)))
            else wait_for_token_loop P token_label timeout_ms started turns)
      in (case find_slot P slots token_label of
            Inr slot \<Rightarrow> Some (Ok slot)
          | Inl NoTokenAvailable \<Rightarrow> give_up
          | Inl (TokenNotFound _) \<Rightarrow> give_up
          | Inl other \<Rightarrow> Some (Err other)))"

definition read_token_serial :: "provider \<Rightarrow> slot \<Rightarrow> (pkcs11_error, string) result" where
  "read_token_serial P slot =
     and_then (map_err Cryptoki (pv_token_serial P slot)) (\<lambda>raw.
       if trim_end raw = [] then Err TokenSerialMissing else Ok (trim_end raw))"

section \<open>Logging in\<close>

text \<open>
  \<open>login\<close> is \<open>C_Login\<close> with the state of the token, which counts wrong PINs: the result and the new
  state. Opening a session calls it once.
\<close>

definition session_open ::
  "provider \<Rightarrow> (string \<Rightarrow> 't \<Rightarrow> (ck_error, unit) result \<times> 't) \<Rightarrow> slot \<Rightarrow> string \<Rightarrow> 't \<Rightarrow>
   (pkcs11_error, session) result \<times> 't" where
  "session_open P login slot pin t =
     (case pv_open_session P slot of
        Inl e \<Rightarrow> (Err (SessionOpenFailed e), t)
      | Inr s \<Rightarrow>
          (case login pin t of
             (Inr _, t') \<Rightarrow> (Ok s, t')
           | (Inl (CkError RvPinIncorrect _), t') \<Rightarrow> (Err PinIncorrect, t')
           | (Inl (CkError RvPinLocked _), t') \<Rightarrow> (Err PinLocked, t')
           | (Inl e, t') \<Rightarrow> (Err (Cryptoki e), t')))"

datatype token_acquire_error =
    TokPinLocked | TokMaxAttemptsExceeded | TokConv pam_conv_error | TokPkcs11 pkcs11_error

text \<open>
  The PIN loop with \<open>n\<close> attempts left, over any way \<open>opener\<close> to open a session. The answers of the
  prompts are read from the list, and the prompts and their texts counted by what is used of it.
\<close>

fun token_pin_loop ::
  "(string \<Rightarrow> 't \<Rightarrow> (pkcs11_error, session) result \<times> 't) \<Rightarrow> nat \<Rightarrow> answers \<Rightarrow> 't \<Rightarrow>
   (token_acquire_error, session) result \<times> answers \<times> 't" where
  "token_pin_loop opener 0 as t = (Err TokMaxAttemptsExceeded, as, t)"
| "token_pin_loop opener (Suc n) as t =
     (case next_answer as of
        (Inl e, rest) \<Rightarrow> (Err (TokConv e), rest, t)
      | (Inr pin, rest) \<Rightarrow>
          (case opener pin t of
             (Inr s, t') \<Rightarrow> (Ok s, rest, t')
           | (Inl PinIncorrect, t') \<Rightarrow> token_pin_loop opener n rest t'
           | (Inl PinLocked, t') \<Rightarrow> (Err TokPinLocked, rest, t')
           | (Inl other, t') \<Rightarrow> (Err (TokPkcs11 other), rest, t')))"

definition acquire_pkcs11_session ::
  "(string \<Rightarrow> 't \<Rightarrow> (pkcs11_error, session) result \<times> 't) \<Rightarrow> u32 \<Rightarrow> answers \<Rightarrow> 't \<Rightarrow>
   (token_acquire_error, session) result \<times> answers \<times> 't" where
  "acquire_pkcs11_session opener max_attempts as t = token_pin_loop opener (unat max_attempts) as t"

section \<open>The certificate and its key\<close>

record found_certificate =
  fc_object :: object_handle
  fc_cka_id :: bytes
  fc_cka_label :: "string option"
  fc_certificate :: certificate

definition parse_certificate_object_attributes ::
  "crypto \<Rightarrow> object_handle \<Rightarrow> bytes option \<Rightarrow> bytes option \<Rightarrow> bytes option \<Rightarrow>
   (pkcs11_error, found_certificate) result" where
  "parse_certificate_object_attributes C h value cka_id label =
     and_then (ok_or CertificateValueMissing value) (\<lambda>value_bytes.
     and_then (map_err (\<lambda>e. CertificateParseFailed (trust_error_to_string e))
                 (certificate_from_der C value_bytes)) (\<lambda>certificate.
     Ok \<lparr>fc_object = h, fc_cka_id = (case cka_id of None \<Rightarrow> [] | Some i \<Rightarrow> i),
         fc_cka_label = (case label of None \<Rightarrow> None | Some raw \<Rightarrow> from_utf8 raw),
         fc_certificate = certificate\<rparr>))"

text \<open>The last attribute of a kind wins, as in the loop over the attributes.\<close>

fun attr_value :: "attribute \<Rightarrow> bytes option" where
  "attr_value (AttrValue v) = Some v" | "attr_value _ = None"

fun attr_id :: "attribute \<Rightarrow> bytes option" where
  "attr_id (AttrId v) = Some v" | "attr_id _ = None"

fun attr_label :: "attribute \<Rightarrow> bytes option" where
  "attr_label (AttrLabel v) = Some v" | "attr_label _ = None"

fun attr_key_type :: "attribute \<Rightarrow> key_type option" where
  "attr_key_type (AttrKeyType k) = Some k" | "attr_key_type _ = None"

fun attr_extractable :: "attribute \<Rightarrow> bool option" where
  "attr_extractable (AttrExtractable b) = Some b" | "attr_extractable _ = None"

definition last_attr :: "(attribute \<Rightarrow> 'a option) \<Rightarrow> attribute list \<Rightarrow> 'a option" where
  "last_attr f attrs = fold (\<lambda>a acc. case f a of Some v \<Rightarrow> Some v | None \<Rightarrow> acc) attrs None"

fun try_candidates ::
  "crypto \<Rightarrow> session \<Rightarrow> string option \<Rightarrow> object_handle list \<Rightarrow> (pkcs11_error, found_certificate) result" where
  "try_candidates C s label_filter [] = Err (CertificateNotFound label_filter)"
| "try_candidates C s label_filter (h # hs) =
     (case ss_get_attributes s h of
        Inl _ \<Rightarrow> try_candidates C s label_filter hs
      | Inr attrs \<Rightarrow>
          (case parse_certificate_object_attributes C h (last_attr attr_value attrs)
                  (last_attr attr_id attrs) (last_attr attr_label attrs) of
             Inr c \<Rightarrow> Ok c
           | Inl CertificateValueMissing \<Rightarrow> try_candidates C s label_filter hs
           | Inl (CertificateParseFailed _) \<Rightarrow> try_candidates C s label_filter hs
           | Inl other \<Rightarrow> Err other))"

definition find_certificate ::
  "crypto \<Rightarrow> session \<Rightarrow> string option \<Rightarrow> (pkcs11_error, found_certificate) result" where
  "find_certificate C s label_filter =
     (let template = [AttrClass ClassCertificate, AttrCertificateTypeX509] @
            (case label_filter of None \<Rightarrow> [] | Some label \<Rightarrow> [AttrLabel (as_bytes label)])
      in and_then (map_err Cryptoki (ss_find_objects s template)) (\<lambda>handles.
           if handles = [] then Err (CertificateNotFound label_filter)
           else try_candidates C s label_filter handles))"

record found_private_key =
  fk_object :: object_handle
  fk_key_type :: key_type
  fk_extractable :: bool

definition cka_id_log_prefix :: "bytes \<Rightarrow> string" where
  "cka_id_log_prefix cka_id =
     concat (map hex02 (take 4 cka_id)) @ (if length cka_id > min (length cka_id) 4 then ''...'' else [])"

definition find_private_key_for_cert ::
  "session \<Rightarrow> found_certificate \<Rightarrow> (pkcs11_error, found_private_key) result" where
  "find_private_key_for_cert s cert =
     and_then (map_err Cryptoki (ss_find_objects s [AttrClass ClassPrivateKey, AttrId (fc_cka_id cert)])) (\<lambda>handles.
       case handles of
         [] \<Rightarrow> Err (PrivateKeyNotFound (cka_id_log_prefix (fc_cka_id cert)))
       | h # _ \<Rightarrow>
           and_then (map_err Cryptoki (ss_get_attributes s h)) (\<lambda>attrs.
           and_then (ok_or KeyTypeAttributeMissing (last_attr attr_key_type attrs)) (\<lambda>kt.
           Ok \<lparr>fk_object = h, fk_key_type = kt,
               fk_extractable = (last_attr attr_extractable attrs = Some True)\<rparr>)))"

section \<open>The signing mechanism and the challenge\<close>

datatype token_sign_mechanism = RawSign mechanism digest | PreHashed mechanism digest

fun host_hash :: "token_sign_mechanism \<Rightarrow> digest" where
  "host_hash (RawSign m d) = d"
| "host_hash (PreHashed m d) = d"

fun key_type_display :: "key_type \<Rightarrow> string" where
  "key_type_display KeyRsa = ''CKK_RSA''"
| "key_type_display KeyEc = ''CKK_EC''"
| "key_type_display KeyGostr3410 = ''CKK_GOSTR3410''"
| "key_type_display (KeyOther s) = s"

definition show_int :: "int \<Rightarrow> string" where
  "show_int i = (if i < 0 then CHR ''-'' # to_decimal (nat (- i)) else to_decimal (nat i))"

definition select_mechanism ::
  "sig_lib \<Rightarrow> key_type \<Rightarrow> pkey \<Rightarrow> (pkcs11_error, token_sign_mechanism) result" where
  "select_mechanism S kt pubkey =
     (case kt of
        KeyRsa \<Rightarrow> Ok (RawSign (Sha256RsaPkcsPss 32) Sha256)
      | KeyEc \<Rightarrow>
          and_then (map_err Pkcs11Openssl (sl_ec_curve S pubkey)) (\<lambda>curve.
          and_then (ok_or (UnsupportedKeyType ''EC w/o named curve'') curve) (\<lambda>nid.
          case nid of
            Prime256v1 \<Rightarrow> Ok (RawSign EcdsaSha256 Sha256)
          | Secp384r1 \<Rightarrow> Ok (RawSign EcdsaSha384 Sha384)
          | OtherCurve raw \<Rightarrow> Err (UnsupportedKeyType (''EC curve nid '' @ show_int raw))))
      | KeyGostr3410 \<Rightarrow> Err (MechanismNotSupported ''CKM_GOSTR3410 (cryptoki 0.7 has no enum variant)'')
      | KeyOther _ \<Rightarrow> Err (UnsupportedKeyType (key_type_display kt)))"

fun ck_error_display :: "ck_error \<Rightarrow> string" where
  "ck_error_display (CkError rv text) = text"

text \<open>
  The parts of OpenSSL the token's challenge uses besides verification: hashing, and the DER form of
  an ECDSA signature given by its two numbers.
\<close>

record host_lib =
  hl_hash :: "digest \<Rightarrow> bytes \<Rightarrow> (string, bytes) result"
  hl_ecdsa_der :: "bytes \<Rightarrow> bytes \<Rightarrow> (string, bytes) result"

definition ecdsa_raw_to_der :: "host_lib \<Rightarrow> bytes \<Rightarrow> (crypto_error, bytes) result" where
  "ecdsa_raw_to_der B raw =
     (if raw = [] \<or> odd (length raw) then Err CrBadSignature
      else map_err CrOpenssl (hl_ecdsa_der B (take (length raw div 2) raw) (drop (length raw div 2) raw)))"

definition verify_on_host ::
  "sig_lib \<Rightarrow> host_lib \<Rightarrow> pkey \<Rightarrow> key_type \<Rightarrow> digest \<Rightarrow> bytes \<Rightarrow> bytes \<Rightarrow> (crypto_error, unit) result" where
  "verify_on_host S B pubkey kt hash nonce signature =
     and_then (if kt = KeyEc then
          and_then (ecdsa_raw_to_der B signature) (\<lambda>der. map_err CrOpenssl (sl_verify S (Plain hash) pubkey nonce der))
        else map_err CrOpenssl
          (sl_verify S (if kt = KeyRsa then RsaPss hash 32 else Plain hash) pubkey nonce signature))
       (\<lambda>good. ensure good CrBadSignature)"

definition token_sign ::
  "host_lib \<Rightarrow> session \<Rightarrow> token_sign_mechanism \<Rightarrow> object_handle \<Rightarrow> bytes \<Rightarrow> (crypto_error, bytes) result" where
  "token_sign B s mech key_handle nonce =
     (let failed = (\<lambda>e. CrRng (''token sign failed: '' @ ck_error_display e))
      in case mech of
           RawSign m _ \<Rightarrow> map_err failed (ss_sign s m key_handle nonce)
         | PreHashed m hash \<Rightarrow>
             and_then (map_err CrOpenssl (hl_hash B hash nonce)) (\<lambda>digest.
               map_err failed (ss_sign s m key_handle digest)))"

definition pubkey_text :: "trust_error \<Rightarrow> string" where
  "pubkey_text e = (case e of Openssl s \<Rightarrow> s | other \<Rightarrow> trust_error_to_string other)"

definition pkcs11_challenge_response ::
  "sig_lib \<Rightarrow> host_lib \<Rightarrow> session \<Rightarrow> object_handle \<Rightarrow> key_type \<Rightarrow> token_sign_mechanism \<Rightarrow> certificate \<Rightarrow>
   (crypto_error, unit) result" where
  "pkcs11_challenge_response S B s key_handle kt mech end_entity =
     and_then (map_err CrRng (sl_fill S NONCE_SIZE)) (\<lambda>nonce.
     and_then (token_sign B s mech key_handle nonce) (\<lambda>signature.
     and_then (map_err (\<lambda>e. CrRng (''pubkey extract: '' @ pubkey_text e)) (certificate_public_key end_entity)) (\<lambda>pubkey.
     verify_on_host S B pubkey kt (host_hash mech) nonce signature)))"

section \<open>The token that is found\<close>

lemma find_label_Ok:
  "find_label P want slots = Ok slot \<Longrightarrow> slot \<in> set slots \<and> (\<exists>label. pv_token_label P slot = Ok label \<and> trim_end label = want)"
  by (induction P want slots rule: find_label.induct) (auto simp: result_simps split: if_splits)

lemma find_slot_Ok:
  assumes "find_slot P slots token_label = Ok slot"
  shows "\<exists>ss. slots = Ok ss \<and> slot \<in> set ss \<and>
    (\<forall>want. token_label = Some want \<longrightarrow> (\<exists>label. pv_token_label P slot = Ok label \<and> trim_end label = want))"
proof -
  obtain ss where ss: "slots = Ok ss" using assms by (auto simp: find_slot_def result_simps)
  show ?thesis
  proof (cases ss)
    case Nil
    then show ?thesis using assms ss by (simp add: find_slot_def)
  next
    case (Cons first others)
    show ?thesis
    proof (cases token_label)
      case None
      then show ?thesis using assms ss Cons by (simp add: find_slot_def)
    next
      case (Some want)
      then have "find_label P want ss = Ok slot" using assms ss Cons by (simp add: find_slot_def)
      with Some ss find_label_Ok show ?thesis by blast
    qed
  qed
qed

lemma wait_for_token_Ok:
  "wait_for_token_loop P token_label timeout_ms started turns = Some (Ok slot) \<Longrightarrow>
   \<exists>slots now. (slots, now) \<in> set turns \<and> find_slot P slots token_label = Ok slot"
  by (induction P token_label timeout_ms started turns rule: wait_for_token_loop.induct)
    (auto simp: Let_def split: sum.splits pkcs11_error.splits if_splits)

lemma wait_for_token_returns:
  "(slots, now) \<in> set turns \<Longrightarrow> int timeout_ms \<le> now - started \<Longrightarrow>
   wait_for_token_loop P token_label timeout_ms started turns \<noteq> None"
  by (induction P token_label timeout_ms started turns rule: wait_for_token_loop.induct)
    (auto simp: Let_def split: sum.splits pkcs11_error.splits if_splits)

section \<open>A locked token is not asked again\<close>

text \<open>\<open>counted opener\<close> opens sessions as \<open>opener\<close> does and records each PIN tried with its result.\<close>

definition counted ::
  "(string \<Rightarrow> 't \<Rightarrow> (pkcs11_error, session) result \<times> 't) \<Rightarrow> string \<Rightarrow>
   (string \<times> (pkcs11_error, session) result) list \<times> 't \<Rightarrow>
   (pkcs11_error, session) result \<times> (string \<times> (pkcs11_error, session) result) list \<times> 't" where
  "counted opener pin lt =
     (case opener pin (snd lt) of (r, t') \<Rightarrow> (r, (fst lt @ [(pin, r)], t')))"

definition tries_ok ::
  "nat \<Rightarrow> answers \<Rightarrow> (string \<times> (pkcs11_error, session) result) list \<Rightarrow> (token_acquire_error, session) result \<Rightarrow> bool" where
  "tries_ok n as tries r \<longleftrightarrow>
     length tries \<le> n
     \<and> take (length tries) as = map (\<lambda>(pin, _). Ok pin) tries
     \<and> list_all (\<lambda>(pin, res). res = Err PinIncorrect) (butlast tries)
     \<and> (\<forall>s. (r = Ok s) = (tries \<noteq> [] \<and> snd (last tries) = Ok s))
     \<and> (r = Err TokPinLocked) = (tries \<noteq> [] \<and> snd (last tries) = Err PinLocked)
     \<and> (r = Err TokMaxAttemptsExceeded \<longrightarrow> length tries = n \<and> list_all (\<lambda>(pin, res). res = Err PinIncorrect) tries)"

lemma tries_ok_wrong:
  assumes "tries_ok n as tries r"
  shows "tries_ok (Suc n) (Ok pin # as) ((pin, Err PinIncorrect) # tries) r"
  unfolding tries_ok_def
  using assms [unfolded tries_ok_def] by (cases "tries = []"; intro conjI allI impI; simp)

lemma token_pin_loop_tries:
  "token_pin_loop (counted opener) n as (log, t) = (r, rest, log', t') \<Longrightarrow>
   \<exists>tries. log' = log @ tries \<and> tries_ok n as tries r"
proof (induction n arbitrary: as log t)
  case 0
  then show ?case by (auto simp: tries_ok_def)
next
  case (Suc n)
  show ?case
  proof (cases "next_answer as")
    case (Pair a as')
    show ?thesis
    proof (cases a)
      case (Inl e)
      with Pair Suc.prems show ?thesis by (auto simp: tries_ok_def)
    next
      case (Inr pin)
      then have as: "as = Ok pin # as'" using Pair by (auto simp: next_answer_def split: list.splits)
      obtain res u where o: "opener pin t = (res, u)" by fastforce
      show ?thesis
      proof (cases "res = Err PinIncorrect")
        case True
        then have "token_pin_loop (counted opener) n as' (log @ [(pin, res)], u) = (r, rest, log', t')"
          using Suc.prems Pair Inr o by (simp add: counted_def [of opener pin])
        from Suc.IH [OF this] obtain tries where t: "log' = (log @ [(pin, res)]) @ tries" "tries_ok n as' tries r"
          by blast
        then show ?thesis
          using True as tries_ok_wrong by (intro exI [of _ "(pin, res) # tries"]) simp
      next
        case False
        then have "log' = log @ [(pin, res)]" "tries_ok (Suc n) as [(pin, res)] r"
          using Suc.prems Pair Inr o as
          by (auto simp: counted_def [of opener pin] tries_ok_def split: sum.splits pkcs11_error.splits)
        then show ?thesis by blast
      qed
    qed
  qed
qed

text \<open>
  PIN attempts on a token are bounded and stop at a lock. The login is tried at most as often as
  configured, each time with the PIN just entered, and again only after a wrong PIN: once the token
  reports that it is locked, it is never tried again and the result says so; a session is the one
  that the last attempt opened.
\<close>

theorem token_pin_attempts:
  assumes "acquire_pkcs11_session (counted opener) max_attempts as ([], t) = (r, rest, tries, t')"
  shows "tries_ok (unat max_attempts) as tries r"
  using token_pin_loop_tries [of opener "unat max_attempts" as "[]" t r rest tries t'] assms
  by (simp add: acquire_pkcs11_session_def)

text \<open>A token that counts wrong PINs and locks after the second.\<close>

definition demo_opener :: "string \<Rightarrow> nat \<Rightarrow> (pkcs11_error, session) result \<times> nat" where
  "demo_opener pin t = (if t = 0 then (Err PinIncorrect, 1) else (Err PinLocked, t))"

theorem token_pin_attempts_witness:
  "tries_ok (unat (3 :: u32)) [Ok ''1'', Ok ''2'', Ok ''3''] [(''1'', Err PinIncorrect), (''2'', Err PinLocked)]
     (Err TokPinLocked)"
proof -
  have u: "unat (3 :: u32) = Suc (Suc (Suc 0))" by simp
  have "acquire_pkcs11_session (counted demo_opener) 3 [Ok ''1'', Ok ''2'', Ok ''3''] ([], 0) =
      (Err TokPinLocked, [Ok ''3''], [(''1'', Err PinIncorrect), (''2'', Err PinLocked)], 1)"
    unfolding acquire_pkcs11_session_def u
    by (simp add: next_answer_def counted_def demo_opener_def)
  from token_pin_attempts [OF this] show ?thesis .
qed

section \<open>What the token's challenge shows\<close>

lemma pkcs11_challenge_Ok:
  assumes "pkcs11_challenge_response S B s h kt mech cert = Ok u"
  shows "\<exists>pk sch nonce signature der. certificate_public_key cert = Ok pk \<and> sl_fill S NONCE_SIZE = Ok nonce
    \<and> token_sign B s mech h nonce = Ok signature \<and> (der = signature \<or> ecdsa_raw_to_der B signature = Ok der)
    \<and> sl_verify S sch pk nonce der = Ok True"
proof -
  obtain pk nonce signature where c: "certificate_public_key cert = Ok pk" "sl_fill S NONCE_SIZE = Ok nonce"
      "token_sign B s mech h nonce = Ok signature"
    and v: "verify_on_host S B pk kt (host_hash mech) nonce signature = Ok u"
    using assms by (auto simp: pkcs11_challenge_response_def result_simps)
  show ?thesis
  proof (cases "kt = KeyEc")
    case True
    then obtain der where "ecdsa_raw_to_der B signature = Ok der"
      "sl_verify S (Plain (host_hash mech)) pk nonce der = Ok True"
      using v by (auto simp: verify_on_host_def result_simps)
    with c show ?thesis by blast
  next
    case False
    then have "sl_verify S (if kt = KeyRsa then RsaPss (host_hash mech) 32 else Plain (host_hash mech))
        pk nonce signature = Ok True"
      using v by (auto simp: verify_on_host_def result_simps)
    with c show ?thesis by blast
  qed
qed

lemma parse_certificate_object_Ok:
  "parse_certificate_object_attributes C h value i l = Ok c \<Longrightarrow>
   fc_object c = h \<and> (\<exists>v. value = Some v \<and> certificate_from_der C v = Ok (fc_certificate c))"
  by (auto simp: parse_certificate_object_attributes_def result_simps)

lemma try_candidates_Ok:
  "try_candidates C s f hs = Ok c \<Longrightarrow>
   \<exists>attrs value. fc_object c \<in> set hs \<and> ss_get_attributes s (fc_object c) = Ok attrs
     \<and> last_attr attr_value attrs = Some value \<and> certificate_from_der C value = Ok (fc_certificate c)"
proof (induction hs)
  case (Cons h hs)
  show ?case
  proof (cases "ss_get_attributes s h")
    case (Inl e)
    then show ?thesis using Cons by auto
  next
    case (Inr attrs)
    show ?thesis
    proof (cases "parse_certificate_object_attributes C h (last_attr attr_value attrs)
                  (last_attr attr_id attrs) (last_attr attr_label attrs)")
      case (Inl e)
      then have "try_candidates C s f hs = Ok c" using Cons.prems Inr by (cases e) simp_all
      from Cons.IH [OF this] show ?thesis by auto
    next
      case (Inr d)
      then have "d = c" using Cons.prems \<open>ss_get_attributes s h = Ok attrs\<close> by simp
      with parse_certificate_object_Ok [OF Inr] \<open>ss_get_attributes s h = Ok attrs\<close> show ?thesis by auto
    qed
  qed
qed simp

end
