(* ===== verification/Ipc_Client.thy ===== *)
theory Ipc_Client
  imports Ipc_Server
begin

text \<open>
  The PAM module's side of the monitor protocol: the client with its requests
  (\<open>pam_certauth_core/src/ipc/client.rs\<close>), the fail mode around it (\<open>ipc/failmode.rs\<close>) and the
  interface the authentication flow sees (\<open>ipc/mod.rs\<close>).

  A stream is a parameter: what connecting, writing and reading a line give, with the state \<open>'w\<close> of
  whatever is at the other end. The last section puts the daemon of \<open>Ipc_Server\<close> there.
\<close>

section \<open>The stream and the errors\<close>

text \<open>An unexpected reply keeps the message itself where the code formats it.\<close>

datatype ipc_error =
    IpcNotConnected
  | IpcEncode wire_error
  | IpcWire wire_error
  | IpcDecode string
  | IpcIo string
  | IpcTimeout
  | IpcUnavailable
  | IpcProtocolMismatch u32
  | IpcDeviceGone
  | IpcUnauthorized
  | IpcDisabled
  | IpcUnexpectedReply server_message
  | IpcProtocol server_error_code string
  | IpcServer u32 string

record 'w stream =
  sm_connect :: "'w \<Rightarrow> (string, unit) result \<times> 'w"
  sm_set_timeouts :: "(string, unit) result"
  sm_write :: "bytes \<Rightarrow> 'w \<Rightarrow> (string, unit) result \<times> 'w"
  sm_read_line :: "'w \<Rightarrow> (string, string) result \<times> 'w"

record client =
  cl_agent :: string
  cl_client :: "client_message codec"
  cl_server :: "server_message codec"

definition map_server_error :: "u32 \<Rightarrow> string \<Rightarrow> ipc_error" where
  "map_server_error code message =
     (if code = DEVICE_GONE then IpcDeviceGone
      else if code = PROTOCOL_MISMATCH then IpcProtocolMismatch 0
      else if code = UNAUTHORIZED then IpcUnauthorized
      else IpcServer code message)"

section \<open>Requests\<close>

definition client_send ::
  "client \<Rightarrow> 'w stream \<Rightarrow> client_message \<Rightarrow> 'w \<Rightarrow> (ipc_error, unit) result \<times> 'w" where
  "client_send L R msg w =
     (case encode_message (cl_client L) msg of
        Inl e \<Rightarrow> (Err (IpcWire e), w)
      | Inr frame \<Rightarrow> (case sm_write R frame w of (r, w') \<Rightarrow> (map_err IpcIo r, w')))"

definition client_recv :: "client \<Rightarrow> 'w stream \<Rightarrow> 'w \<Rightarrow> (ipc_error, server_message) result \<times> 'w" where
  "client_recv L R w =
     (case sm_read_line R w of
        (Inl e, w') \<Rightarrow> (Err (IpcIo e), w')
      | (Inr line, w') \<Rightarrow>
          (if line = [] then Err IpcUnavailable else map_err IpcWire (decode_line (cl_server L) line), w'))"

definition request ::
  "client \<Rightarrow> 'w stream \<Rightarrow> client_message \<Rightarrow> 'w \<Rightarrow> (ipc_error, server_message) result \<times> 'w" where
  "request L R msg w =
     (case client_send L R msg w of
        (Inl e, w') \<Rightarrow> (Err e, w')
      | (Inr _, w') \<Rightarrow> client_recv L R w')"

text \<open>The replies that are not the expected one.\<close>

fun refuse :: "server_message \<Rightarrow> ipc_error" where
  "refuse (ServerError code message) = map_server_error code message"
| "refuse other = IpcUnexpectedReply other"

definition monitord_connect :: "client \<Rightarrow> 'w stream \<Rightarrow> 'w \<Rightarrow> (ipc_error, unit) result \<times> 'w" where
  "monitord_connect L R w =
     (case sm_connect R w of
        (Inl _, w1) \<Rightarrow> (Err IpcUnavailable, w1)
      | (Inr _, w1) \<Rightarrow>
          (case sm_set_timeouts R of
             Inl e \<Rightarrow> (Err (IpcIo e), w1)
           | Inr _ \<Rightarrow>
               (case request L R (Hello PROTOCOL_VERSION (Some (cl_agent L))) w1 of
                  (Inl e, w2) \<Rightarrow> (Err e, w2)
                | (Inr (HelloAck _ pv), w2) \<Rightarrow>
                    (if pv = PROTOCOL_VERSION then Ok () else Err (IpcProtocolMismatch pv), w2)
                | (Inr other, w2) \<Rightarrow> (Err (refuse other), w2))))"

definition expect :: "(server_message \<Rightarrow> bool) \<Rightarrow> (ipc_error, server_message) result \<times> 'w \<Rightarrow>
    (ipc_error, unit) result \<times> 'w" where
  "expect good rw =
     (and_then (fst rw) (\<lambda>m. if good m then Ok () else Err (refuse m)), snd rw)"

definition client_ping :: "client \<Rightarrow> 'w stream \<Rightarrow> 'w \<Rightarrow> (ipc_error, unit) result \<times> 'w" where
  "client_ping L R w = expect (\<lambda>m. m = Pong) (request L R Ping w)"

definition send_session_open ::
  "client \<Rightarrow> 'w stream \<Rightarrow> session_open_payload \<Rightarrow> 'w \<Rightarrow> (ipc_error, unit) result \<times> 'w" where
  "send_session_open L R payload w = expect (\<lambda>m. m = Ack) (request L R (SessionOpen payload) w)"

definition get_active_session_by_uid ::
  "client \<Rightarrow> 'w stream \<Rightarrow> u32 \<Rightarrow> 'w \<Rightarrow> (ipc_error, active_session_info) result \<times> 'w" where
  "get_active_session_by_uid L R uid w =
     (case request L R (GetActiveSessionByUid uid) w of
        (Inl e, w') \<Rightarrow> (Err e, w')
      | (Inr (ActiveSession info), w') \<Rightarrow> (Ok info, w')
      | (Inr other, w') \<Rightarrow> (Err (refuse other), w'))"

definition send_session_close ::
  "client \<Rightarrow> 'w stream \<Rightarrow> uuid \<Rightarrow> int \<Rightarrow> 'w \<Rightarrow> (ipc_error, unit) result \<times> 'w" where
  "send_session_close L R session_id closed_at w =
     expect (\<lambda>m. m = Ack) (request L R (SessionClose session_id closed_at) w)"

definition is_target_updated :: "server_message \<Rightarrow> bool" where
  "is_target_updated m = (case m of SessionTargetUpdated _ \<Rightarrow> True | Ack \<Rightarrow> True | _ \<Rightarrow> False)"

definition send_update_session_target ::
  "client \<Rightarrow> 'w stream \<Rightarrow> uuid \<Rightarrow> session_target \<Rightarrow> 'w \<Rightarrow> (ipc_error, unit) result \<times> 'w" where
  "send_update_session_target L R session_id new_target w =
     expect is_target_updated (request L R (UpdateSessionTarget session_id new_target) w)"

section \<open>One connection per call\<close>

record open_session_info =
  oi_session_id :: string
  oi_pam_user :: string
  oi_pam_service :: string
  oi_host_id_hash :: string
  oi_target :: session_target
  oi_usb_serial :: "string option"
  oi_cert_cn :: string
  oi_cert_serial :: string
  oi_engineer_ski :: string
  oi_engineer_cert_sha256 :: string
  oi_uid :: u32

text \<open>The \<open>uuid\<close> library: parsing, and the name-based identifier in the OID namespace.\<close>

record uuid_lib =
  ul_parse :: "string \<Rightarrow> uuid option"
  ul_v5 :: "bytes \<Rightarrow> uuid"

definition uuid_from_session_id :: "uuid_lib \<Rightarrow> string \<Rightarrow> uuid" where
  "uuid_from_session_id U s = (case ul_parse U s of Some u \<Rightarrow> u | None \<Rightarrow> ul_v5 U (as_bytes s))"

definition payload_of :: "uuid_lib \<Rightarrow> int \<Rightarrow> open_session_info \<Rightarrow> session_open_payload" where
  "payload_of U now info =
     \<lparr>sp_session_id = uuid_from_session_id U (oi_session_id info), sp_pam_user = oi_pam_user info,
      sp_pam_service = oi_pam_service info, sp_target = oi_target info,
      sp_usb_serial = oi_usb_serial info, sp_host_id_hash = oi_host_id_hash info,
      sp_opened_at = now, sp_cert_cn = oi_cert_cn info, sp_cert_serial = oi_cert_serial info,
      sp_engineer_ski = oi_engineer_ski info, sp_engineer_cert_sha256 = oi_engineer_cert_sha256 info,
      sp_uid = oi_uid info\<rparr>"

definition after_connect ::
  "client \<Rightarrow> 'w stream \<Rightarrow> ('w \<Rightarrow> (ipc_error, unit) result \<times> 'w) \<Rightarrow> 'w \<Rightarrow> (ipc_error, unit) result \<times> 'w" where
  "after_connect L R call w =
     (case monitord_connect L R w of (Inl e, w') \<Rightarrow> (Err e, w') | (Inr _, w') \<Rightarrow> call w')"

definition call_ping :: "client \<Rightarrow> 'w stream \<Rightarrow> 'w \<Rightarrow> (ipc_error, unit) result \<times> 'w" where
  "call_ping L R w = after_connect L R (client_ping L R) w"

definition call_open_session ::
  "client \<Rightarrow> 'w stream \<Rightarrow> uuid_lib \<Rightarrow> int \<Rightarrow> open_session_info \<Rightarrow> 'w \<Rightarrow> (ipc_error, unit) result \<times> 'w" where
  "call_open_session L R U now info w =
     after_connect L R (send_session_open L R (payload_of U now info)) w"

definition call_close_session ::
  "client \<Rightarrow> 'w stream \<Rightarrow> uuid_lib \<Rightarrow> int \<Rightarrow> string \<Rightarrow> 'w \<Rightarrow> (ipc_error, unit) result \<times> 'w" where
  "call_close_session L R U now session_id w =
     after_connect L R (send_session_close L R (uuid_from_session_id U session_id) now) w"

section \<open>The fail mode\<close>

datatype monitor_fail_mode = Strict | Permissive

definition is_fatal :: "ipc_error \<Rightarrow> bool" where
  "is_fatal e \<longleftrightarrow> e = IpcDeviceGone \<or> e = IpcUnauthorized"

definition apply_mode ::
  "monitor_fail_mode \<Rightarrow> (ipc_error, unit) result \<times> 'w \<Rightarrow> (ipc_error, unit) result \<times> 'w" where
  "apply_mode mode rw =
     (case fst rw of
        Inr _ \<Rightarrow> Ok ()
      | Inl e \<Rightarrow> if is_fatal e then Err e else (case mode of Strict \<Rightarrow> Err e | Permissive \<Rightarrow> Ok ()),
      snd rw)"

section \<open>Facts about the client\<close>

lemma request_reply:
  assumes "encode_message (cl_client L) q = Ok frame" and "sm_write R frame w = (Ok (), w1)"
    and "sm_read_line R w1 = (Ok (str_of_bytes reply), w2)"
    and "json_codec (cl_server L)" and "encode_message (cl_server L) m = Ok reply" and "length reply \<le> MAX_FRAME_BYTES"
  shows "request L R q w = (Ok m, w2)"
proof -
  obtain f where "reply = f @ [LF]" "decode_line (cl_server L) (str_of_bytes reply) = Ok m"
    using decode_frame [OF assms(4-6)] .
  with assms(1-3) show ?thesis by (auto simp: request_def client_send_def client_recv_def result_simps str_of_bytes_def)
qed

lemma expect_Ok [simp]: "expect good (Ok m, w) = (if good m then Ok () else Err (refuse m), w)"
  by (simp add: expect_def)

lemma apply_mode_Err:
  "apply_mode mode (Err e, w) = (if mode = Strict \<or> is_fatal e then Err e else Ok (), w)"
  by (cases mode) (simp_all add: apply_mode_def)

section \<open>The daemon at the other end\<close>

text \<open>
  A conversation with one connection of the daemon: what the client wrote, each write being one
  read of the daemon, and how many of the daemon's frames were read. A read for which there is no
  frame ends with the stream when the daemon gave up, and with the read timeout otherwise.
\<close>

type_synonym conversation = "bytes list \<times> nat"

definition daemon_run ::
  "server \<Rightarrow> nat \<Rightarrow> 'm manager \<Rightarrow> 'm \<Rightarrow> bytes list \<Rightarrow> (srv_error, unit) result \<times> bytes list \<times> 'm" where
  "daemon_run S idle mgr st sent = serve_connection_with S idle mgr (map Chunk sent) st"

definition daemon_stream :: "server \<Rightarrow> nat \<Rightarrow> 'm manager \<Rightarrow> 'm \<Rightarrow> conversation stream" where
  "daemon_stream S idle mgr st =
     \<lparr>sm_connect = (\<lambda>_. (Ok (), ([], 0))),
      sm_set_timeouts = Ok (),
      sm_write = (\<lambda>frame (sent, n). (Ok (), (sent @ [frame], n))),
      sm_read_line = (\<lambda>(sent, n).
        case daemon_run S idle mgr st sent of (r, out, _) \<Rightarrow>
          if n < length out then (Ok (str_of_bytes (out ! n)), (sent, Suc n))
          else (if is_ok r then Err ''read timed out'' else Ok [], (sent, n)))\<rparr>"

text \<open>The two frames of a call fit the limits of both sides.\<close>

definition call_frames ::
  "client \<Rightarrow> server \<Rightarrow> client_message \<Rightarrow> server_message \<Rightarrow> bytes \<Rightarrow> bytes \<Rightarrow> bytes \<Rightarrow> bytes \<Rightarrow> bool" where
  "call_frames L S q m hello ack frame reply \<longleftrightarrow>
     cl_client L = sv_client S \<and> cl_server L = sv_server S \<and>
     encode_message (sv_client S) (Hello PROTOCOL_VERSION (Some (cl_agent L))) = Ok hello \<and> length hello \<le> MAX_FRAME_BYTES \<and>
     encode_message (sv_server S) (HelloAck (sv_version S) PROTOCOL_VERSION) = Ok ack \<and> length ack \<le> MAX_FRAME_BYTES \<and>
     encode_message (sv_client S) q = Ok frame \<and> length frame \<le> MAX_FRAME_BYTES \<and>
     encode_message (sv_server S) m = Ok reply \<and> length reply \<le> MAX_FRAME_BYTES"

lemma daemon_run_call:
  assumes "json_codec (sv_client S)" and "call_frames L S q m hello ack frame reply" and "dispatch mgr q st = (m, st')"
  shows "daemon_run S idle mgr st [hello] = (Ok (), [ack], st)"
    and "daemon_run S idle mgr st [hello, frame] = (Ok (), [ack, reply], st')"
proof -
  note H = assms(2) [unfolded call_frames_def]
  have hs: "perform_handshake S (Chunk (hello @ []) # es) = (Ok (), [ack], es)" for es
    by (rule handshake_ok [where c = "Some (cl_agent L)"]) (use assms(1) H in auto)
  have "serve_loop S idle mgr [] [] st = (Ok (), [], st)"
    by (subst serve_loop.simps) (simp add: read_frame_eof)
  with hs show "daemon_run S idle mgr st [hello] = (Ok (), [ack], st)"
    by (simp add: daemon_run_def serve_connection_with_def)
  have ne: "frame \<noteq> []" using H by (auto simp: encode_message_def result_simps split: if_splits)
  have "serve_loop S idle mgr [] [Chunk frame] st = (Ok (), [reply], st')"
    by (rule serve_loop_conversation [where qs = "[q]" and ins = "[frame]" and rs = "[m]"])
      (use assms H ne in \<open>auto simp: frames_def\<close>)
  with hs show "daemon_run S idle mgr st [hello, frame] = (Ok (), [ack, reply], st')"
    by (simp add: daemon_run_def serve_connection_with_def)
qed

lemma connect_daemon:
  assumes "json_codec (sv_client S)" and "json_codec (sv_server S)" and "call_frames L S q m hello ack frame reply"
    and "dispatch mgr q st = (m, st')"
  shows "monitord_connect L (daemon_stream S idle mgr st) w = (Ok (), ([hello], 1))"
proof -
  have "request L (daemon_stream S idle mgr st) (Hello PROTOCOL_VERSION (Some (cl_agent L))) ([], 0)
      = (Ok (HelloAck (sv_version S) PROTOCOL_VERSION), ([hello], 1))"
    by (rule request_reply [where frame = hello and reply = ack and ?w1.0 = "([hello], 0)"])
      (use assms daemon_run_call(1) [OF assms(1,3,4)] in \<open>auto simp: call_frames_def daemon_stream_def\<close>)
  then show ?thesis by (simp add: monitord_connect_def daemon_stream_def)
qed

lemma request_daemon:
  assumes "json_codec (sv_client S)" and "json_codec (sv_server S)" and "call_frames L S q m hello ack frame reply"
    and "dispatch mgr q st = (m, st')"
  shows "request L (daemon_stream S idle mgr st) q ([hello], 1) = (Ok m, ([hello, frame], 2))"
  by (rule request_reply [where frame = frame and reply = reply and ?w1.0 = "([hello, frame], 1)"])
    (use assms daemon_run_call(2) [OF assms(1,3,4)] in \<open>auto simp: call_frames_def daemon_stream_def\<close>)

lemma call_daemon:
  assumes "json_codec (sv_client S)" and "json_codec (sv_server S)"
    and "call_frames L S (SessionOpen (payload_of U now info)) m hello ack frame reply"
    and "dispatch mgr (SessionOpen (payload_of U now info)) st = (m, st')"
  shows "call_open_session L (daemon_stream S idle mgr st) U now info w
           = (if m = Ack then Ok () else Err (refuse m), ([hello, frame], 2))"
  by (simp add: call_open_session_def after_connect_def connect_daemon [OF assms] send_session_open_def
      request_daemon [OF assms, of idle, unfolded One_nat_def])

section \<open>Properties\<close>

text \<open>The key a session was opened with is plugged in, or the session has none.\<close>

definition key_present :: "(string \<Rightarrow> bool) \<Rightarrow> open_session_info \<Rightarrow> bool" where
  "key_present present info = (case oi_usb_serial info of Some serial \<Rightarrow> present serial | None \<Rightarrow> True)"

definition open_reply :: "(string \<Rightarrow> bool) \<Rightarrow> open_session_info \<Rightarrow> server_message" where
  "open_reply present info =
     (if key_present present info then Ack
      else ServerError DEVICE_GONE (''usb serial '' @ the (oi_usb_serial info) @ '' not present''))"

lemma dispatch_open:
  assumes "mo_running st"
  shows "dispatch (state_manager E present ok) (SessionOpen (payload_of U now info)) st =
     (open_reply present info,
      if key_present present info
      then persist ok (st\<lparr>mo_registry := registry_add (session_of_payload (payload_of U now info)) (mo_registry st)\<rparr>)
      else st)"
  using assms
  by (auto simp: state_manager_def open_reply_def key_present_def session_of_payload_def payload_of_def split: option.splits)

definition demo_info :: open_session_info where
  "demo_info = \<lparr>oi_session_id = ''s1'', oi_pam_user = ''ann'', oi_pam_service = ''login'', oi_host_id_hash = ''aa'',
     oi_target = Tty ''tty1'', oi_usb_serial = Some ''USB9'', oi_cert_cn = ''Ann'', oi_cert_serial = ''01'',
     oi_engineer_ski = ''bb'', oi_engineer_cert_sha256 = ''cc'', oi_uid = 1000\<rparr>"

definition demo_uuid :: uuid_lib where
  "demo_uuid = \<lparr>ul_parse = (\<lambda>s. if s = ''s1'' then Some 77 else None), ul_v5 = (\<lambda>_. 0)\<rparr>"

definition demo_open_codec :: "client_message codec" where
  "demo_open_codec =
     (let h = Hello PROTOCOL_VERSION (Some ''a''); q = SessionOpen (payload_of demo_uuid 5 demo_info) in
      \<lparr>js_to_vec = (\<lambda>m. if m = q then Ok [111] else if m = h then Ok [104] else Err ''unsupported''),
       js_from_slice = (\<lambda>b. if b = [111] then Ok q else if b = [104] then Ok h else Err ''json'')\<rparr>)"

definition demo_reply_codec :: "server_message codec" where
  "demo_reply_codec =
     (let h = HelloAck ''1'' PROTOCOL_VERSION; g = open_reply (\<lambda>_. False) demo_info in
      \<lparr>js_to_vec = (\<lambda>m. if m = Ack then Ok [65] else if m = h then Ok [72] else if m = g then Ok [71] else Err ''unsupported''),
       js_from_slice = (\<lambda>b. if b = [65] then Ok Ack else if b = [72] then Ok h else if b = [71] then Ok g else Err ''json'')\<rparr>)"

definition demo_peer :: server where
  "demo_peer = \<lparr>sv_version = ''1'', sv_client = demo_open_codec, sv_server = demo_reply_codec\<rparr>"

definition demo_caller :: client where
  "demo_caller = \<lparr>cl_agent = ''a'', cl_client = demo_open_codec, cl_server = demo_reply_codec\<rparr>"

lemma demo_open_json: "json_codec demo_open_codec" "json_codec demo_reply_codec"
  by (auto simp: json_codec_def demo_open_codec_def demo_reply_codec_def Let_def LF_def CR_def open_reply_def
      split: if_splits)

lemma demo_call_frames:
  "call_frames demo_caller demo_peer (SessionOpen (payload_of demo_uuid 5 demo_info)) (open_reply p demo_info)
     [104, 10] [72, 10] [111, 10] [if p ''USB9'' then 65 else 71, 10]"
  by (simp add: call_frames_def demo_caller_def demo_peer_def encode_message_def demo_open_codec_def
      demo_reply_codec_def Let_def LF_def MAX_FRAME_BYTES_def open_reply_def key_present_def demo_info_def result_simps)

text \<open>
  C34. Opening a session reaches the daemon's registry, end to end: the client's call against a
  connection of the daemon succeeds exactly when the session's key is plugged in, in which case the
  registry holds the session under the identifier the client derived, with the fields the client
  sent, and no other session changed; otherwise the registry is as before and the caller gets
  \<open>DeviceGone\<close>, in the permissive mode as in the strict one.
\<close>

theorem open_session_registers:
  assumes "json_codec (sv_client S)" and "json_codec (sv_server S)" and "mo_running st"
    and "call_frames L S (SessionOpen (payload_of U now info)) (open_reply present info) hello ack frame reply"
    and "call_open_session L (daemon_stream S idle (state_manager E present ok) st) U now info w = (r, sent, n)"
    and "daemon_run S idle (state_manager E present ok) st sent = (r', out, st')"
  shows "r = (if key_present present info then Ok () else Err IpcDeviceGone)
    \<and> apply_mode mode (r, sent, n) = (r, sent, n)
    \<and> find_by_session_id (mo_registry st') i =
      (if key_present present info \<and> i = uuid_from_session_id U (oi_session_id info)
       then Some (session_of_payload (payload_of U now info)) else find_by_session_id (mo_registry st) i)"
proof -
  note D = dispatch_open [OF assms(3), of E present ok U now info]
  from call_daemon [OF assms(1,2,4) D] assms(5)
  have r: "r = (if key_present present info then Ok () else Err IpcDeviceGone)" and s: "sent = [hello, frame]"
    by (auto simp: open_reply_def map_server_error_def)
  moreover have "find_by_session_id (mo_registry st') i =
      (if key_present present info \<and> i = uuid_from_session_id U (oi_session_id info)
       then Some (session_of_payload (payload_of U now info)) else find_by_session_id (mo_registry st) i)"
    using daemon_run_call(2) [OF assms(1,4) D, of idle] assms(6)
    by (auto simp: s find_add session_of_payload_def payload_of_def)
  ultimately show ?thesis by (auto simp: apply_mode_def is_fatal_def)
qed

lemma open_session_registers_witness:
  "find_by_session_id (mo_registry (snd (snd
      (daemon_run demo_peer 30 (state_manager demo_env (\<lambda>_. True) True) demo_m0
        (fst (snd (call_open_session demo_caller
           (daemon_stream demo_peer 30 (state_manager demo_env (\<lambda>_. True) True) demo_m0) demo_uuid 5 demo_info ([], 0)))))))) 77
   = Some (session_of_payload (payload_of demo_uuid 5 demo_info))"
proof -
  let ?mgr = "state_manager demo_env (\<lambda>_. True) True"
  obtain r sent n where c: "call_open_session demo_caller (daemon_stream demo_peer 30 ?mgr demo_m0) demo_uuid 5 demo_info ([], 0)
      = (r, sent, n)" by (metis prod_cases3)
  obtain r' out st' where d: "daemon_run demo_peer 30 ?mgr demo_m0 sent = (r', out, st')" by (metis prod_cases3)
  have J: "json_codec (sv_client demo_peer)" "json_codec (sv_server demo_peer)"
    by (simp_all add: demo_peer_def demo_open_json)
  show ?thesis
    using open_session_registers [OF J _ demo_call_frames c d, of Strict 77] c d
    by (simp add: demo_m0_simps key_present_def demo_info_def uuid_from_session_id_def demo_uuid_def)
qed

text \<open>
  What the fail mode lets through: in either mode a call of the client that reports
  \<open>DeviceGone\<close> or \<open>Unauthorized\<close> is reported to the caller, and in the strict mode every failure is; in
  the permissive mode any other failure becomes a success, a daemon of another protocol version
  included, whether it refuses the greeting or acknowledges it with its own version.
\<close>

theorem fail_mode_policy:
  "apply_mode mode (Err e, w) = (if mode = Strict \<or> e = IpcDeviceGone \<or> e = IpcUnauthorized then Err e else Ok (), w)
   \<and> apply_mode mode (Ok (), w) = (Ok (), w)
   \<and> apply_mode Permissive (Err (map_server_error PROTOCOL_MISMATCH msg), w) = (Ok (), w)
   \<and> apply_mode Permissive (Err (IpcProtocolMismatch v), w) = (Ok (), w)"
  by (cases mode) (simp_all add: apply_mode_def is_fatal_def map_server_error_def code_defs)

end
