(* ===== verification/Config.thy ===== *)
theory Config
  imports Hooks Mac_Policy Cert_Scope Trust_Chain Credentials Ipc_Client
begin

text \<open>
  The configuration: the values read from the TOML file (\<open>config/raw.rs\<close>) and their validation
  (\<open>config/validated.rs\<close>, \<open>ValidatedConfig::try_from\<close>).

  The enumerations of the raw and of the validated layer have the same constructors and are one
  type here. A rejected value is an error that names the key, as the message does, and what is
  wrong with it. Durations are numbers of seconds, or of milliseconds where the name says so. The
  files that validation looks at are a parameter.
\<close>

section \<open>Values\<close>

datatype crypto_backend = BackendOpenssl | BackendPkcs11Native

datatype auth_mode = Pkcs12Mode | Pkcs11Mode

datatype removal_action = ActLock | ActLogout | ActHook | ActShutdown

datatype revocation_mode = RevNone | RevCrl | RevOcsp | RevCrlThenOcsp

datatype host_id_fallback = FbDeny | FbWarn | FbAllow

datatype locking_mode = LockOs | LockMutex

datatype log_level = LogTrace | LogDebug | LogInfo | LogWarn | LogError

datatype syslog_facility = FacAuth | FacAuthpriv | FacUser | FacDaemon

datatype gravity = North | South | East | West | Center

record raw_monitor =
  rm_socket_path :: "string option"
  rm_timeout_ms :: "u64 option"
  rm_fail_mode :: "string option"
  rm_state_file_path :: "string option"
  rm_on_usb_removed :: "removal_action option"
  rm_usb_removed_grace_seconds :: "u64 option"
  rm_suspend_grace_seconds :: "u64 option"
  rm_on_usb_removed_hook_path :: "string option"
  rm_idle_timeout_seconds :: "u64 option"
  rm_max_concurrent_connections :: "u32 option"

record raw_trust =
  rt_anchors :: "string list"
  rt_intermediates :: "string list"
  rt_max_chain_depth :: u32
  rt_clock_skew_seconds :: u64
  rt_allowed_signature_algorithms :: "string list"
  rt_revocation_mode :: revocation_mode
  rt_crl_paths :: "string list"
  rt_ocsp_responder_url :: "string option"
  rt_pinning_enabled :: bool
  rt_allowed_root_spki_sha256 :: "string list"

record raw_trust_override =
  ro_when_host_id_in :: "string list"
  ro_anchors :: "string list"
  ro_intermediates :: "string list"

record raw_host_identity =
  ri_sources :: "string list"
  ri_fallback :: host_id_fallback
  ri_override :: "string option"
  ri_custom_command :: "string option"
  ri_custom_command_timeout_seconds :: u64

record raw_user_mapping =
  ru_pam_user :: string
  ru_cert_subject_cn :: "string option"
  ru_cert_san_email :: "string option"
  ru_cert_san_upn :: "string option"

record raw_mac_policy =
  ra_cert_integrity :: "cert_integrity_mode option"
  ra_fallback_max_integrity :: "(i8 \<times> string) option"
  ra_warn_on_homedir_label_mismatch :: "bool option"
  ra_runtime :: "mac_runtime_mode option"

record raw_logging =
  rg_level :: string
  rg_syslog_facility :: string
  rg_journald_priority :: bool

record raw_fly_dm_greeter =
  rf_update_wallpaper :: "bool option"
  rf_wallpaper_target :: "string option"
  rf_wallpaper_backup :: "string option"
  rf_wallpaper_font :: "string option"
  rf_wallpaper_font_size :: "u32 option"
  rf_wallpaper_text_color :: "string option"
  rf_wallpaper_gravity :: "string option"
  rf_wallpaper_offset_x :: "i32 option"
  rf_wallpaper_offset_y :: "i32 option"
  rf_template_ru :: "string option"
  rf_template_en :: "string option"

record raw_config =
  rc_crypto_backend :: crypto_backend
  rc_mode :: auth_mode
  rc_pkcs11_module :: "string option"
  rc_pkcs11_token_label :: "string option"
  rc_pkcs11_object_label :: "string option"
  rc_pkcs11_max_pin_attempts :: u32
  rc_pkcs11_locking_mode :: locking_mode
  rc_pkcs11_pin_prompt :: "string option"
  rc_pkcs11_slot_wait_seconds :: u32
  rc_pkcs12_path_pattern :: "string option"
  rc_pkcs12_pin_prompt :: "string option"
  rc_gost_engine_path :: "string option"
  rc_usb_wait_seconds :: u64
  rc_max_usb_partitions :: "u32 option"
  rc_on_usb_removed :: removal_action
  rc_usb_removed_grace_seconds :: u64
  rc_suspend_grace_seconds :: u64
  rc_monitor_fail_mode :: monitor_fail_mode
  rc_monitor :: raw_monitor
  rc_trust :: raw_trust
  rc_trust_override :: "raw_trust_override list"
  rc_host_identity :: raw_host_identity
  rc_user_mapping :: "raw_user_mapping list"
  rc_logging :: raw_logging
  rc_hooks :: "raw_hook list"
  rc_mac :: raw_mac_policy
  rc_fly_dm_greeter :: "raw_fly_dm_greeter option"

section \<open>The validated configuration\<close>

record monitor_section =
  mn_socket_path :: string
  mn_timeout_ms :: nat
  mn_fail_mode :: monitor_fail_mode
  mn_state_file_path :: string
  mn_on_usb_removed :: removal_action
  mn_usb_removed_grace :: nat
  mn_suspend_grace :: nat
  mn_on_usb_removed_hook_path :: "string option"
  mn_idle_timeout :: nat
  mn_max_concurrent_connections :: u32

record trust_section =
  ts_anchors :: "string list"
  ts_intermediates :: "string list"
  ts_revocation_mode :: revocation_mode
  ts_crl_paths :: "string list"
  ts_allowed_signature_algorithms :: "string list"
  ts_pinning_enabled :: bool
  ts_allowed_root_spki_sha256 :: "string list"
  ts_max_chain_depth :: u32
  ts_clock_skew_seconds :: u64

record trust_override =
  to_when_host_id_in :: "string list"
  to_anchors :: "string list"
  to_intermediates :: "string list"

record host_identity_section =
  hi_sources :: "host_id_source_kind list"
  hi_fallback :: host_id_fallback
  hi_override_value :: "string option"
  hi_custom_command :: "string option"
  hi_custom_command_timeout :: nat

record logging_section =
  lg_level :: log_level
  lg_syslog_facility :: syslog_facility
  lg_journald_priority :: bool

record fly_dm_greeter_section =
  fg_update_wallpaper :: bool
  fg_wallpaper_target :: string
  fg_wallpaper_backup :: string
  fg_wallpaper_font :: string
  fg_wallpaper_font_size :: u32
  fg_wallpaper_text_color :: "u8 list"
  fg_wallpaper_gravity :: gravity
  fg_wallpaper_offset_x :: i32
  fg_wallpaper_offset_y :: i32
  fg_template_ru :: string
  fg_template_en :: string

record validated_config =
  vf_crypto_backend :: crypto_backend
  vf_mode :: auth_mode
  vf_pkcs11_module :: "string option"
  vf_pkcs11_token_label :: "string option"
  vf_pkcs11_object_label :: "string option"
  vf_pkcs11_max_pin_attempts :: u32
  vf_pkcs11_locking_mode :: locking_mode
  vf_pkcs11_pin_prompt :: "string option"
  vf_pkcs11_slot_wait :: nat
  vf_pkcs12_path_pattern :: "string option"
  vf_pkcs12_pin_prompt :: "string option"
  vf_gost_engine_path :: "string option"
  vf_usb_wait :: nat
  vf_max_usb_partitions :: u32
  vf_on_usb_removed :: removal_action
  vf_usb_removed_grace :: nat
  vf_suspend_grace :: nat
  vf_monitor_fail_mode :: monitor_fail_mode
  vf_monitor :: monitor_section
  vf_trust :: trust_section
  vf_trust_overrides :: "trust_override list"
  vf_host_identity :: host_identity_section
  vf_user_mappings :: "user_mapping list"
  vf_logging :: logging_section
  vf_hooks :: "hook_config list"
  vf_mac :: mac_policy
  vf_fly_dm_greeter :: fly_dm_greeter_section

datatype trust_config_error =
    AnchorMissing string
  | AnchorNotPem string
  | MaxChainDepthZero
  | ClockSkewTooLarge
  | CrlPathMissing string
  | OcspResponderInvalid
  | PinningHashInvalid string

text \<open>What is wrong with the value of a key.\<close>

datatype problem =
    MustBeNonEmpty
  | MustBeAbsolute string
  | OutOfRange nat
  | TooLong nat
  | HasNul
  | BadValue string
  | Required
  | Unexpected
  | Duplicate
  | Incompatible
  | NeedsFeature

datatype config_error =
    Invalid string problem
  | InvalidReason string
  | GostEnginePathUnreadable string
  | GostEnginePathRequiresOpenssl
  | HookValidation hook_validation_error
  | TrustConfig trust_config_error

text \<open>The file system as far as validation reads it.\<close>

record config_fs =
  cs_read_to_string :: "string \<Rightarrow> string option"
  cs_is_file :: "string \<Rightarrow> bool"
  cs_metadata :: "string \<Rightarrow> (string, bool) result"

fun from_core_error :: "core_error \<Rightarrow> config_error" where
  "from_core_error (ConfigInvalid reason) = InvalidReason reason"

section \<open>Trust\<close>

definition MAX_CHAIN_DEPTH_HARD_CAP :: u32 where "MAX_CHAIN_DEPTH_HARD_CAP = 16"

definition starts_with :: "string \<Rightarrow> string \<Rightarrow> bool" where
  "starts_with p s \<longleftrightarrow> take (length p) s = p"

definition btree_set :: "string list \<Rightarrow> string list" where
  "btree_set xs = remdups_adj (sort xs)"

definition validate_pem :: "config_fs \<Rightarrow> string \<Rightarrow> (config_error, unit) result" where
  "validate_pem F path =
     and_then (ok_or (TrustConfig (AnchorMissing path)) (cs_read_to_string F path)) (\<lambda>text.
       ensure (str_contains ''-----BEGIN CERTIFICATE-----'' text) (TrustConfig (AnchorNotPem path)))"

definition ocsp_url_ok :: "string option \<Rightarrow> bool" where
  "ocsp_url_ok url =
     (case url of None \<Rightarrow> False | Some u \<Rightarrow> starts_with ''http://'' u \<or> starts_with ''https://'' u)"

definition pin_entry_ok :: "string \<Rightarrow> bool" where
  "pin_entry_ok entry \<longleftrightarrow> length entry = 64 \<and> list_all is_ascii_hexdigit entry"

definition validate_trust :: "config_fs \<Rightarrow> raw_trust \<Rightarrow> (config_error, trust_section) result" where
  "validate_trust F raw =
     and_then (ensure (rt_max_chain_depth raw \<noteq> 0) (TrustConfig MaxChainDepthZero)) (\<lambda>_.
     and_then (ensure (\<not> rt_max_chain_depth raw > MAX_CHAIN_DEPTH_HARD_CAP)
       (Invalid ''trust.max_chain_depth'' (OutOfRange (unat (rt_max_chain_depth raw))))) (\<lambda>_.
     and_then (ensure (\<not> rt_clock_skew_seconds raw > 600) (TrustConfig ClockSkewTooLarge)) (\<lambda>_.
     and_then (try_each (validate_pem F) (rt_anchors raw @ rt_intermediates raw)) (\<lambda>_.
     and_then (if rt_revocation_mode raw = RevCrl
       then try_each (\<lambda>path. ensure (cs_is_file F path) (TrustConfig (CrlPathMissing path))) (rt_crl_paths raw)
       else Ok ()) (\<lambda>_.
     and_then (ensure (\<not> ((rt_revocation_mode raw = RevOcsp \<or> rt_revocation_mode raw = RevCrlThenOcsp)
         \<and> \<not> ocsp_url_ok (rt_ocsp_responder_url raw))) (TrustConfig OcspResponderInvalid)) (\<lambda>_.
     and_then (if rt_pinning_enabled raw
       then try_each (\<lambda>entry. ensure (pin_entry_ok entry) (TrustConfig (PinningHashInvalid entry)))
              (rt_allowed_root_spki_sha256 raw)
       else Ok ()) (\<lambda>_.
     Ok \<lparr>ts_anchors = rt_anchors raw, ts_intermediates = rt_intermediates raw,
         ts_revocation_mode = rt_revocation_mode raw, ts_crl_paths = rt_crl_paths raw,
         ts_allowed_signature_algorithms = btree_set (rt_allowed_signature_algorithms raw),
         ts_pinning_enabled = rt_pinning_enabled raw,
         ts_allowed_root_spki_sha256 = rt_allowed_root_spki_sha256 raw,
         ts_max_chain_depth = rt_max_chain_depth raw,
         ts_clock_skew_seconds = rt_clock_skew_seconds raw\<rparr>)))))))"

definition validate_trust_override ::
  "config_fs \<Rightarrow> raw_trust_override \<Rightarrow> (config_error, trust_override) result" where
  "validate_trust_override F raw =
     and_then (ensure (ro_when_host_id_in raw \<noteq> []) (Invalid ''trust_override.when_host_id_in'' MustBeNonEmpty)) (\<lambda>_.
     and_then (try_each (validate_pem F) (ro_anchors raw @ ro_intermediates raw)) (\<lambda>_.
     Ok \<lparr>to_when_host_id_in = btree_set (ro_when_host_id_in raw), to_anchors = ro_anchors raw,
         to_intermediates = ro_intermediates raw\<rparr>))"

section \<open>Host identity and user mappings\<close>

fun validate_sources ::
  "host_id_source_kind list \<Rightarrow> string list \<Rightarrow> (config_error, host_id_source_kind list) result" where
  "validate_sources seen [] = Ok []"
| "validate_sources seen (source # rest) =
     and_then (map_err from_core_error (source_from_str source)) (\<lambda>kind.
     and_then (ensure (kind \<notin> set seen) (Invalid ''host_identity.sources'' Duplicate)) (\<lambda>_.
     and_then (validate_sources (kind # seen) rest) (\<lambda>kinds. Ok (kind # kinds))))"

definition clamp :: "nat \<Rightarrow> nat \<Rightarrow> nat \<Rightarrow> nat" where
  "clamp lo hi x = (if x < lo then lo else if x > hi then hi else x)"

definition validate_host_identity :: "raw_host_identity \<Rightarrow> (config_error, host_identity_section) result" where
  "validate_host_identity raw =
     and_then (validate_sources [] (ri_sources raw)) (\<lambda>sources.
     and_then (ensure (sources \<noteq> []) (Invalid ''host_identity.sources'' MustBeNonEmpty)) (\<lambda>_.
     and_then (case ri_custom_command raw of
         Some cmd \<Rightarrow> ensure (path_is_absolute cmd) (Invalid ''host_identity.custom_command'' (MustBeAbsolute cmd))
       | None \<Rightarrow> Ok ()) (\<lambda>_.
     Ok \<lparr>hi_sources = sources, hi_fallback = ri_fallback raw, hi_override_value = ri_override raw,
         hi_custom_command = ri_custom_command raw,
         hi_custom_command_timeout = clamp 1 30 (unat (ri_custom_command_timeout_seconds raw))\<rparr>)))"

text \<open>The expression \<open>^[a-z_][a-z0-9_-]{0,31}$\<close>.\<close>

definition is_user_start :: "char \<Rightarrow> bool" where
  "is_user_start c \<longleftrightarrow> (97 \<le> (of_char c :: nat) \<and> (of_char c :: nat) \<le> 122) \<or> c = CHR ''_''"

definition is_user_char :: "char \<Rightarrow> bool" where
  "is_user_char c \<longleftrightarrow>
     is_user_start c \<or> (48 \<le> (of_char c :: nat) \<and> (of_char c :: nat) \<le> 57) \<or> c = CHR ''-''"

fun pam_user_matches :: "string \<Rightarrow> bool" where
  "pam_user_matches [] = False"
| "pam_user_matches (c # cs) \<longleftrightarrow> is_user_start c \<and> list_all is_user_char cs \<and> length cs \<le> 31"

definition mapping_criteria :: "raw_user_mapping \<Rightarrow> (config_error, user_match_criteria) result" where
  "mapping_criteria m =
     (case (ru_cert_subject_cn m, ru_cert_san_email m, ru_cert_san_upn m) of
        (Some v, None, None) \<Rightarrow> Ok (SubjectCn v)
      | (None, Some v, None) \<Rightarrow> Ok (SanEmail v)
      | (None, None, Some v) \<Rightarrow> Ok (SanUpn v)
      | _ \<Rightarrow> Err (InvalidReason ''user_mapping must set exactly one criterion''))"

fun validate_user_mappings ::
  "string list \<Rightarrow> raw_user_mapping list \<Rightarrow> (config_error, user_mapping list) result" where
  "validate_user_mappings seen [] = Ok []"
| "validate_user_mappings seen (m # ms) =
     and_then (ensure (pam_user_matches (ru_pam_user m) \<and> ru_pam_user m \<notin> set seen)
       (InvalidReason ''invalid or duplicate pam_user'')) (\<lambda>_.
     and_then (mapping_criteria m) (\<lambda>criteria.
     and_then (validate_user_mappings (ru_pam_user m # seen) ms) (\<lambda>rest.
     Ok (\<lparr>um_pam_user = ru_pam_user m, um_criteria = criteria\<rparr> # rest))))"

section \<open>Mandatory access control\<close>

definition MAC_CATEGORIES_HEX_MAX_LEN :: nat where "MAC_CATEGORIES_HEX_MAX_LEN = 16"

definition validate_fallback :: "i8 \<times> string \<Rightarrow> (config_error, integrity_label) result" where
  "validate_fallback = (\<lambda>(level, categories).
     and_then
       (if categories = [] then Ok 0
        else if length categories > MAC_CATEGORIES_HEX_MAX_LEN
        then Err (Invalid ''mac.fallback_max_integrity.categories'' (TooLong (length categories)))
        else ok_or (Invalid ''mac.fallback_max_integrity.categories'' (BadValue categories))
               (unsigned_from_str_radix u64_max 16 categories)) (\<lambda>cats.
     Ok \<lparr>il_level = level, il_categories = of_nat cats\<rparr>))"

definition unwrap_or :: "'a \<Rightarrow> 'a option \<Rightarrow> 'a" where
  "unwrap_or d v = (case v of Some x \<Rightarrow> x | None \<Rightarrow> d)"

definition validate_mac :: "bool \<Rightarrow> raw_mac_policy \<Rightarrow> (config_error, mac_policy) result" where
  "validate_mac astra_mac raw =
     (let cert_integrity = unwrap_or CertOptional (ra_cert_integrity raw);
          runtime = unwrap_or ModeAuto (ra_runtime raw)
      in and_then (ensure (\<not> (runtime = ModeDisabled \<and> cert_integrity = CertRequired))
           (Invalid ''[mac].runtime'' Incompatible)) (\<lambda>_.
         and_then (ensure (astra_mac \<or> cert_integrity \<noteq> CertRequired) (Invalid ''[mac].cert_integrity'' NeedsFeature)) (\<lambda>_.
         and_then (ensure (astra_mac \<or> runtime \<noteq> ModeRequired) (Invalid ''[mac].runtime'' NeedsFeature)) (\<lambda>_.
         and_then (case ra_fallback_max_integrity raw of
             None \<Rightarrow> Ok None
           | Some r \<Rightarrow> and_then (validate_fallback r) (\<lambda>l. Ok (Some l))) (\<lambda>fallback.
         Ok \<lparr>mp_cert_integrity = cert_integrity, mp_fallback_max_integrity = fallback,
             mp_warn_on_homedir_label_mismatch = unwrap_or True (ra_warn_on_homedir_label_mismatch raw),
             mp_runtime = runtime\<rparr>)))))"

section \<open>Tokens, media and the monitor\<close>

definition validate_max_usb_partitions :: "u32 option \<Rightarrow> (config_error, u32) result" where
  "validate_max_usb_partitions raw =
     (let v = unwrap_or 8 raw
      in and_then (ensure (v \<noteq> 0) (Invalid ''max_usb_partitions'' (OutOfRange 0))) (\<lambda>_.
         and_then (ensure (\<not> v > 64) (Invalid ''max_usb_partitions'' (OutOfRange (unat v)))) (\<lambda>_.
         Ok v)))"

definition validate_pkcs11_label :: "string \<Rightarrow> string \<Rightarrow> (config_error, unit) result" where
  "validate_pkcs11_label field value =
     and_then (ensure (value \<noteq> []) (Invalid field MustBeNonEmpty)) (\<lambda>_.
     and_then (ensure (\<not> length value > 64) (Invalid field (TooLong (length value)))) (\<lambda>_.
     ensure (CHR 0x00 \<notin> set value) (Invalid field HasNul)))"

definition in_range :: "nat \<Rightarrow> nat \<Rightarrow> nat \<Rightarrow> bool" where
  "in_range lo hi x \<longleftrightarrow> lo \<le> x \<and> x \<le> hi"

definition opt_check :: "('a \<Rightarrow> ('e, unit) result) \<Rightarrow> 'a option \<Rightarrow> ('e, unit) result" where
  "opt_check f v = (case v of Some x \<Rightarrow> f x | None \<Rightarrow> Ok ())"

definition validate_pkcs11_section :: "raw_config \<Rightarrow> auth_mode \<Rightarrow> (config_error, unit) result" where
  "validate_pkcs11_section raw mode =
     and_then (ensure (\<not> (mode = Pkcs11Mode \<and> rc_pkcs11_module raw = None)) (Invalid ''pkcs11_module'' Required)) (\<lambda>_.
     and_then (opt_check (validate_pkcs11_label ''pkcs11_token_label'') (rc_pkcs11_token_label raw)) (\<lambda>_.
     and_then (opt_check (validate_pkcs11_label ''pkcs11_object_label'') (rc_pkcs11_object_label raw)) (\<lambda>_.
     and_then (ensure (in_range 1 5 (unat (rc_pkcs11_max_pin_attempts raw)))
       (Invalid ''pkcs11_max_pin_attempts'' (OutOfRange (unat (rc_pkcs11_max_pin_attempts raw))))) (\<lambda>_.
     and_then (ensure (in_range 0 60 (unat (rc_pkcs11_slot_wait_seconds raw)))
       (Invalid ''pkcs11_slot_wait_seconds'' (OutOfRange (unat (rc_pkcs11_slot_wait_seconds raw))))) (\<lambda>_.
     opt_check (\<lambda>prompt.
         and_then (ensure (prompt \<noteq> []) (Invalid ''pkcs11_pin_prompt'' MustBeNonEmpty)) (\<lambda>_.
         ensure (\<not> length prompt > 128) (Invalid ''pkcs11_pin_prompt'' (TooLong (length prompt)))))
       (rc_pkcs11_pin_prompt raw))))))"

definition absolute :: "string \<Rightarrow> string \<Rightarrow> (config_error, unit) result" where
  "absolute field path = ensure (path_is_absolute path) (Invalid field (MustBeAbsolute path))"

definition monitor_fail_mode_of :: "string option \<Rightarrow> monitor_fail_mode \<Rightarrow> (config_error, monitor_fail_mode) result" where
  "monitor_fail_mode_of raw legacy =
     (case raw of
        None \<Rightarrow> Ok legacy
      | Some s \<Rightarrow>
          if s = ''strict'' then Ok Strict
          else if s = ''permissive'' \<or> s = ''degraded'' then Ok Permissive
          else Err (Invalid ''monitor.fail_mode'' (BadValue s)))"

definition removal_hook_path :: "removal_action \<Rightarrow> string option \<Rightarrow> (config_error, string option) result" where
  "removal_hook_path action raw =
     (if action = ActHook
      then and_then (ok_or (Invalid ''monitor.on_usb_removed_hook_path'' Required) raw) (\<lambda>path.
           and_then (absolute ''monitor.on_usb_removed_hook_path'' path) (\<lambda>_. Ok (Some path)))
      else and_then (ensure (raw = None) (Invalid ''monitor.on_usb_removed_hook_path'' Unexpected)) (\<lambda>_. Ok None))"

definition seconds_upto :: "string \<Rightarrow> nat \<Rightarrow> nat \<Rightarrow> (config_error, unit) result" where
  "seconds_upto field hi x = ensure (\<not> x > hi) (Invalid field (OutOfRange x))"

definition validate_monitor :: "raw_config \<Rightarrow> raw_monitor \<Rightarrow> monitor_fail_mode \<Rightarrow> (config_error, monitor_section) result" where
  "validate_monitor raw_top raw legacy_fail_mode =
     (let socket_path = unwrap_or ''/run/pam_certauth/monitord.sock'' (rm_socket_path raw);
          state_file_path = unwrap_or ''/run/pam_certauth/sessions.json'' (rm_state_file_path raw);
          timeout_ms = unat (unwrap_or 2000 (rm_timeout_ms raw));
          action = unwrap_or (rc_on_usb_removed raw_top) (rm_on_usb_removed raw);
          grace = unat (unwrap_or (rc_usb_removed_grace_seconds raw_top) (rm_usb_removed_grace_seconds raw));
          suspend = unat (unwrap_or (rc_suspend_grace_seconds raw_top) (rm_suspend_grace_seconds raw));
          idle = unat (unwrap_or 30 (rm_idle_timeout_seconds raw));
          conns = unwrap_or 64 (rm_max_concurrent_connections raw)
      in and_then (absolute ''monitor.socket_path'' socket_path) (\<lambda>_.
         and_then (absolute ''monitor.state_file_path'' state_file_path) (\<lambda>_.
         and_then (ensure (in_range 100 60000 timeout_ms) (Invalid ''monitor.timeout_ms'' (OutOfRange timeout_ms))) (\<lambda>_.
         and_then (monitor_fail_mode_of (rm_fail_mode raw) legacy_fail_mode) (\<lambda>fail_mode.
         and_then (removal_hook_path action (rm_on_usb_removed_hook_path raw)) (\<lambda>hook_path.
         and_then (seconds_upto ''monitor.usb_removed_grace_seconds'' 600 grace) (\<lambda>_.
         and_then (seconds_upto ''monitor.suspend_grace_seconds'' 600 suspend) (\<lambda>_.
         and_then (ensure (in_range 1 3600 idle) (Invalid ''monitor.idle_timeout_seconds'' (OutOfRange idle))) (\<lambda>_.
         and_then (ensure (in_range 1 4096 (unat conns))
           (Invalid ''monitor.max_concurrent_connections'' (OutOfRange (unat conns)))) (\<lambda>_.
         Ok \<lparr>mn_socket_path = socket_path, mn_timeout_ms = timeout_ms, mn_fail_mode = fail_mode,
             mn_state_file_path = state_file_path, mn_on_usb_removed = action, mn_usb_removed_grace = grace,
             mn_suspend_grace = suspend, mn_on_usb_removed_hook_path = hook_path, mn_idle_timeout = idle,
             mn_max_concurrent_connections = conns\<rparr>))))))))))"

definition validate_gost_engine_path ::
  "config_fs \<Rightarrow> raw_config \<Rightarrow> crypto_backend \<Rightarrow> (config_error, string option) result" where
  "validate_gost_engine_path F raw backend =
     (case rc_gost_engine_path raw of
        None \<Rightarrow> Ok None
      | Some path \<Rightarrow>
          and_then (ensure (backend = BackendOpenssl) GostEnginePathRequiresOpenssl) (\<lambda>_.
          and_then (map_err (\<lambda>_. GostEnginePathUnreadable path) (cs_metadata F path)) (\<lambda>is_file.
          and_then (ensure is_file (GostEnginePathUnreadable path)) (\<lambda>_. Ok (Some path)))))"

section \<open>Logging and the greeter\<close>

definition log_level_from_str :: "string \<Rightarrow> (core_error, log_level) result" where
  "log_level_from_str s =
     (let l = to_ascii_lowercase s in
      if l = ''trace'' then Ok LogTrace
      else if l = ''debug'' then Ok LogDebug
      else if l = ''info'' then Ok LogInfo
      else if l = ''warn'' \<or> l = ''warning'' then Ok LogWarn
      else if l = ''error'' then Ok LogError
      else Err (ConfigInvalid (''invalid log level: '' @ s)))"

definition facility_from_str :: "string \<Rightarrow> (core_error, syslog_facility) result" where
  "facility_from_str s =
     (let l = to_ascii_lowercase s in
      if l = ''auth'' then Ok FacAuth
      else if l = ''authpriv'' then Ok FacAuthpriv
      else if l = ''user'' then Ok FacUser
      else if l = ''daemon'' then Ok FacDaemon
      else Err (ConfigInvalid (''invalid syslog facility: '' @ s)))"

definition validate_logging :: "raw_logging \<Rightarrow> (config_error, logging_section) result" where
  "validate_logging raw =
     and_then (map_err from_core_error (log_level_from_str (rg_level raw))) (\<lambda>level.
     and_then (map_err from_core_error (facility_from_str (rg_syslog_facility raw))) (\<lambda>facility.
     Ok \<lparr>lg_level = level, lg_syslog_facility = facility, lg_journald_priority = rg_journald_priority raw\<rparr>))"

definition hex_byte_at :: "string \<Rightarrow> nat \<Rightarrow> u8 option" where
  "hex_byte_at s i = map_option of_nat (unsigned_from_str_radix 255 16 (take 2 (drop i s)))"

definition parse_hex_color :: "string \<Rightarrow> u8 list option" where
  "parse_hex_color s =
     (case s of
        c # h \<Rightarrow>
          if c \<noteq> CHR ''#'' \<or> \<not> list_all is_ascii_hexdigit h then None
          else if length h = 6
          then (case (hex_byte_at h 0, hex_byte_at h 2, hex_byte_at h 4) of
                  (Some r, Some g, Some b) \<Rightarrow> Some [r, g, b, 255] | _ \<Rightarrow> None)
          else if length h = 8
          then (case (hex_byte_at h 0, hex_byte_at h 2, hex_byte_at h 4, hex_byte_at h 6) of
                  (Some r, Some g, Some b, Some a) \<Rightarrow> Some [r, g, b, a] | _ \<Rightarrow> None)
          else None
      | [] \<Rightarrow> None)"

definition parse_gravity :: "string \<Rightarrow> gravity option" where
  "parse_gravity s =
     (let l = to_ascii_lowercase s in
      if l = ''north'' then Some North
      else if l = ''south'' then Some South
      else if l = ''east'' then Some East
      else if l = ''west'' then Some West
      else if l = ''center'' \<or> l = ''centre'' then Some Center
      else None)"

text \<open>The Cyrillic word of the default template, as its UTF-8 bytes.\<close>

definition greeter_defaults :: fly_dm_greeter_section where
  "greeter_defaults =
     \<lparr>fg_update_wallpaper = False,
      fg_wallpaper_target = ''/usr/share/wallpapers/fly-default-light.jpg'',
      fg_wallpaper_backup = ''/var/lib/pam_certauth/wallpaper.orig.jpg'',
      fg_wallpaper_font = ''/usr/share/fonts/truetype/dejavu/DejaVuSans-Bold.ttf'',
      fg_wallpaper_font_size = 64, fg_wallpaper_text_color = [0, 0, 0, 255],
      fg_wallpaper_gravity = South, fg_wallpaper_offset_x = 0, fg_wallpaper_offset_y = 120,
      fg_template_ru =
        str_of_bytes [208, 145, 208, 176, 208, 189, 208, 186, 208, 190, 208, 188, 208, 176, 209, 130]
        @ '' %n  host_id={host_id_short} ({source})'',
      fg_template_en = ''ATM %n  host_id={host_id_short} ({source})''\<rparr>"

definition greeter_path :: "string \<Rightarrow> string option \<Rightarrow> string \<Rightarrow> (config_error, string) result" where
  "greeter_path field value d =
     (case value of
        Some p \<Rightarrow> and_then (absolute field p) (\<lambda>_. Ok p)
      | None \<Rightarrow> Ok d)"

definition validate_fly_dm_greeter ::
  "raw_fly_dm_greeter option \<Rightarrow> (config_error, fly_dm_greeter_section) result" where
  "validate_fly_dm_greeter raw_opt =
     (let d = greeter_defaults in
      case raw_opt of
        None \<Rightarrow> Ok d
      | Some raw \<Rightarrow>
          and_then (greeter_path ''fly_dm_greeter.wallpaper_target'' (rf_wallpaper_target raw) (fg_wallpaper_target d)) (\<lambda>target.
          and_then (greeter_path ''fly_dm_greeter.wallpaper_backup'' (rf_wallpaper_backup raw) (fg_wallpaper_backup d)) (\<lambda>backup.
          and_then (greeter_path ''fly_dm_greeter.wallpaper_font'' (rf_wallpaper_font raw) (fg_wallpaper_font d)) (\<lambda>font.
          and_then (case rf_wallpaper_text_color raw of
              Some s \<Rightarrow> ok_or (Invalid ''fly_dm_greeter.wallpaper_text_color'' (BadValue s)) (parse_hex_color s)
            | None \<Rightarrow> Ok (fg_wallpaper_text_color d)) (\<lambda>color.
          and_then (case rf_wallpaper_gravity raw of
              Some s \<Rightarrow> ok_or (Invalid ''fly_dm_greeter.wallpaper_gravity'' (BadValue s)) (parse_gravity s)
            | None \<Rightarrow> Ok (fg_wallpaper_gravity d)) (\<lambda>gravity.
          and_then (ensure (unwrap_or (fg_wallpaper_font_size d) (rf_wallpaper_font_size raw) \<noteq> 0)
            (Invalid ''fly_dm_greeter.wallpaper_font_size'' (OutOfRange 0))) (\<lambda>_.
          Ok \<lparr>fg_update_wallpaper = unwrap_or (fg_update_wallpaper d) (rf_update_wallpaper raw),
              fg_wallpaper_target = target, fg_wallpaper_backup = backup, fg_wallpaper_font = font,
              fg_wallpaper_font_size = unwrap_or (fg_wallpaper_font_size d) (rf_wallpaper_font_size raw),
              fg_wallpaper_text_color = color, fg_wallpaper_gravity = gravity,
              fg_wallpaper_offset_x = unwrap_or (fg_wallpaper_offset_x d) (rf_wallpaper_offset_x raw),
              fg_wallpaper_offset_y = unwrap_or (fg_wallpaper_offset_y d) (rf_wallpaper_offset_y raw),
              fg_template_ru = unwrap_or (fg_template_ru d) (rf_template_ru raw),
              fg_template_en = unwrap_or (fg_template_en d) (rf_template_en raw)\<rparr>)))))))"

section \<open>The whole configuration\<close>

definition needs_gost :: "validated_config \<Rightarrow> bool" where
  "needs_gost cfg \<longleftrightarrow>
     vf_crypto_backend cfg = BackendOpenssl \<and>
     list_ex (\<lambda>s. is_gost (from_oid_string s)) (ts_allowed_signature_algorithms (vf_trust cfg))"

definition try_from_raw :: "bool \<Rightarrow> config_fs \<Rightarrow> raw_config \<Rightarrow> (config_error, validated_config) result" where
  "try_from_raw astra_mac F raw =
     and_then (validate_trust F (rc_trust raw)) (\<lambda>trust.
     and_then (validate_host_identity (rc_host_identity raw)) (\<lambda>host_identity.
     and_then (validate_user_mappings [] (rc_user_mapping raw)) (\<lambda>user_mappings.
     and_then (validate_logging (rc_logging raw)) (\<lambda>logging.
     and_then (map_err HookValidation (try_map validate_hook (rc_hooks raw))) (\<lambda>hooks.
     and_then (validate_gost_engine_path F raw (rc_crypto_backend raw)) (\<lambda>gost_engine_path.
     and_then (validate_pkcs11_section raw (rc_mode raw)) (\<lambda>_.
     and_then (map_err InvalidReason (validate_pkcs12_path_pattern (rc_pkcs12_path_pattern raw))) (\<lambda>pattern.
     and_then (validate_max_usb_partitions (rc_max_usb_partitions raw)) (\<lambda>max_usb_partitions.
     and_then (validate_monitor raw (rc_monitor raw) (rc_monitor_fail_mode raw)) (\<lambda>monitor.
     and_then (try_map (validate_trust_override F) (rc_trust_override raw)) (\<lambda>trust_overrides.
     and_then (validate_mac astra_mac (rc_mac raw)) (\<lambda>mac.
     and_then (validate_fly_dm_greeter (rc_fly_dm_greeter raw)) (\<lambda>fly_dm_greeter.
     Ok \<lparr>vf_crypto_backend = rc_crypto_backend raw, vf_mode = rc_mode raw,
         vf_pkcs11_module = rc_pkcs11_module raw, vf_pkcs11_token_label = rc_pkcs11_token_label raw,
         vf_pkcs11_object_label = rc_pkcs11_object_label raw,
         vf_pkcs11_max_pin_attempts = rc_pkcs11_max_pin_attempts raw,
         vf_pkcs11_locking_mode = rc_pkcs11_locking_mode raw, vf_pkcs11_pin_prompt = rc_pkcs11_pin_prompt raw,
         vf_pkcs11_slot_wait = unat (rc_pkcs11_slot_wait_seconds raw), vf_pkcs12_path_pattern = pattern,
         vf_pkcs12_pin_prompt = rc_pkcs12_pin_prompt raw, vf_gost_engine_path = gost_engine_path,
         vf_usb_wait = unat (rc_usb_wait_seconds raw), vf_max_usb_partitions = max_usb_partitions,
         vf_on_usb_removed = rc_on_usb_removed raw,
         vf_usb_removed_grace = unat (rc_usb_removed_grace_seconds raw),
         vf_suspend_grace = unat (rc_suspend_grace_seconds raw), vf_monitor_fail_mode = rc_monitor_fail_mode raw,
         vf_monitor = monitor, vf_trust = trust, vf_trust_overrides = trust_overrides,
         vf_host_identity = host_identity, vf_user_mappings = user_mappings, vf_logging = logging,
         vf_hooks = hooks, vf_mac = mac, vf_fly_dm_greeter = fly_dm_greeter\<rparr>)))))))))))))"

section \<open>What validation guarantees\<close>

lemma opt_check_Ok [result_simps]: "(opt_check f v = Ok u) = (\<forall>x. v = Some x \<longrightarrow> f x = Ok ())"
  by (cases v) (simp_all add: opt_check_def)

lemma absolute_Ok [result_simps]: "(absolute field path = Ok u) = path_is_absolute path"
  by (simp add: absolute_def result_simps)

definition trust_ok :: "config_fs \<Rightarrow> trust_section \<Rightarrow> bool" where
  "trust_ok F t \<longleftrightarrow>
     in_range 1 16 (unat (ts_max_chain_depth t)) \<and> unat (ts_clock_skew_seconds t) \<le> 600 \<and>
     (\<forall>path\<in>set (ts_anchors t @ ts_intermediates t).
        \<exists>text. cs_read_to_string F path = Some text \<and> str_contains ''-----BEGIN CERTIFICATE-----'' text) \<and>
     (ts_revocation_mode t = RevCrl \<longrightarrow> (\<forall>path\<in>set (ts_crl_paths t). cs_is_file F path)) \<and>
     (ts_pinning_enabled t \<longrightarrow> (\<forall>entry\<in>set (ts_allowed_root_spki_sha256 t). pin_entry_ok entry))"

lemma validate_pem_Ok [result_simps]:
  "(validate_pem F path = Ok u) =
     (\<exists>text. cs_read_to_string F path = Some text \<and> str_contains ''-----BEGIN CERTIFICATE-----'' text)"
  by (auto simp: validate_pem_def result_simps)

lemma unat_le_numeral: "\<not> x > (numeral n :: 'a :: len word) \<Longrightarrow> unat x \<le> unat (numeral n :: 'a word)"
  by (simp add: word_le_nat_alt not_less)

lemma validate_trust_Ok:
  assumes "validate_trust F raw = Ok t"
  shows "trust_ok F t"
proof -
  have d: "rt_max_chain_depth raw \<noteq> 0" "\<not> rt_max_chain_depth raw > 16" "\<not> rt_clock_skew_seconds raw > 600"
    using assms by (auto simp: validate_trust_def result_simps MAX_CHAIN_DEPTH_HARD_CAP_def)
  have "0 < unat (rt_max_chain_depth raw)" "unat (rt_max_chain_depth raw) \<le> 16"
    "unat (rt_clock_skew_seconds raw) \<le> 600"
    using d(1) unat_le_numeral [OF d(2)] unat_le_numeral [OF d(3)] by (simp_all add: unat_gt_0)
  with assms show ?thesis
    by (auto simp: validate_trust_def result_simps trust_ok_def in_range_def split: if_splits)
qed

definition host_identity_ok :: "host_identity_section \<Rightarrow> bool" where
  "host_identity_ok h \<longleftrightarrow>
     hi_sources h \<noteq> [] \<and> distinct (hi_sources h) \<and>
     (\<forall>cmd. hi_custom_command h = Some cmd \<longrightarrow> path_is_absolute cmd) \<and>
     in_range 1 30 (hi_custom_command_timeout h)"

lemma validate_sources_Ok:
  "validate_sources seen ss = Ok kinds \<Longrightarrow>
   distinct kinds \<and> set kinds \<inter> set seen = {} \<and> list_all2 (\<lambda>s k. source_from_str s = Ok k) ss kinds"
  by (induction seen ss arbitrary: kinds rule: validate_sources.induct) (fastforce simp: result_simps)+

lemma validate_host_identity_Ok:
  "validate_host_identity raw = Ok h \<Longrightarrow> host_identity_ok h"
  by (auto simp: validate_host_identity_def result_simps host_identity_ok_def in_range_def clamp_def
      dest!: validate_sources_Ok split: option.splits)

definition mappings_ok :: "user_mapping list \<Rightarrow> bool" where
  "mappings_ok ms \<longleftrightarrow> distinct (map um_pam_user ms) \<and> (\<forall>m\<in>set ms. pam_user_matches (um_pam_user m))"

lemma validate_user_mappings_Ok:
  "validate_user_mappings seen raw = Ok ms \<Longrightarrow>
   mappings_ok ms \<and> um_pam_user ` set ms \<inter> set seen = {}
   \<and> list_all2 (\<lambda>r m. um_pam_user m = ru_pam_user r \<and> mapping_criteria r = Ok (um_criteria m)) raw ms"
  by (induction seen raw arbitrary: ms rule: validate_user_mappings.induct)
    (fastforce simp: result_simps mappings_ok_def)+

text \<open>A name that passes the expression is a plain one: no slash, no dot.\<close>

lemma pam_user_plain: "pam_user_matches u \<Longrightarrow> u \<noteq> [] \<and> CHR ''/'' \<notin> set u \<and> CHR ''.'' \<notin> set u"
  by (cases u) (auto simp: is_user_start_def is_user_char_def list_all_iff)

definition mac_ok :: "bool \<Rightarrow> mac_policy \<Rightarrow> bool" where
  "mac_ok astra_mac m \<longleftrightarrow>
     \<not> (mp_runtime m = ModeDisabled \<and> mp_cert_integrity m = CertRequired) \<and>
     (mp_cert_integrity m = CertRequired \<or> mp_runtime m = ModeRequired \<longrightarrow> astra_mac)"

lemma validate_mac_Ok: "validate_mac astra raw = Ok m \<Longrightarrow> mac_ok astra m"
  by (auto simp: validate_mac_def Let_def result_simps mac_ok_def)

definition monitor_ok :: "monitor_section \<Rightarrow> bool" where
  "monitor_ok m \<longleftrightarrow>
     path_is_absolute (mn_socket_path m) \<and> path_is_absolute (mn_state_file_path m) \<and>
     in_range 100 60000 (mn_timeout_ms m) \<and> mn_usb_removed_grace m \<le> 600 \<and> mn_suspend_grace m \<le> 600 \<and>
     in_range 1 3600 (mn_idle_timeout m) \<and> in_range 1 4096 (unat (mn_max_concurrent_connections m)) \<and>
     (case mn_on_usb_removed_hook_path m of
        Some path \<Rightarrow> mn_on_usb_removed m = ActHook \<and> path_is_absolute path
      | None \<Rightarrow> mn_on_usb_removed m \<noteq> ActHook)"

lemma removal_hook_path_Ok:
  "removal_hook_path action raw = Ok p \<Longrightarrow>
   case p of Some path \<Rightarrow> action = ActHook \<and> path_is_absolute path | None \<Rightarrow> action \<noteq> ActHook"
  by (auto simp: removal_hook_path_def result_simps split: if_splits)

lemma validate_monitor_Ok: "validate_monitor raw_top raw legacy = Ok m \<Longrightarrow> monitor_ok m"
  by (auto simp: validate_monitor_def Let_def result_simps monitor_ok_def seconds_upto_def not_less
      dest!: removal_hook_path_Ok split: option.splits)

definition tokens_ok_cfg :: "validated_config \<Rightarrow> bool" where
  "tokens_ok_cfg c \<longleftrightarrow>
     (vf_mode c = Pkcs11Mode \<longrightarrow> vf_pkcs11_module c \<noteq> None) \<and>
     in_range 1 5 (unat (vf_pkcs11_max_pin_attempts c)) \<and> vf_pkcs11_slot_wait c \<le> 60 \<and>
     in_range 1 64 (unat (vf_max_usb_partitions c)) \<and>
     (\<forall>l. vf_pkcs11_token_label c = Some l \<or> vf_pkcs11_object_label c = Some l \<longrightarrow>
        in_range 1 64 (length l) \<and> CHR 0x00 \<notin> set l)"

definition config_ok :: "bool \<Rightarrow> config_fs \<Rightarrow> validated_config \<Rightarrow> bool" where
  "config_ok astra_mac F c \<longleftrightarrow>
     trust_ok F (vf_trust c) \<and> host_identity_ok (vf_host_identity c) \<and> mappings_ok (vf_user_mappings c) \<and>
     mac_ok astra_mac (vf_mac c) \<and> monitor_ok (vf_monitor c) \<and> tokens_ok_cfg c \<and>
     (vf_gost_engine_path c \<noteq> None \<longrightarrow> vf_crypto_backend c = BackendOpenssl) \<and>
     (\<forall>h\<in>set (vf_hooks c). hc_command h \<noteq> [] \<and> path_is_absolute (hd (hc_command h)) \<and> in_range 1 120 (hc_timeout h)) \<and>
     validate_pkcs12_path_pattern (vf_pkcs12_path_pattern c) = Ok (vf_pkcs12_path_pattern c)"

lemma validate_pkcs11_section_Ok:
  assumes "validate_pkcs11_section raw mode = Ok u"
  shows "mode = Pkcs11Mode \<longrightarrow> rc_pkcs11_module raw \<noteq> None" "in_range 1 5 (unat (rc_pkcs11_max_pin_attempts raw))"
    "unat (rc_pkcs11_slot_wait_seconds raw) \<le> 60"
    "\<And>l. rc_pkcs11_token_label raw = Some l \<or> rc_pkcs11_object_label raw = Some l \<Longrightarrow>
       in_range 1 64 (length l) \<and> CHR 0x00 \<notin> set l"
  using assms
  by (auto simp: validate_pkcs11_section_def validate_pkcs11_label_def result_simps in_range_def Suc_le_eq not_less)

lemma validate_max_usb_partitions_Ok:
  assumes "validate_max_usb_partitions raw = Ok v"
  shows "in_range 1 64 (unat v)"
proof -
  have "v \<noteq> 0" and v: "\<not> v > 64" using assms by (auto simp: validate_max_usb_partitions_def Let_def result_simps)
  then have "0 < unat v" by (simp add: unat_gt_0)
  with unat_le_numeral [OF v] show ?thesis by (simp add: in_range_def)
qed

lemma validate_pkcs12_path_pattern_fix:
  "validate_pkcs12_path_pattern raw = Ok p \<Longrightarrow> validate_pkcs12_path_pattern p = Ok p"
  by (auto simp: validate_pkcs12_path_pattern_def split: option.splits if_splits)

lemma validate_gost_engine_path_Ok:
  "validate_gost_engine_path F raw b = Ok p \<Longrightarrow> p \<noteq> None \<longrightarrow> b = BackendOpenssl"
  by (auto simp: validate_gost_engine_path_def result_simps split: option.splits)

lemma validated_hook_ok:
  "validate_hook raw = Ok h \<Longrightarrow>
   hc_command h \<noteq> [] \<and> path_is_absolute (hd (hc_command h)) \<and> in_range 1 120 (hc_timeout h)"
  using validate_hook_Ok(3-6) [of raw h] by (simp add: in_range_def Suc_le_eq)

lemma config_ok_of_raw:
  assumes "try_from_raw astra_mac F raw = Ok cfg"
  shows "config_ok astra_mac F cfg"
proof -
  from assms obtain trust hi ms lg hooks gp u pat parts mon ov mac fly where
    v: "validate_trust F (rc_trust raw) = Ok trust" "validate_host_identity (rc_host_identity raw) = Ok hi"
      "validate_user_mappings [] (rc_user_mapping raw) = Ok ms" "try_map validate_hook (rc_hooks raw) = Ok hooks"
      "validate_gost_engine_path F raw (rc_crypto_backend raw) = Ok gp"
      "validate_pkcs11_section raw (rc_mode raw) = Ok u"
      "validate_pkcs12_path_pattern (rc_pkcs12_path_pattern raw) = Ok pat"
      "validate_max_usb_partitions (rc_max_usb_partitions raw) = Ok parts"
      "validate_monitor raw (rc_monitor raw) (rc_monitor_fail_mode raw) = Ok mon"
      "validate_mac astra_mac (rc_mac raw) = Ok mac"
    and c: "vf_trust cfg = trust" "vf_host_identity cfg = hi" "vf_user_mappings cfg = ms" "vf_hooks cfg = hooks"
      "vf_gost_engine_path cfg = gp" "vf_crypto_backend cfg = rc_crypto_backend raw" "vf_mode cfg = rc_mode raw"
      "vf_pkcs12_path_pattern cfg = pat" "vf_max_usb_partitions cfg = parts" "vf_monitor cfg = mon" "vf_mac cfg = mac"
      "vf_pkcs11_module cfg = rc_pkcs11_module raw" "vf_pkcs11_token_label cfg = rc_pkcs11_token_label raw"
      "vf_pkcs11_object_label cfg = rc_pkcs11_object_label raw"
      "vf_pkcs11_max_pin_attempts cfg = rc_pkcs11_max_pin_attempts raw"
      "vf_pkcs11_slot_wait cfg = unat (rc_pkcs11_slot_wait_seconds raw)"
    by (auto simp: try_from_raw_def result_simps)
  have "hc_command h \<noteq> [] \<and> path_is_absolute (hd (hc_command h)) \<and> in_range 1 120 (hc_timeout h)"
    if "h \<in> set hooks" for h
    using try_map_mem [OF v(4) that] validated_hook_ok by blast
  moreover have "tokens_ok_cfg cfg"
    using validate_pkcs11_section_Ok [OF v(6)] validate_max_usb_partitions_Ok [OF v(8)]
    by (simp add: tokens_ok_cfg_def c)
  ultimately show ?thesis
    using validate_trust_Ok [OF v(1)] validate_host_identity_Ok [OF v(2)] validate_user_mappings_Ok [OF v(3)]
      validate_gost_engine_path_Ok [OF v(5)] validate_pkcs12_path_pattern_fix [OF v(7)]
      validate_monitor_Ok [OF v(9)] validate_mac_Ok [OF v(10)]
    by (simp add: config_ok_def c)
qed


definition demo_fs :: config_fs where
  "demo_fs = \<lparr>cs_read_to_string = (\<lambda>_. Some ''-----BEGIN CERTIFICATE-----''), cs_is_file = (\<lambda>_. True),
     cs_metadata = (\<lambda>_. Ok True)\<rparr>"

definition demo_raw_trust :: raw_trust where
  "demo_raw_trust = \<lparr>rt_anchors = [''/etc/ca.pem''], rt_intermediates = [], rt_max_chain_depth = 5,
     rt_clock_skew_seconds = 60, rt_allowed_signature_algorithms = [], rt_revocation_mode = RevNone,
     rt_crl_paths = [], rt_ocsp_responder_url = None, rt_pinning_enabled = True,
     rt_allowed_root_spki_sha256 = []\<rparr>"

definition demo_raw :: raw_config where
  "demo_raw = \<lparr>rc_crypto_backend = BackendOpenssl, rc_mode = Pkcs12Mode, rc_pkcs11_module = None,
     rc_pkcs11_token_label = None, rc_pkcs11_object_label = None, rc_pkcs11_max_pin_attempts = 3,
     rc_pkcs11_locking_mode = LockOs, rc_pkcs11_pin_prompt = None, rc_pkcs11_slot_wait_seconds = 10,
     rc_pkcs12_path_pattern = None, rc_pkcs12_pin_prompt = None, rc_gost_engine_path = None,
     rc_usb_wait_seconds = 10, rc_max_usb_partitions = None, rc_on_usb_removed = ActLock,
     rc_usb_removed_grace_seconds = 0, rc_suspend_grace_seconds = 0, rc_monitor_fail_mode = Strict,
     rc_monitor = \<lparr>rm_socket_path = None, rm_timeout_ms = None, rm_fail_mode = None, rm_state_file_path = None,
       rm_on_usb_removed = None, rm_usb_removed_grace_seconds = None, rm_suspend_grace_seconds = None,
       rm_on_usb_removed_hook_path = None, rm_idle_timeout_seconds = None, rm_max_concurrent_connections = None\<rparr>,
     rc_trust = demo_raw_trust, rc_trust_override = [],
     rc_host_identity = \<lparr>ri_sources = [''machine_id''], ri_fallback = FbDeny, ri_override = None,
       ri_custom_command = None, ri_custom_command_timeout_seconds = 5\<rparr>,
     rc_user_mapping = [\<lparr>ru_pam_user = ''ann'', ru_cert_subject_cn = Some ''Ann'', ru_cert_san_email = None,
       ru_cert_san_upn = None\<rparr>],
     rc_logging = \<lparr>rg_level = ''info'', rg_syslog_facility = ''auth'', rg_journald_priority = False\<rparr>,
     rc_hooks = [],
     rc_mac = \<lparr>ra_cert_integrity = None, ra_fallback_max_integrity = None,
       ra_warn_on_homedir_label_mismatch = None, ra_runtime = None\<rparr>,
     rc_fly_dm_greeter = None\<rparr>"

definition demo_config :: validated_config where
  "demo_config = (case try_from_raw False demo_fs demo_raw of Inr cfg \<Rightarrow> cfg)"

lemma demo_parts:
  "validate_trust demo_fs demo_raw_trust =
     Ok \<lparr>ts_anchors = [''/etc/ca.pem''], ts_intermediates = [], ts_revocation_mode = RevNone, ts_crl_paths = [],
         ts_allowed_signature_algorithms = [], ts_pinning_enabled = True, ts_allowed_root_spki_sha256 = [],
         ts_max_chain_depth = 5, ts_clock_skew_seconds = 60\<rparr>"
  "is_ok (validate_host_identity (rc_host_identity demo_raw))"
  "is_ok (validate_user_mappings [] (rc_user_mapping demo_raw))"
  "is_ok (validate_monitor demo_raw (rc_monitor demo_raw) (rc_monitor_fail_mode demo_raw))"
  "is_ok (validate_pkcs11_section demo_raw (rc_mode demo_raw))"
  "is_ok (validate_mac False (rc_mac demo_raw))"
  "is_ok (validate_max_usb_partitions (rc_max_usb_partitions demo_raw))"
  by (simp_all add: validate_trust_def demo_raw_trust_def demo_fs_def validate_pem_def MAX_CHAIN_DEPTH_HARD_CAP_def
      btree_set_def demo_raw_def validate_host_identity_def source_from_str_def validate_monitor_def unwrap_or_def
      absolute_def path_is_absolute_def in_range_def monitor_fail_mode_of_def removal_hook_path_def seconds_upto_def
      validate_pkcs11_section_def opt_check_def validate_mac_def validate_max_usb_partitions_def
      is_user_start_def is_user_char_def mapping_criteria_def)

lemma demo_logging: "is_ok (validate_logging (rc_logging demo_raw))"
  by code_simp

lemma is_ok_obtain: "is_ok r \<Longrightarrow> (\<And>x. r = Ok x \<Longrightarrow> P) \<Longrightarrow> P"
  by (cases r) auto

lemma demo_config_Ok: "try_from_raw False demo_fs demo_raw = Ok demo_config"
proof -
  from demo_parts(2-7) demo_logging obtain hi ms mon pk mac parts lg where
    v: "validate_host_identity (rc_host_identity demo_raw) = Ok hi"
      "validate_user_mappings [] (rc_user_mapping demo_raw) = Ok ms"
      "validate_monitor demo_raw (rc_monitor demo_raw) (rc_monitor_fail_mode demo_raw) = Ok mon"
      "validate_pkcs11_section demo_raw (rc_mode demo_raw) = Ok pk"
      "validate_mac False (rc_mac demo_raw) = Ok mac"
      "validate_max_usb_partitions (rc_max_usb_partitions demo_raw) = Ok parts"
      "validate_logging (rc_logging demo_raw) = Ok lg"
    by (metis is_ok_obtain)
  have r: "rc_trust demo_raw = demo_raw_trust" "rc_hooks demo_raw = []" "rc_gost_engine_path demo_raw = None"
    "rc_pkcs12_path_pattern demo_raw = None" "rc_trust_override demo_raw = []" "rc_fly_dm_greeter demo_raw = None"
    by (simp_all add: demo_raw_def)
  show ?thesis
    by (simp add: demo_config_def try_from_raw_def v r demo_parts(1) validate_gost_engine_path_def
        validate_pkcs12_path_pattern_def validate_fly_dm_greeter_def Let_def)
qed


lemma try_from_raw_trust:
  "try_from_raw astra_mac F raw = Ok cfg \<Longrightarrow> validate_trust F (rc_trust raw) = Ok (vf_trust cfg)"
  by (auto simp: try_from_raw_def result_simps)

lemma demo_config_trust:
  "vf_trust demo_config =
     \<lparr>ts_anchors = [''/etc/ca.pem''], ts_intermediates = [], ts_revocation_mode = RevNone, ts_crl_paths = [],
      ts_allowed_signature_algorithms = [], ts_pinning_enabled = True, ts_allowed_root_spki_sha256 = [],
      ts_max_chain_depth = 5, ts_clock_skew_seconds = 60\<rparr>"
proof -
  have "rc_trust demo_raw = demo_raw_trust" by (simp add: demo_raw_def)
  then show ?thesis using try_from_raw_trust [OF demo_config_Ok] demo_parts(1) by simp
qed

lemma try_from_raw_host:
  "try_from_raw astra_mac F raw = Ok cfg \<Longrightarrow> validate_host_identity (rc_host_identity raw) = Ok (vf_host_identity cfg)"
  by (auto simp: try_from_raw_def result_simps)

lemma try_from_raw_mac: "try_from_raw astra_mac F raw = Ok cfg \<Longrightarrow> validate_mac astra_mac (rc_mac raw) = Ok (vf_mac cfg)"
  by (auto simp: try_from_raw_def result_simps)

lemma demo_config_host: "hi_sources (vf_host_identity demo_config) = [MachineId]" "hi_override_value (vf_host_identity demo_config) = None"
  using try_from_raw_host [OF demo_config_Ok, symmetric]
  by (simp_all add: demo_raw_def validate_host_identity_def source_from_str_def)

lemma demo_config_mac: "mp_cert_integrity (vf_mac demo_config) = CertOptional" "mp_runtime (vf_mac demo_config) = ModeAuto"
  using try_from_raw_mac [OF demo_config_Ok, symmetric]
  by (simp_all add: demo_raw_def validate_mac_def Let_def unwrap_or_def ensure_def)

lemma try_from_raw_monitor:
  "try_from_raw astra_mac F raw = Ok cfg \<Longrightarrow>
   validate_monitor raw (rc_monitor raw) (rc_monitor_fail_mode raw) = Ok (vf_monitor cfg)"
  by (auto simp: try_from_raw_def result_simps)

end
