(* ===== verification/Host_Identity.thy ===== *)
theory Host_Identity
  imports Config
begin

text \<open>
  The identity of the machine: the sources it can be read from (\<open>host_identity/*.rs\<close>), the
  resolver that takes the first one that works (\<open>chain.rs\<close>) and the entry point of the PAM module
  (\<open>resolve_host_identity\<close> in \<open>pam_certauth/src/lib.rs\<close>).

  The files, the run of the custom command, and the two functions of the standard library that
  need Unicode tables (lower case and lossy decoding) are parameters. A command that never closes
  its output keeps the caller waiting; this is the value \<open>None\<close>.
\<close>

section \<open>Sources\<close>

datatype host_identity_error =
    HidRead string string
  | HidEmpty host_id_source_kind
  | HidAllSourcesFailed "(host_id_source_kind \<times> attempt) list"
  | HidCommandFailed string "int option"
  | HidCommandTimeout
and attempt = FetchFailed host_identity_error | EmptyAfterNormalization

text \<open>What one poll of the child shows; \<open>Running\<close> is followed by a look at the clock.\<close>

datatype child_poll = Exited "int option" | Running int | TryWaitFailed string

record command_run =
  cr_spawn :: "(string, unit) result"
  cr_started :: int
  cr_polls :: "child_poll list"
  cr_stdout :: "bytes option"
  cr_stderr :: "bytes option"

record host_sys =
  hs_read :: "string \<Rightarrow> (string, string) result"
  hs_run :: "string \<Rightarrow> command_run"
  hs_lower :: "string \<Rightarrow> string"
  hs_lossy :: "bytes \<Rightarrow> string"

definition read_source :: "host_sys \<Rightarrow> string \<Rightarrow> (host_identity_error, string) result" where
  "read_source S path = map_err (HidRead path) (hs_read S path)"

definition machine_id_fetch :: "host_sys \<Rightarrow> string \<Rightarrow> (host_identity_error, string) result" where
  "machine_id_fetch S fs_root =
     and_then (read_source S (path_join fs_root ''etc/machine-id'')) (\<lambda>raw. Ok (trim raw))"

definition non_empty_fetch ::
  "host_sys \<Rightarrow> host_id_source_kind \<Rightarrow> string \<Rightarrow> (host_identity_error, string) result" where
  "non_empty_fetch S kind path =
     and_then (read_source S path) (\<lambda>raw.
       if trim raw = [] then Err (HidEmpty kind) else Ok (trim raw))"

definition dmi_fetch ::
  "host_sys \<Rightarrow> host_id_source_kind \<Rightarrow> string \<Rightarrow> string \<Rightarrow> (host_identity_error, string) result" where
  "dmi_fetch S kind file fs_root =
     non_empty_fetch S kind (path_join (path_join fs_root ''sys/class/dmi/id'') file)"

definition hostname_fetch :: "host_sys \<Rightarrow> string \<Rightarrow> (host_identity_error, string) result" where
  "hostname_fetch S fs_root = non_empty_fetch S Hostname (path_join fs_root ''etc/hostname'')"

text \<open>
  The wait for the custom command with its deadline: the exit code, or the error after the child was
  killed. \<open>None\<close>: the polls are used up, the child still runs before its deadline.
\<close>

fun wait_command ::
  "string \<Rightarrow> int \<Rightarrow> child_poll list \<Rightarrow> (host_identity_error, int option) result option" where
  "wait_command cmd deadline [] = None"
| "wait_command cmd deadline (Exited code # ps) = Some (Ok code)"
| "wait_command cmd deadline (Running now # ps) =
     (if now \<ge> deadline then Some (Err HidCommandTimeout) else wait_command cmd deadline ps)"
| "wait_command cmd deadline (TryWaitFailed e # ps) = Some (Err (HidRead cmd e))"

text \<open>On a timeout and after the exit both reader threads are joined, so both pipes must have closed.\<close>

definition custom_command_fetch ::
  "host_sys \<Rightarrow> string \<Rightarrow> nat \<Rightarrow> (host_identity_error, string) result option" where
  "custom_command_fetch S cmd timeout =
     (let R = hs_run S cmd in
      case cr_spawn R of
        Inl e \<Rightarrow> Some (Err (HidRead cmd e))
      | Inr _ \<Rightarrow>
          (case wait_command cmd (cr_started R + int timeout) (cr_polls R) of
             None \<Rightarrow> None
           | Some (Inl (HidRead p e)) \<Rightarrow> Some (Err (HidRead p e))
           | Some r \<Rightarrow>
               (case (cr_stdout R, cr_stderr R) of
                  (Some out, Some err) \<Rightarrow>
                    Some (and_then r (\<lambda>code.
                      if code = Some 0 then Ok (trim (hs_lossy S out))
                      else Err (HidCommandFailed (trim (hs_lossy S err)) code)))
                | _ \<Rightarrow> None)))"

section \<open>The resolver\<close>

record resolved_host_id =
  rh_source_kind :: host_id_source_kind
  rh_raw :: string
  rh_normalized :: string
  rh_hash_hex :: string

type_synonym host_source = "host_id_source_kind \<times> (host_identity_error, string) result option"

definition source_of :: "host_sys \<Rightarrow> host_identity_section \<Rightarrow> string \<Rightarrow> host_id_source_kind \<Rightarrow> host_source list" where
  "source_of S cfg fs_root kind =
     (case kind of
        MachineId \<Rightarrow> [(kind, Some (machine_id_fetch S fs_root))]
      | DmiBoardSerial \<Rightarrow> [(kind, Some (dmi_fetch S kind ''board_serial'' fs_root))]
      | DmiSystemUuid \<Rightarrow> [(kind, Some (dmi_fetch S kind ''product_uuid'' fs_root))]
      | DmiSystemSerial \<Rightarrow> [(kind, Some (dmi_fetch S kind ''product_serial'' fs_root))]
      | Hostname \<Rightarrow> [(kind, Some (hostname_fetch S fs_root))]
      | CustomCommand \<Rightarrow>
          (case hi_custom_command cfg of
             Some cmd \<Rightarrow> [(kind, custom_command_fetch S cmd (hi_custom_command_timeout cfg))]
           | None \<Rightarrow> [])
      | Override \<Rightarrow> [])"

definition from_validated :: "host_sys \<Rightarrow> host_identity_section \<Rightarrow> string \<Rightarrow> host_source list" where
  "from_validated S cfg fs_root = concat (map (source_of S cfg fs_root) (hi_sources cfg))"

definition normalize_host_id :: "host_sys \<Rightarrow> string \<Rightarrow> string" where
  "normalize_host_id S input = hs_lower S (filter (\<lambda>c. c \<noteq> CHR '':'' \<and> c \<noteq> CHR '' '') (trim input))"

definition resolved :: "crypto \<Rightarrow> host_id_source_kind \<Rightarrow> string \<Rightarrow> string \<Rightarrow> resolved_host_id" where
  "resolved C kind raw normalized =
     \<lparr>rh_source_kind = kind, rh_raw = raw, rh_normalized = normalized, rh_hash_hex = sha256_hex C normalized\<rparr>"

definition probe :: "crypto \<Rightarrow> host_sys \<Rightarrow> host_id_source_kind \<Rightarrow> (host_identity_error, string) result \<Rightarrow>
    (attempt, resolved_host_id) result" where
  "probe C S kind fetched =
     and_then (map_err FetchFailed fetched) (\<lambda>raw.
       let normalized = normalize_host_id S raw in
       if normalized = [] then Err EmptyAfterNormalization else Ok (resolved C kind raw normalized))"

text \<open>\<open>probe_all\<close>: the outcome of every source, for the log.\<close>

fun probe_all ::
  "crypto \<Rightarrow> host_sys \<Rightarrow> host_source list \<Rightarrow>
   (host_id_source_kind \<times> (attempt, resolved_host_id) result) list option" where
  "probe_all C S [] = Some []"
| "probe_all C S ((kind, fetched) # rest) =
     (case (fetched, probe_all C S rest) of
        (Some r, Some out) \<Rightarrow> Some ((kind, probe C S kind r) # out)
      | _ \<Rightarrow> None)"

definition fallback_id ::
  "crypto \<Rightarrow> host_id_fallback \<Rightarrow> (host_id_source_kind \<times> attempt) list \<Rightarrow>
   (host_identity_error, resolved_host_id) result" where
  "fallback_id C fallback attempts =
     (case fallback of
        FbDeny \<Rightarrow> Err (HidAllSourcesFailed attempts)
      | _ \<Rightarrow> Ok (resolved C Override ''unknown'' ''unknown''))"

fun resolve_sources ::
  "crypto \<Rightarrow> host_sys \<Rightarrow> host_id_fallback \<Rightarrow> (host_id_source_kind \<times> attempt) list \<Rightarrow> host_source list \<Rightarrow>
   (host_identity_error, resolved_host_id) result option" where
  "resolve_sources C S fallback attempts [] = Some (fallback_id C fallback attempts)"
| "resolve_sources C S fallback attempts ((kind, fetched) # rest) =
     (case fetched of
        None \<Rightarrow> None
      | Some r \<Rightarrow>
          (case probe C S kind r of
             Inr found \<Rightarrow> Some (Ok found)
           | Inl e \<Rightarrow> resolve_sources C S fallback (attempts @ [(kind, e)]) rest))"

definition hash_tuple :: "crypto \<Rightarrow> host_sys \<Rightarrow> host_id_source_kind \<Rightarrow> string \<Rightarrow> host_id_source_kind \<times> string \<times> string" where
  "hash_tuple C S kind raw = (kind, raw, sha256_hex C (normalize_host_id S raw))"

definition resolve_host_identity ::
  "crypto \<Rightarrow> host_sys \<Rightarrow> host_identity_section \<Rightarrow>
   (host_identity_error, host_id_source_kind \<times> string \<times> string) result option" where
  "resolve_host_identity C S cfg =
     (case (Override \<in> set (hi_sources cfg), hi_override_value cfg) of
        (True, Some raw) \<Rightarrow> Some (Ok (hash_tuple C S Override raw))
      | _ \<Rightarrow>
          (let chain = from_validated S cfg ''/'' in
           case probe_all C S chain of
             None \<Rightarrow> None
           | Some _ \<Rightarrow>
               map_option (\<lambda>r. and_then r (\<lambda>found. Ok (rh_source_kind found, rh_raw found, rh_hash_hex found)))
                 (resolve_sources C S (hi_fallback cfg) [] chain)))"

section \<open>The first source that works is taken\<close>

text \<open>A source that answered without a usable value.\<close>

definition source_failed :: "crypto \<Rightarrow> host_sys \<Rightarrow> host_source \<Rightarrow> bool" where
  "source_failed C S = (\<lambda>(kind, fetched).
     case fetched of None \<Rightarrow> False | Some r \<Rightarrow> is_err (probe C S kind r))"

lemma probe_Ok:
  "probe C S kind r = Ok found \<longleftrightarrow>
     (\<exists>raw. r = Ok raw \<and> normalize_host_id S raw \<noteq> [] \<and> found = resolved C kind raw (normalize_host_id S raw))"
  by (auto simp: probe_def result_simps Let_def split: if_splits)

lemma resolve_sources_Ok:
  "resolve_sources C S fb att ss = Some (Ok found) \<Longrightarrow>
   (\<exists>ys kind raw zs. ss = ys @ (kind, Some (Ok raw)) # zs \<and> list_all (source_failed C S) ys \<and>
      normalize_host_id S raw \<noteq> [] \<and> found = resolved C kind raw (normalize_host_id S raw))
   \<or> (list_all (source_failed C S) ss \<and> fb \<noteq> FbDeny \<and> found = resolved C Override ''unknown'' ''unknown'')"
proof (induction C S fb att ss rule: resolve_sources.induct)
  case (1 C S fb att)
  then show ?case by (auto simp: fallback_id_def split: host_id_fallback.splits)
next
  case (2 C S fb att kind fetched rest)
  then obtain r where r: "fetched = Some r" by (auto split: option.splits)
  show ?case
  proof (cases "probe C S kind r")
    case (Inr f)
    with 2 r have "f = found" by simp
    with Inr r show ?thesis by (auto simp: probe_Ok intro!: disjI1 exI [of _ "[]"])
  next
    case (Inl e)
    then have sf: "source_failed C S (kind, fetched)" by (simp add: source_failed_def r)
    have "resolve_sources C S fb (att @ [(kind, e)]) rest = Some (Ok found)" using 2 r Inl by simp
    from 2(1) [OF r Inl this] show ?thesis
    proof
      assume "\<exists>ys kind raw zs. rest = ys @ (kind, Some (Ok raw)) # zs \<and> list_all (source_failed C S) ys \<and>
        normalize_host_id S raw \<noteq> [] \<and> found = resolved C kind raw (normalize_host_id S raw)"
      then obtain ys k raw zs where
        y: "rest = ys @ (k, Some (Ok raw)) # zs" "list_all (source_failed C S) ys" "normalize_host_id S raw \<noteq> []"
          "found = resolved C k raw (normalize_host_id S raw)" by blast
      then have "(kind, fetched) # rest = ((kind, fetched) # ys) @ (k, Some (Ok raw)) # zs"
        "list_all (source_failed C S) ((kind, fetched) # ys)" using sf by simp_all
      with y show ?thesis by blast
    qed (use sf in simp)
  qed
qed

lemma resolve_sources_Err:
  "resolve_sources C S fb att ss = Some (Err e) \<Longrightarrow> fb = FbDeny \<and> list_all (source_failed C S) ss"
  by (induction C S fb att ss rule: resolve_sources.induct)
    (auto simp: fallback_id_def source_failed_def split: host_id_fallback.splits option.splits sum.splits)

text \<open>
  C36. The machine is identified by the first source that works. An identity comes from the
  override where it is configured, or else from the first configured source with a usable value,
  every source before it having failed, or from the fallback when all of them failed and the
  fallback is not to deny; its hash is that of the normalised value. A refusal means that the
  fallback is to deny and no source worked.
\<close>

theorem host_identity_first_working:
  assumes "resolve_host_identity C S cfg = Some r"
  shows "case r of
      Inl _ \<Rightarrow> hi_fallback cfg = FbDeny \<and> list_all (source_failed C S) (from_validated S cfg ''/'')
    | Inr (kind, raw, hash) \<Rightarrow>
        (kind = Override \<and> Override \<in> set (hi_sources cfg) \<and> hi_override_value cfg = Some raw
          \<and> hash = sha256_hex C (normalize_host_id S raw))
      \<or> (\<exists>ys zs. from_validated S cfg ''/'' = ys @ (kind, Some (Ok raw)) # zs \<and> list_all (source_failed C S) ys
          \<and> normalize_host_id S raw \<noteq> [] \<and> hash = sha256_hex C (normalize_host_id S raw))
      \<or> (hi_fallback cfg \<noteq> FbDeny \<and> list_all (source_failed C S) (from_validated S cfg ''/'')
          \<and> (kind, raw, hash) = (Override, ''unknown'', sha256_hex C ''unknown''))"
proof (cases "Override \<in> set (hi_sources cfg) \<and> hi_override_value cfg \<noteq> None")
  case True
  with assms show ?thesis by (auto simp: resolve_host_identity_def hash_tuple_def)
next
  case False
  with assms obtain q where q: "resolve_sources C S (hi_fallback cfg) [] (from_validated S cfg ''/'') = Some q"
    "r = and_then q (\<lambda>found. Ok (rh_source_kind found, rh_raw found, rh_hash_hex found))"
    by (auto simp: resolve_host_identity_def Let_def split: bool.splits option.splits)
  show ?thesis
  proof (cases q)
    case (Inl e)
    with q resolve_sources_Err show ?thesis by fastforce
  next
    case (Inr found)
    have "r = Ok (rh_source_kind found, rh_raw found, rh_hash_hex found)" using q(2) Inr by simp
    moreover note resolve_sources_Ok [OF q(1) [unfolded Inr]]
    ultimately show ?thesis
      by (elim disjE exE conjE) (simp add: resolved_def, blast, simp add: resolved_def)
  qed
qed

definition demo_host :: host_sys where
  "demo_host = \<lparr>hs_read = (\<lambda>p. if p = ''/etc/hostname'' then Ok ''Box 1'' else Err ''ENOENT''),
     hs_run = (\<lambda>_. \<lparr>cr_spawn = Err ''ENOENT'', cr_started = 0, cr_polls = [], cr_stdout = None, cr_stderr = None\<rparr>),
     hs_lower = to_ascii_lowercase, hs_lossy = str_of_bytes\<rparr>"

definition demo_section :: "host_id_fallback \<Rightarrow> host_identity_section" where
  "demo_section fb = \<lparr>hi_sources = [MachineId, Hostname], hi_fallback = fb, hi_override_value = None,
     hi_custom_command = None, hi_custom_command_timeout = 5\<rparr>"

lemma demo_host_facts:
  "machine_id_fetch demo_host ''/'' = Err (HidRead ''/etc/machine-id'' ''ENOENT'')"
  "hostname_fetch demo_host ''/'' = Ok ''Box 1''"
  "normalize_host_id demo_host ''Box 1'' = ''box1''"
proof -
  have t: "trim ''Box 1'' = ''Box 1''" by (rule trim_id) (simp_all add: ascii_graphic_def)
  have l: "to_ascii_lowercase ''Box1'' = ''box1''" by code_simp
  show "machine_id_fetch demo_host ''/'' = Err (HidRead ''/etc/machine-id'' ''ENOENT'')"
    "hostname_fetch demo_host ''/'' = Ok ''Box 1''"
    by (simp_all add: machine_id_fetch_def hostname_fetch_def non_empty_fetch_def read_source_def path_join_def
        demo_host_def t)
  show "normalize_host_id demo_host ''Box 1'' = ''box1''"
    by (simp add: normalize_host_id_def demo_host_def t l)
qed

lemma demo_section_resolves:
  "resolve_host_identity C demo_host (demo_section FbDeny) = Some (Ok (Hostname, ''Box 1'', sha256_hex C ''box1''))"
  by (simp add: resolve_host_identity_def demo_section_def from_validated_def source_of_def Let_def probe_def
      resolved_def demo_host_facts)

theorem host_identity_first_working_witness:
  "resolve_host_identity demo_crypto demo_host (demo_section FbDeny)
     = Some (Ok (Hostname, ''Box 1'', sha256_hex demo_crypto ''box1''))
   \<and> (\<exists>ys zs. from_validated demo_host (demo_section FbDeny) ''/'' = ys @ (Hostname, Some (Ok ''Box 1'')) # zs
        \<and> list_all (source_failed demo_crypto demo_host) ys)"
  using host_identity_first_working [OF demo_section_resolves [of demo_crypto]]
    demo_section_resolves [of demo_crypto]
  by (auto simp: demo_section_def)
lemma resolve_sources_failed:
  "list_all (source_failed C S) ss \<Longrightarrow> \<exists>att'. resolve_sources C S fb att ss = Some (fallback_id C fb att')"
  by (induction C S fb att ss rule: resolve_sources.induct)
    (auto simp: source_failed_def split: option.splits sum.splits)

lemma probe_all_failed: "list_all (source_failed C S) ss \<Longrightarrow> probe_all C S ss \<noteq> None"
  by (induction C S ss rule: probe_all.induct) (auto simp: source_failed_def split: option.splits)

text \<open>
  Machines that cannot be identified are all the same machine unless the fallback is to deny:
  whatever their sources, two of them have one hash, and a certificate bound to the host name
  \<open>unknown\<close> is accepted on each of them.
\<close>

theorem unidentified_hosts_alike:
  assumes "\<not> (Override \<in> set (hi_sources cfg) \<and> hi_override_value cfg \<noteq> None)"
    and "hi_fallback cfg \<noteq> FbDeny"
    and "list_all (source_failed C S) (from_validated S cfg ''/'')"
    and "host_binding_parse C cert = Ok ds" and "Raw ''unknown'' \<in> set ds"
  shows "\<exists>hash. resolve_host_identity C S cfg = Some (Ok (Override, ''unknown'', hash))
    \<and> verify_host_binding C cert hash = Ok ()"
proof -
  obtain att where "resolve_sources C S (hi_fallback cfg) [] (from_validated S cfg ''/'') =
      Some (fallback_id C (hi_fallback cfg) att)"
    using resolve_sources_failed [OF assms(3)] by blast
  moreover have "fallback_id C (hi_fallback cfg) att = Ok (resolved C Override ''unknown'' ''unknown'')"
    using assms(2) by (cases "hi_fallback cfg") (simp_all add: fallback_id_def)
  ultimately have "resolve_host_identity C S cfg = Some (Ok (Override, ''unknown'', sha256_hex C ''unknown''))"
    using assms(1) probe_all_failed [OF assms(3)]
    by (auto simp: resolve_host_identity_def resolved_def Let_def split: bool.splits option.splits)
  moreover have "list_ex (host_descriptor_matches C (sha256_hex C ''unknown'')) ds"
    using assms(5) by (auto simp: list_ex_iff eq_ignore_ascii_case_def intro!: bexI [of _ "Raw ''unknown''"])
  ultimately show ?thesis using assms(4) by (simp add: verify_host_binding_def)
qed

text \<open>
  The deadline of the custom command bounds the command and not the wait: once the deadline
  passed, the call returns exactly if both output pipes have been closed, which a process started by
  the command can put off for ever.
\<close>

theorem custom_command_deadline:
  assumes "cr_spawn (hs_run S cmd) = Ok ()"
    and "wait_command cmd (cr_started (hs_run S cmd) + int timeout) (cr_polls (hs_run S cmd)) = Some (Err HidCommandTimeout)"
  shows "custom_command_fetch S cmd timeout =
    (if cr_stdout (hs_run S cmd) \<noteq> None \<and> cr_stderr (hs_run S cmd) \<noteq> None
     then Some (Err HidCommandTimeout) else None)"
  using assms by (auto simp: custom_command_fetch_def Let_def split: option.splits)


definition demo_unknown_cert :: x509 where
  "demo_unknown_cert = demo_x509 (encode_cert demo_fields (demo_exts [''unknown''] [''*'']) [])"

lemma demo_unknown_parse: "host_binding_parse demo_crypto demo_unknown_cert = Ok [Raw ''unknown'']"
proof -
  let ?exts = "demo_exts [''unknown''] [''*'']"
  have "scoped_cert demo_crypto demo_unknown_cert demo_fields ?exts []"
    unfolding scoped_cert_def demo_unknown_cert_def by (intro conjI small_encoding) code_simp+
  moreover have "ext_strings demo_crypto ?exts HOST_BINDING_OID [''unknown'']"
    unfolding ext_strings_def by (intro conjI exI [of _ "[0x69, 1]"] small_encoding) code_simp+
  moreover have "classify ''unknown'' = Ok (Raw ''unknown'')" by code_simp
  ultimately show ?thesis using host_binding_parse_encode by fastforce
qed

theorem unidentified_hosts_alike_witness:
  "\<exists>hash. resolve_host_identity demo_crypto demo_host (demo_section FbWarn \<lparr>hi_sources := [MachineId]\<rparr>)
       = Some (Ok (Override, ''unknown'', hash))
     \<and> verify_host_binding demo_crypto demo_unknown_cert hash = Ok ()"
  by (rule unidentified_hosts_alike [OF _ _ _ demo_unknown_parse])
    (simp_all add: demo_section_def from_validated_def source_of_def source_failed_def probe_def demo_host_facts)

definition demo_stuck_host :: host_sys where
  "demo_stuck_host = demo_host \<lparr>hs_run := (\<lambda>_. \<lparr>cr_spawn = Ok (), cr_started = 0,
     cr_polls = [Running 3, Running 6], cr_stdout = None, cr_stderr = Some []\<rparr>)\<rparr>"

theorem custom_command_deadline_witness:
  "custom_command_fetch demo_stuck_host ''/usr/bin/id-of-box'' 5 = None"
  by (subst custom_command_deadline) (simp_all add: demo_stuck_host_def)

end
