(* ===== verification/Wiring.thy ===== *)
theory Wiring
  imports Host_Identity Token
begin

text \<open>
  From a validated configuration to the collaborators of the authentication: the structural checks
  (\<open>pam_certauth_core/src/self_check.rs\<close>) and the wiring of the verifier and the monitor client
  (\<open>pam_certauth/src/di.rs\<close>). Reading a file, decoding hexadecimal text (the \<open>hex\<close> crate) and a
  panic inside the PKCS\#11 library are parameters.
\<close>

section \<open>Self check\<close>

text \<open>The problems with the module are values where the code formats them.\<close>

datatype module_problem =
    ModuleNotSet
  | ModuleNotThere string
  | ModuleUnreadable string string
  | ModuleNotRegular string
  | ModuleNotLoaded string pkcs11_error
  | ModuleLoadPanicked string string

datatype self_check_error =
    AnchorUnreadable string
  | AnchorNotPem string
  | CrlUnreadable string
  | CrlNotPem string
  | GostEngineUnavailable gost_engine_error
  | HookCommandMissing hook_stage string
  | Pkcs11ModuleMissing module_problem
  | Pkcs11NoToken
  | SelfCheckPanicked

definition path_exists :: "config_fs \<Rightarrow> string \<Rightarrow> bool" where
  "path_exists F path = is_ok (cs_metadata F path)"

definition check_pem ::
  "config_fs \<Rightarrow> string \<Rightarrow> (string \<Rightarrow> self_check_error) \<Rightarrow> (string \<Rightarrow> self_check_error) \<Rightarrow> string \<Rightarrow>
   (self_check_error, unit) result" where
  "check_pem F marker unreadable not_pem path =
     and_then (ok_or (unreadable path) (cs_read_to_string F path)) (\<lambda>text.
       ensure (str_contains marker text) (not_pem path))"

text \<open>Indexing the first word of a command panics when the command is empty.\<close>

definition check_hook :: "config_fs \<Rightarrow> hook_config \<Rightarrow> (self_check_error, unit) result" where
  "check_hook F hook =
     (case hc_command hook of
        [] \<Rightarrow> Err SelfCheckPanicked
      | path # _ \<Rightarrow> ensure (path_exists F path) (HookCommandMissing (hc_stage hook) path))"

text \<open>
  \<open>panics path\<close> is the payload when loading the library panics, \<open>None\<close> when it does not; a payload
  that is no text is \<open>Some None\<close>. The list of slots is only logged.
\<close>

definition self_check_pkcs11 ::
  "config_fs \<Rightarrow> provider \<Rightarrow> (string \<Rightarrow> string option option) \<Rightarrow> validated_config \<Rightarrow>
   (self_check_error, unit) result" where
  "self_check_pkcs11 F P panics cfg =
     and_then (ok_or (Pkcs11ModuleMissing ModuleNotSet) (vf_pkcs11_module cfg)) (\<lambda>path.
     and_then (ensure (path_exists F path) (Pkcs11ModuleMissing (ModuleNotThere path))) (\<lambda>_.
     and_then (map_err (\<lambda>source. Pkcs11ModuleMissing (ModuleUnreadable path source)) (cs_metadata F path)) (\<lambda>is_file.
     and_then (ensure is_file (Pkcs11ModuleMissing (ModuleNotRegular path))) (\<lambda>_.
     case panics path of
       Some payload \<Rightarrow>
         Err (Pkcs11ModuleMissing (ModuleLoadPanicked path
           (case payload of Some msg \<Rightarrow> msg | None \<Rightarrow> ''(non-string panic payload)'')))
     | None \<Rightarrow> map_err (\<lambda>e. Pkcs11ModuleMissing (ModuleNotLoaded path e)) (backend_load P path)))))"

definition gost_ready ::
  "gost_sys \<Rightarrow> sig_lib \<Rightarrow> string option \<Rightarrow> engine_lock \<Rightarrow> (self_check_error, unit) result \<times> engine_lock" where
  "gost_ready G S path lock =
     (case ensure_loaded_with_path G path lock of (loaded, lock') \<Rightarrow>
        (map_err GostEngineUnavailable
           (and_then loaded (\<lambda>_.
            and_then (gost_2012_256_md S lock') (\<lambda>_.
            and_then (gost_2012_512_md S lock') (\<lambda>_. Ok ())))), lock'))"

definition self_check ::
  "config_fs \<Rightarrow> provider \<Rightarrow> (string \<Rightarrow> string option option) \<Rightarrow> gost_sys \<Rightarrow> sig_lib \<Rightarrow> validated_config \<Rightarrow>
   engine_lock \<Rightarrow> (self_check_error, unit) result \<times> engine_lock" where
  "self_check F P panics G S cfg lock =
     (case and_then (try_each (check_pem F ''-----BEGIN CERTIFICATE-----'' AnchorUnreadable AnchorNotPem)
                       (ts_anchors (vf_trust cfg))) (\<lambda>_.
           and_then (if ts_revocation_mode (vf_trust cfg) = RevCrl
                     then try_each (check_pem F ''-----BEGIN X509 CRL-----'' CrlUnreadable CrlNotPem)
                            (ts_crl_paths (vf_trust cfg))
                     else Ok ()) (\<lambda>_.
           and_then (try_each (check_hook F) (vf_hooks cfg)) (\<lambda>_.
           if vf_mode cfg = Pkcs11Mode then self_check_pkcs11 F P panics cfg else Ok ()))) of
        Inl e \<Rightarrow> (Err e, lock)
      | Inr _ \<Rightarrow>
          if needs_gost cfg then gost_ready G S (vf_gost_engine_path cfg) lock else (Ok (), lock))"

section \<open>Wiring\<close>

datatype wiring_error = WireIo string | WireTrust trust_error | PinDecode string

record wired =
  wd_cfg :: validated_config
  wd_trust :: openssl_verifier
  wd_socket_path :: string
  wd_timeout_ms :: nat
  wd_fail_mode :: monitor_fail_mode

definition decode_spki_pin :: "(string \<Rightarrow> bytes option) \<Rightarrow> string \<Rightarrow> (wiring_error, bytes) result" where
  "decode_spki_pin hex_decode entry =
     and_then (ok_or (PinDecode entry) (hex_decode entry)) (\<lambda>bytes.
       if length bytes = 32 then Ok bytes else Err (PinDecode entry))"

definition decode_spki_pins :: "(string \<Rightarrow> bytes option) \<Rightarrow> string list \<Rightarrow> (wiring_error, bytes list) result" where
  "decode_spki_pins hex_decode hex_entries = try_map (decode_spki_pin hex_decode) hex_entries"

definition read_cert ::
  "crypto \<Rightarrow> (string \<Rightarrow> (string, bytes) result) \<Rightarrow> string \<Rightarrow> (wiring_error, certificate) result" where
  "read_cert C read path =
     and_then (map_err WireIo (read path)) (\<lambda>bytes. map_err WireTrust (certificate_from_pem C bytes))"

definition wire ::
  "crypto \<Rightarrow> (string \<Rightarrow> (string, bytes) result) \<Rightarrow> (string \<Rightarrow> bytes option) \<Rightarrow> validated_config \<Rightarrow>
   (wiring_error, wired) result" where
  "wire C read hex_decode cfg =
     (let t = vf_trust cfg in
      and_then (try_map (read_cert C read) (ts_anchors t)) (\<lambda>anchors.
      and_then (try_map (read_cert C read) (ts_intermediates t)) (\<lambda>intermediates.
      and_then (try_map (\<lambda>path. map_err WireIo (read path)) (ts_crl_paths t)) (\<lambda>crl_pems.
      and_then (if ts_pinning_enabled t then decode_spki_pins hex_decode (ts_allowed_root_spki_sha256 t)
                else Ok []) (\<lambda>spki_pins.
      and_then (map_err WireTrust (openssl_verifier_new C
        \<lparr>vc_anchors = anchors, vc_intermediates = intermediates, vc_crl_pems = crl_pems,
         vc_crl_strict = (ts_revocation_mode t = RevCrl \<or> ts_revocation_mode t = RevCrlThenOcsp),
         vc_clock_skew = uint (ts_clock_skew_seconds t),
         vc_signature_alg_whitelist = ts_allowed_signature_algorithms t, vc_spki_pins = spki_pins,
         vc_max_depth = unat (ts_max_chain_depth t), vc_gost_engine_path = vf_gost_engine_path cfg\<rparr>)) (\<lambda>verifier.
      Ok \<lparr>wd_cfg = cfg, wd_trust = verifier, wd_socket_path = mn_socket_path (vf_monitor cfg),
          wd_timeout_ms = mn_timeout_ms (vf_monitor cfg), wd_fail_mode = mn_fail_mode (vf_monitor cfg)\<rparr>))))))"

section \<open>What a passed self check means\<close>

lemma ensure_loaded_available:
  "ensure_loaded_with_path G path lock = (Ok u, lock') \<Longrightarrow> engine_is_available lock'"
  by (auto simp: ensure_loaded_with_path_def engine_is_available_def Let_def split: sum.splits)

lemma check_pem_Ok [result_simps]:
  "(check_pem F marker u n path = Ok x) =
     (\<exists>text. cs_read_to_string F path = Some text \<and> str_contains marker text)"
  by (auto simp: check_pem_def result_simps)

lemma check_hook_Ok [result_simps]:
  "(check_hook F h = Ok x) = (hc_command h \<noteq> [] \<and> path_exists F (hd (hc_command h)))"
  by (auto simp: check_hook_def result_simps split: list.splits)

lemma self_check_pkcs11_Ok:
  "self_check_pkcs11 F P panics cfg = Ok u \<Longrightarrow>
   \<exists>path. vf_pkcs11_module cfg = Some path \<and> cs_metadata F path = Ok True \<and> panics path = None
     \<and> backend_load P path = Ok ()"
  by (auto simp: self_check_pkcs11_def result_simps split: option.splits)

lemma try_each_failed: "try_each f xs = Err e \<Longrightarrow> \<exists>x\<in>set xs. f x = Err e"
  by (drule try_each_Err) auto

lemma self_check_steps_no_panic:
  "check_pem F marker AnchorUnreadable AnchorNotPem p \<noteq> Err SelfCheckPanicked"
  "check_pem F marker CrlUnreadable CrlNotPem p \<noteq> Err SelfCheckPanicked"
  "hc_command h \<noteq> [] \<Longrightarrow> check_hook F h \<noteq> Err SelfCheckPanicked"
  "self_check_pkcs11 F P panics cfg \<noteq> Err SelfCheckPanicked"
  "fst (gost_ready G S path lock) \<noteq> Err SelfCheckPanicked"
  by (auto simp: check_pem_def check_hook_def self_check_pkcs11_def gost_ready_def and_then_def map_err_def
      ok_or_def ensure_def split: sum.splits option.splits list.splits if_splits prod.splits)

text \<open>What the checks establish before the first authentication.\<close>

definition ready :: "config_fs \<Rightarrow> provider \<Rightarrow> validated_config \<Rightarrow> engine_lock \<Rightarrow> bool" where
  "ready F P cfg lock \<longleftrightarrow>
     (\<forall>path\<in>set (ts_anchors (vf_trust cfg)).
        \<exists>text. cs_read_to_string F path = Some text \<and> str_contains ''-----BEGIN CERTIFICATE-----'' text) \<and>
     (ts_revocation_mode (vf_trust cfg) = RevCrl \<longrightarrow> (\<forall>path\<in>set (ts_crl_paths (vf_trust cfg)).
        \<exists>text. cs_read_to_string F path = Some text \<and> str_contains ''-----BEGIN X509 CRL-----'' text)) \<and>
     (\<forall>h\<in>set (vf_hooks cfg). hc_command h \<noteq> [] \<and> path_exists F (hd (hc_command h))) \<and>
     (vf_mode cfg = Pkcs11Mode \<longrightarrow> (\<exists>path. vf_pkcs11_module cfg = Some path \<and> cs_metadata F path = Ok True
        \<and> backend_load P path = Ok ())) \<and>
     (needs_gost cfg \<longrightarrow> engine_is_available lock)"

lemma self_check_Ok:
  assumes "self_check F P panics G S cfg lock = (Ok u, lock')"
  shows "ready F P cfg lock'"
proof -
  let ?t = "vf_trust cfg"
  from assms have a: "try_each (check_pem F ''-----BEGIN CERTIFICATE-----'' AnchorUnreadable AnchorNotPem) (ts_anchors ?t) = Ok ()"
    and c: "ts_revocation_mode ?t = RevCrl \<Longrightarrow>
      try_each (check_pem F ''-----BEGIN X509 CRL-----'' CrlUnreadable CrlNotPem) (ts_crl_paths ?t) = Ok ()"
    and h: "try_each (check_hook F) (vf_hooks cfg) = Ok ()"
    and p: "vf_mode cfg = Pkcs11Mode \<Longrightarrow> self_check_pkcs11 F P panics cfg = Ok ()"
    and g: "needs_gost cfg \<Longrightarrow> gost_ready G S (vf_gost_engine_path cfg) lock = (Ok u, lock')"
    by (auto simp: self_check_def result_simps split: sum.splits if_splits)
  have "engine_is_available lock'" if "needs_gost cfg"
    using g [OF that] ensure_loaded_available
    by (auto simp: gost_ready_def result_simps split: prod.splits)
  moreover have "\<exists>path. vf_pkcs11_module cfg = Some path \<and> cs_metadata F path = Ok True \<and> backend_load P path = Ok ()"
    if "vf_mode cfg = Pkcs11Mode"
    using self_check_pkcs11_Ok [OF p [OF that]] by blast
  ultimately show ?thesis
    using a c h unfolding ready_def by (auto simp: result_simps try_each_Ok)
qed

text \<open>
  The self check fails closed and never aborts the process. On a validated configuration it
  returns without a panic, whatever the PKCS\#11 library does, and when it passes, every trust
  anchor and required revocation list is readable PEM text, every hook command exists, the configured
  PKCS\#11 module is a regular file that loads, and a configuration that allows GOST signatures has
  its engine.
\<close>

theorem self_check_ready:
  assumes "try_from_raw astra_mac F0 raw = Ok cfg"
    and "self_check F P panics G S cfg lock = (r, lock')"
  shows "r \<noteq> Err SelfCheckPanicked \<and> (r = Ok () \<longrightarrow> ready F P cfg lock')"
proof
  have h: "hc_command h \<noteq> []" if "h \<in> set (vf_hooks cfg)" for h
    using config_ok_of_raw [OF assms(1)] that by (simp add: config_ok_def)
  show "r \<noteq> Err SelfCheckPanicked"
  proof
    assume "r = Err SelfCheckPanicked"
    with assms(2) show False
      using self_check_steps_no_panic h
      by (auto simp: self_check_def and_then_def split: sum.splits if_splits dest!: try_each_failed) (metis fst_conv)+
  qed
  show "r = Ok () \<longrightarrow> ready F P cfg lock'" using assms(2) self_check_Ok by blast
qed

definition demo_provider :: provider where
  "demo_provider = \<lparr>pv_exists = (\<lambda>_. False), pv_load = (\<lambda>_. Err (CkError RvOther ''none'')),
     pv_initialize = Err (CkError RvOther ''none''), pv_token_label = (\<lambda>_. Err (CkError RvOther ''none'')),
     pv_token_serial = (\<lambda>_. Err (CkError RvOther ''none'')), pv_open_session = (\<lambda>_. Err (CkError RvOther ''none''))\<rparr>"

definition demo_sig_lib :: sig_lib where
  "demo_sig_lib = \<lparr>sl_fill = (\<lambda>n. Ok (replicate n 7)), sl_key_id = (\<lambda>_. IdRsa), sl_ec_curve = (\<lambda>_. Ok None),
     sl_sign = (\<lambda>_ k m. Ok (of_nat k # m)), sl_verify = (\<lambda>_ k m s. Ok (s = of_nat k # m)),
     sl_digest_from_nid = (\<lambda>_. None)\<rparr>"

lemma try_from_raw_simple:
  "try_from_raw astra_mac F raw = Ok cfg \<Longrightarrow> rc_hooks raw = [] \<Longrightarrow>
   vf_hooks cfg = [] \<and> vf_mode cfg = rc_mode raw \<and> vf_crypto_backend cfg = rc_crypto_backend raw"
  by (auto simp: try_from_raw_def result_simps)

lemma demo_config_simple: "vf_hooks demo_config = []" "vf_mode demo_config = Pkcs12Mode" "\<not> needs_gost demo_config"
  using try_from_raw_simple [OF demo_config_Ok]
  by (simp_all add: demo_raw_def needs_gost_def demo_config_trust)

lemma demo_self_check:
  "self_check demo_fs demo_provider (\<lambda>_. None) demo_gost demo_sig_lib demo_config None = (Ok (), None)"
  by (simp add: self_check_def demo_config_simple demo_config_trust check_pem_def) (simp add: demo_fs_def)

theorem self_check_ready_witness: "ready demo_fs demo_provider demo_config None"
  using self_check_ready [OF demo_config_Ok demo_self_check] by simp

section \<open>The verifier follows the configuration\<close>

lemma wire_Ok:
  assumes "wire C read hex_decode cfg = Ok w"
  obtains anchors intermediates pems crls pins where
    "try_map (read_cert C read) (ts_anchors (vf_trust cfg)) = Ok anchors"
    "try_map (read_cert C read) (ts_intermediates (vf_trust cfg)) = Ok intermediates"
    "try_map (\<lambda>path. map_err WireIo (read path)) (ts_crl_paths (vf_trust cfg)) = Ok pems"
    "crl_store_from_pems C pems = Ok crls"
    "(if ts_pinning_enabled (vf_trust cfg) then decode_spki_pins hex_decode (ts_allowed_root_spki_sha256 (vf_trust cfg))
      else Ok []) = Ok pins"
    "wd_trust w = \<lparr>ov_anchors = anchors, ov_intermediates = intermediates, ov_crl_store = crls,
       ov_crl_strict = (ts_revocation_mode (vf_trust cfg) = RevCrl \<or> ts_revocation_mode (vf_trust cfg) = RevCrlThenOcsp),
       ov_pre_cfg = \<lparr>pv_clock_skew = uint (ts_clock_skew_seconds (vf_trust cfg)),
                     pv_signature_alg_whitelist = ts_allowed_signature_algorithms (vf_trust cfg)\<rparr>,
       ov_pins = pins, ov_max_depth = unat (ts_max_chain_depth (vf_trust cfg)),
       ov_gost_engine_path = vf_gost_engine_path cfg\<rparr>"
  using assms that by (auto simp: wire_def Let_def result_simps openssl_verifier_new_def split: if_splits)

text \<open>The anchor, intermediate or pin that a configuration names, and the limits it sets.\<close>

definition configured_cert ::
  "crypto \<Rightarrow> (string \<Rightarrow> (string, bytes) result) \<Rightarrow> string list \<Rightarrow> certificate \<Rightarrow> bool" where
  "configured_cert C read paths c \<longleftrightarrow> (\<exists>path\<in>set paths. read_cert C read path = Ok c)"

definition configured_pin :: "(string \<Rightarrow> bytes option) \<Rightarrow> trust_section \<Rightarrow> bytes \<Rightarrow> bool" where
  "configured_pin hex_decode t digest \<longleftrightarrow>
     (\<exists>entry\<in>set (ts_allowed_root_spki_sha256 t). hex_decode entry = Some digest \<and> length digest = 32)"

lemma configured_certs:
  "try_map (read_cert C read) paths = Ok cs \<Longrightarrow> c \<in> set cs \<Longrightarrow> configured_cert C read paths c"
  unfolding configured_cert_def by (drule (1) try_map_mem) blast

lemma decode_spki_pins_mem:
  "decode_spki_pins hex_decode entries = Ok pins \<Longrightarrow> p \<in> set pins \<Longrightarrow>
   \<exists>entry\<in>set entries. hex_decode entry = Some p \<and> length p = 32"
  unfolding decode_spki_pins_def
  by (drule (1) try_map_mem) (auto simp: decode_spki_pin_def result_simps split: if_splits)

lemma decode_spki_pins_length: "decode_spki_pins hex_decode entries = Ok pins \<Longrightarrow> length pins = length entries"
  unfolding decode_spki_pins_def by (induction entries arbitrary: pins) (auto simp: result_simps)

lemma verify_at_steps:
  "verify_at C G v leaf presented now lock = (Ok vc, lock') \<Longrightarrow> verify_steps C v leaf presented now = Ok vc"
  by (auto simp: verify_at_def Let_def result_simps split: prod.splits)

lemma within_validity_mono: "within_validity now s c \<Longrightarrow> s \<le> s' \<Longrightarrow> within_validity now s' c"
  by (simp add: within_validity_def)



text \<open>The demonstration root is the configured anchor.\<close>

definition demo_wire_crypto :: crypto where
  "demo_wire_crypto = demo_x509_crypto \<lparr>c_x509_from_pem := (\<lambda>_. Ok (cert_inner demo_root))\<rparr>"

definition demo_wired_verifier :: openssl_verifier where
  "demo_wired_verifier =
     \<lparr>ov_anchors = [demo_root], ov_intermediates = [], ov_crl_store = [], ov_crl_strict = False,
      ov_pre_cfg = \<lparr>pv_clock_skew = 60, pv_signature_alg_whitelist = []\<rparr>,
      ov_pins = [], ov_max_depth = 5, ov_gost_engine_path = None\<rparr>"

lemma try_from_raw_no_engine:
  "try_from_raw astra_mac F raw = Ok cfg \<Longrightarrow> rc_gost_engine_path raw = None \<Longrightarrow> vf_gost_engine_path cfg = None"
  by (auto simp: try_from_raw_def result_simps validate_gost_engine_path_def)

lemma demo_wire_any:
  assumes "c_x509_from_pem C = (\<lambda>_. Ok (cert_inner demo_root))"
  shows "\<exists>w. wire C (\<lambda>_. Ok []) (\<lambda>_. None) demo_config = Ok w \<and> wd_trust w = demo_wired_verifier"
proof -
  have "read_cert C (\<lambda>_. Ok []) path = Ok demo_root" for path
    by (simp add: read_cert_def certificate_from_pem_def assms demo_root_def demo_cert_def Let_def)
  moreover have "vf_gost_engine_path demo_config = None"
    by (rule try_from_raw_no_engine [OF demo_config_Ok]) (simp add: demo_raw_def)
  ultimately show ?thesis
    by (simp add: wire_def Let_def demo_config_trust decode_spki_pins_def openssl_verifier_new_def crl_store_from_pems_def
        demo_wired_verifier_def)
qed

lemma demo_wire:
  "\<exists>w. wire demo_wire_crypto (\<lambda>_. Ok []) (\<lambda>_. None) demo_config = Ok w \<and> wd_trust w = demo_wired_verifier"
  by (rule demo_wire_any) (simp add: demo_wire_crypto_def)

lemma demo_wired_verify:
  "verify_at demo_wire_crypto demo_gost demo_wired_verifier demo_leaf [] 86400 None =
     (Ok \<lparr>vch_end_entity = demo_leaf, vch_chain = [], vch_anchor = demo_root\<rparr>, None)"
  by code_simp


text \<open>
  Pinning that is enabled with no entry pins nothing: the verifier that results accepts every
  anchor as pinned.
\<close>

theorem pinning_without_entries:
  assumes "wire C read hex_decode cfg = Ok w"
    and "ts_pinning_enabled (vf_trust cfg)" and "ts_allowed_root_spki_sha256 (vf_trust cfg) = []"
  shows "verify_pinning C anchor (ov_pins (wd_trust w)) = Ok ()"
  using assms by (auto elim!: wire_Ok simp: verify_pinning_def decode_spki_pins_def)

theorem pinning_without_entries_witness:
  "\<exists>w. wire demo_wire_crypto (\<lambda>_. Ok []) (\<lambda>_. None) demo_config = Ok w
     \<and> verify_pinning demo_wire_crypto demo_leaf (ov_pins (wd_trust w)) = Ok ()"
proof -
  obtain w where "wire demo_wire_crypto (\<lambda>_. Ok []) (\<lambda>_. None) demo_config = Ok w" using demo_wire by blast
  with pinning_without_entries [OF this] show ?thesis by (auto simp: demo_config_trust)
qed

definition with_revocation :: "revocation_mode \<Rightarrow> validated_config \<Rightarrow> validated_config" where
  "with_revocation m cfg = cfg \<lparr>vf_trust := (vf_trust cfg) \<lparr>ts_revocation_mode := m\<rparr>\<rparr>"

text \<open>
  The revocation modes that name OCSP check nothing more than the ones that do not: with
  \<open>ocsp\<close> the verifier is the one of mode \<open>none\<close>, and with \<open>crl_then_ocsp\<close> it is the one of mode \<open>crl\<close>.
\<close>

theorem ocsp_adds_nothing:
  "map_sum (\<lambda>e. e) wd_trust (wire C read hex_decode (with_revocation RevOcsp cfg))
     = map_sum (\<lambda>e. e) wd_trust (wire C read hex_decode (with_revocation RevNone cfg))
   \<and> map_sum (\<lambda>e. e) wd_trust (wire C read hex_decode (with_revocation RevCrlThenOcsp cfg))
     = map_sum (\<lambda>e. e) wd_trust (wire C read hex_decode (with_revocation RevCrl cfg))"
  by (simp add: wire_def with_revocation_def Let_def and_then_def split: sum.split)

end
