(* ===== verification/Auth_Flow.thy ===== *)
theory Auth_Flow
  imports Wiring Hook_Exec Usb_Mount "HOL-Library.Multiset"
begin

text \<open>
  The authentication flow (\<open>pam_certauth/src/flow.rs\<close>): the PKCS\#12 path over removable media and
  the PKCS\#11 path over a token, with the checks they share, the mapping of failures to PAM codes,
  and the production adapters for media and tokens.

  A step is a function on the state of the flow that ends with a value or an error and leaves a new
  state; sequencing is \<open>flow_bind\<close>. The state holds what the steps consume or leave behind: the
  world of the hooks, the monitor and the token, the GOST engine's lock, the answers at the PIN
  prompt, the counter of mount points and the events in order. The libraries and the clock are the
  record \<open>platform\<close>; the texts shown to the user are values of \<open>info\<close>. Two outcomes are no errors of
  the source: a panic is \<open>FlowPanicked\<close>, which the module's boundary turns into the code for
  unavailable information, and a run that still waits for a medium is \<open>FlowWaiting\<close>, which the
  boundary turns into a call that has not returned.
\<close>

section \<open>Errors\<close>

datatype flow_error =
    FlowUsb usb_error
  | FlowMount mount_error
  | FlowDiscovery discovery_error
  | FlowConv pam_conv_error
  | FlowP12Envelope p12_envelope_error
  | FlowMaxTries
  | FlowPkcs12 string
  | FlowCrypto crypto_error
  | FlowTrust trust_error
  | FlowMapping mapping_error
  | FlowCertScope host_binding_error
  | FlowInternal string
  | FlowPkcs11 pkcs11_error
  | FlowPkcs11Acquire token_acquire_error
  | FlowPkcs11OpensslEngineNotImplemented
  | FlowPkcs11ModulePathMissingInConfig
  | FlowPreAuthHook hook_error
  | FlowPostAuthHook hook_error
  | FlowPanicked
  | FlowWaiting

fun from_acquire_error :: "acquire_error \<Rightarrow> flow_error" where
  "from_acquire_error AcqMaxTries = FlowMaxTries"
| "from_acquire_error (AcqConv c) = FlowConv c"
| "from_acquire_error (AcqCorrupt m) = FlowPkcs12 m"
| "from_acquire_error (AcqMissing s) = FlowPkcs12 (''missing: '' @ s)"

fun from_pkcs12_error :: "pkcs12_error \<Rightarrow> flow_error" where
  "from_pkcs12_error WrongPin = FlowMaxTries"
| "from_pkcs12_error MissingKey = FlowPkcs12 ''missing key''"
| "from_pkcs12_error MissingCert = FlowPkcs12 ''missing cert''"
| "from_pkcs12_error (Corrupt m) = FlowPkcs12 m"

definition from_host_binding_error :: "host_binding_error \<Rightarrow> flow_error" where
  "from_host_binding_error e = (if e = BindingPanicked then FlowPanicked else FlowCertScope e)"

definition pkcs11_unavailable :: "pkcs11_error \<Rightarrow> bool" where
  "pkcs11_unavailable e =
     (case e of
        ModuleLoadFailed _ _ \<Rightarrow> True | InitFailed _ \<Rightarrow> True | ModulePathMissing _ \<Rightarrow> True
      | TokenWaitTimeout _ \<Rightarrow> True | NoTokenAvailable \<Rightarrow> True | TokenNotFound _ \<Rightarrow> True
      | TokenSerialMissing \<Rightarrow> True | _ \<Rightarrow> False)"

definition pam_code :: "flow_error \<Rightarrow> int" where
  "pam_code e =
     (case e of
        FlowUsb _ \<Rightarrow> 9 | FlowMount _ \<Rightarrow> 9 | FlowDiscovery _ \<Rightarrow> 9 | FlowP12Envelope _ \<Rightarrow> 9
      | FlowPkcs11OpensslEngineNotImplemented \<Rightarrow> 9 | FlowPkcs11ModulePathMissingInConfig \<Rightarrow> 9
      | FlowPkcs11 p \<Rightarrow> if pkcs11_unavailable p then 9 else 7
      | FlowMaxTries \<Rightarrow> 8
      | FlowPkcs11Acquire a \<Rightarrow> if a = TokPinLocked \<or> a = TokMaxAttemptsExceeded then 8 else 7
      | FlowPkcs12 _ \<Rightarrow> 6 | FlowCrypto _ \<Rightarrow> 6 | FlowTrust _ \<Rightarrow> 6 | FlowMapping _ \<Rightarrow> 6
      | FlowInternal _ \<Rightarrow> 4
      | FlowConv _ \<Rightarrow> 7 | FlowCertScope _ \<Rightarrow> 7 | FlowPreAuthHook _ \<Rightarrow> 7 | FlowPostAuthHook _ \<Rightarrow> 7
      | FlowPanicked \<Rightarrow> 9 | FlowWaiting \<Rightarrow> 9)"

section \<open>State and steps\<close>

datatype info =
    Banner string host_id_source_kind
  | WrongPin_Generic
  | WrongPin_Issued_For "string option" "string option"
  | Other_Host string host_id_source_kind

datatype flow_event =
    MadeDir string
  | Mounted string
  | Cleaned guard_call
  | SessionDropped slot
  | Shown info

record 'w flow_state =
  fl_world :: 'w
  fl_lock :: engine_lock
  fl_answers :: answers
  fl_seq :: u32
  fl_events :: "flow_event list"

type_synonym ('w, 'a) flow = "'w flow_state \<Rightarrow> (flow_error, 'a) result \<times> 'w flow_state"

definition flow_return :: "'a \<Rightarrow> ('w, 'a) flow" where
  "flow_return x s = (Ok x, s)"

definition flow_lift :: "(flow_error, 'a) result \<Rightarrow> ('w, 'a) flow" where
  "flow_lift r s = (r, s)"

definition flow_bind :: "('w, 'a) flow \<Rightarrow> ('a \<Rightarrow> ('w, 'b) flow) \<Rightarrow> ('w, 'b) flow" where
  "flow_bind m f s = (case m s of (Inl e, s') \<Rightarrow> (Err e, s') | (Inr x, s') \<Rightarrow> f x s')"

definition emit :: "flow_event list \<Rightarrow> ('w, unit) flow" where
  "emit evs s = (Ok (), s \<lparr>fl_events := fl_events s @ evs\<rparr>)"

definition show_info :: "info \<Rightarrow> ('w, unit) flow" where
  "show_info msg = emit [Shown msg]"

text \<open>A step that owns something: when it fails, dropping what it owns is recorded.\<close>

definition drop_on_error :: "flow_event list \<Rightarrow> ('w, 'a) flow \<Rightarrow> ('w, 'a) flow" where
  "drop_on_error evs m s =
     (case m s of (Inl e, s') \<Rightarrow> (Err e, snd (emit evs s')) | (Inr x, s') \<Rightarrow> (Ok x, s'))"

definition guard_events :: "mount_guard \<Rightarrow> flow_event list" where
  "guard_events g = map Cleaned (guard_drop g)"

section \<open>The collaborators\<close>

record platform =
  pt_crypto :: crypto
  pt_gost :: gost_sys
  pt_p12 :: pkcs12_lib
  pt_sig :: sig_lib
  pt_host :: host_lib
  pt_nss :: nss
  pt_stack_from_pem :: "bytes \<Rightarrow> (string, x509 list) result"
  pt_hex_encode :: "bytes \<Rightarrow> string"
  pt_now :: int

record mount_session =
  mn_mountpoint :: string
  mn_guard :: mount_guard

text \<open>
  \<open>FlowIo\<close>. A wait that has not returned is \<open>None\<close>; a mount takes the counter of the state, and says
  what it did to the file system.
\<close>

record flow_io =
  io_wait_for_usb :: "(usb_error, usb_device list) result option"
  io_mount :: "usb_device \<Rightarrow> u32 \<Rightarrow> (mount_error, mount_session) result \<times> u32 \<times> flow_event list"
  io_discover :: "string \<Rightarrow> string \<Rightarrow> string \<Rightarrow> (discovery_error, discovered_creds) result"

record 'w pkcs11_io =
  pi_wait_for_token :: "(pkcs11_error, slot) result option"
  pi_read_token_serial :: "slot \<Rightarrow> (pkcs11_error, string) result"
  pi_acquire_session :: "slot \<Rightarrow> answers \<Rightarrow> 'w \<Rightarrow> (token_acquire_error, session) result \<times> answers \<times> 'w"

record 'w deps =
  dp_cfg :: validated_config
  dp_trust :: openssl_verifier
  dp_monitor :: "open_session_info \<Rightarrow> 'w \<Rightarrow> (ipc_error, unit) result \<times> 'w"
  dp_hook_executor :: "'w executor"
  dp_host_id_hash :: string
  dp_host_id_source :: host_id_source_kind
  dp_user_mappings :: "user_mapping list"
  dp_pam_target :: session_target

record flow_outcome =
  fo_auth_ctx :: auth_context
  fo_mount :: "mount_guard option"

section \<open>Shared steps\<close>

definition waited :: "('e \<Rightarrow> flow_error) \<Rightarrow> ('e, 'a) result option \<Rightarrow> (flow_error, 'a) result" where
  "waited f r = (case r of None \<Rightarrow> Err FlowWaiting | Some x \<Rightarrow> map_err f x)"

definition flow_hooks ::
  "'w deps \<Rightarrow> hook_stage \<Rightarrow> (hook_error \<Rightarrow> flow_error) \<Rightarrow> hook_vars \<Rightarrow> ('w, unit) flow" where
  "flow_hooks D stage failed vars s =
     (case run_hooks_for_stage (vf_hooks (dp_cfg D)) stage (dp_hook_executor D) vars (fl_world s) of
        (r, w) \<Rightarrow> (map_err failed r, s \<lparr>fl_world := w\<rparr>))"

definition pre_auth_vars :: "'w deps \<Rightarrow> string \<Rightarrow> string \<Rightarrow> hook_vars" where
  "pre_auth_vars D pam_user pam_service =
     for_pre_auth pam_user pam_service (dp_host_id_hash D) (dp_host_id_hash D)
       (source_display (dp_host_id_source D))"

definition flow_verify ::
  "platform \<Rightarrow> 'w deps \<Rightarrow> certificate \<Rightarrow> certificate list \<Rightarrow> ('w, stage2_verified_chain) flow" where
  "flow_verify E D leaf presented s =
     (case verify_at (pt_crypto E) (pt_gost E) (dp_trust D) leaf presented (pt_now E) (fl_lock s) of
        (r, lock) \<Rightarrow> (map_err FlowTrust r, s \<lparr>fl_lock := lock\<rparr>))"

text \<open>The slice that shows the first eight bytes of the host hash.\<close>

definition hash_prefix :: "'w deps \<Rightarrow> (flow_error, string) result" where
  "hash_prefix D =
     (let h = dp_host_id_hash D; n = min (length h) 8
      in if is_char_boundary h n then Ok (take n h) else Err FlowPanicked)"

text \<open>Step 10: the user extension decides when it parses, else the configured mapping.\<close>

definition authorise_user ::
  "platform \<Rightarrow> 'w deps \<Rightarrow> certificate \<Rightarrow> string \<Rightarrow> (flow_error, unit) result" where
  "authorise_user E D cert pam_user =
     (if is_ok (user_binding_parse (pt_crypto E) (cert_inner cert))
      then map_err from_host_binding_error (verify_user_binding (pt_crypto E) (cert_inner cert) pam_user)
      else and_then (map_err FlowMapping (match_user cert pam_user (dp_user_mappings D))) (\<lambda>_. Ok ()))"

definition resolve_uid :: "nss \<Rightarrow> string \<Rightarrow> u32" where
  "resolve_uid N pam_user = (case ns_user N pam_user of Inr (Some u) \<Rightarrow> pw_uid u | _ \<Rightarrow> 0)"

definition resolve_home_dir :: "nss \<Rightarrow> string \<Rightarrow> string option" where
  "resolve_home_dir N pam_user = (case ns_user N pam_user of Inr (Some u) \<Rightarrow> Some (pw_dir u) | _ \<Rightarrow> None)"

record session_open_extras =
  se_engineer_ski :: string
  se_engineer_cert_sha256 :: string
  se_uid :: u32

definition session_open_extras :: "platform \<Rightarrow> certificate \<Rightarrow> string \<Rightarrow> session_open_extras" where
  "session_open_extras E cert pam_user =
     \<lparr>se_engineer_ski = (case xf_ski (cert_inner cert) of Some ski \<Rightarrow> pt_hex_encode E ski | None \<Rightarrow> []),
      se_engineer_cert_sha256 =
        (case xf_to_der (cert_inner cert) of
           Inr der \<Rightarrow> pt_hex_encode E (c_sha256 (pt_crypto E) der) | Inl _ \<Rightarrow> []),
      se_uid = resolve_uid (pt_nss E) pam_user\<rparr>"

text \<open>Step 11: what the later phases are told. A broken integrity extension counts as absent.\<close>

definition make_auth_context ::
  "platform \<Rightarrow> 'w deps \<Rightarrow> certificate \<Rightarrow> certificate \<Rightarrow> string \<Rightarrow> string \<Rightarrow> string \<Rightarrow> string option \<Rightarrow> string option \<Rightarrow>
   auth_context" where
  "make_auth_context E D cert verified_leaf pam_user pam_service session_id usb_serial usb_vid_pid =
     \<lparr>ac_session_id = session_id, ac_cert_cn = result_ok (subject_cn cert),
      ac_cert_serial = Some (to_ascii_lowercase (serial_hex cert)), ac_usb_serial = usb_serial,
      ac_usb_vid_pid = usb_vid_pid, ac_pam_service = pam_service, ac_host_id = dp_host_id_hash D,
      ac_host_id_source = dp_host_id_source D, ac_authenticated_at = pt_now E,
      ac_cert_not_after = Some (not_after cert),
      ac_cert_max_integrity =
        (case extract_max_integrity (pt_crypto E) (cert_inner verified_leaf) of Inr label \<Rightarrow> label | Inl _ \<Rightarrow> None),
      ac_cert_ident = Some (cert_ident_from (cert_inner verified_leaf)),
      ac_home_dir = resolve_home_dir (pt_nss E) pam_user\<rparr>"

definition open_session_info_of ::
  "platform \<Rightarrow> 'w deps \<Rightarrow> certificate \<Rightarrow> string \<Rightarrow> string \<Rightarrow> auth_context \<Rightarrow> open_session_info" where
  "open_session_info_of E D cert pam_user pam_service ctx =
     (let extras = session_open_extras E cert pam_user
      in \<lparr>oi_session_id = ac_session_id ctx, oi_pam_user = pam_user, oi_pam_service = pam_service,
          oi_host_id_hash = dp_host_id_hash D, oi_target = dp_pam_target D, oi_usb_serial = ac_usb_serial ctx,
          oi_cert_cn = unwrap_or_default (ac_cert_cn ctx), oi_cert_serial = unwrap_or_default (ac_cert_serial ctx),
          oi_engineer_ski = se_engineer_ski extras, oi_engineer_cert_sha256 = se_engineer_cert_sha256 extras,
          oi_uid = se_uid extras\<rparr>)"

text \<open>Step 11c: the daemon is told, and a failure is only logged.\<close>

definition notify_monitor :: "'w deps \<Rightarrow> open_session_info \<Rightarrow> ('w, unit) flow" where
  "notify_monitor D i s = (Ok (), s \<lparr>fl_world := snd (dp_monitor D i (fl_world s))\<rparr>)"

section \<open>The PKCS\#12 path\<close>

definition flow_mount :: "flow_io \<Rightarrow> usb_device \<Rightarrow> ('w, mount_session) flow" where
  "flow_mount io dev s =
     (case io_mount io dev (fl_seq s) of
        (r, seq, evs) \<Rightarrow> (map_err FlowMount r, s \<lparr>fl_seq := seq, fl_events := fl_events s @ evs\<rparr>))"

text \<open>Steps 3 and 4: the candidates in order, with the last error of either kind.\<close>

fun bind_candidate ::
  "platform \<Rightarrow> flow_io \<Rightarrow> string \<Rightarrow> string \<Rightarrow> usb_device list \<Rightarrow> p12_envelope_error option \<Rightarrow> discovery_error option \<Rightarrow>
   ('w, usb_device \<times> mount_guard \<times> discovered_creds) flow" where
  "bind_candidate E io pattern pam_user [] env disc =
     flow_lift (Err (case env of
         Some e \<Rightarrow> FlowP12Envelope e
       | None \<Rightarrow> FlowDiscovery (case disc of Some d \<Rightarrow> d | None \<Rightarrow> P12NotFound pattern)))"
| "bind_candidate E io pattern pam_user (candidate # rest) env disc =
     flow_bind (flow_mount io candidate) (\<lambda>ms.
       let mount = mn_guard ms in
       case io_discover io (mn_mountpoint ms) pattern pam_user of
         Inr creds \<Rightarrow>
           (case validate_p12_envelope (pt_p12 E) (dc_p12_bytes creds) of
              Inr _ \<Rightarrow> flow_return (candidate, mount, creds)
            | Inl e \<Rightarrow> flow_bind (emit (guard_events mount)) (\<lambda>_.
                bind_candidate E io pattern pam_user rest (Some e) disc))
       | Inl (P12NotFound path) \<Rightarrow>
           flow_bind (emit (guard_events mount)) (\<lambda>_.
             bind_candidate E io pattern pam_user rest env (Some (P12NotFound path)))
       | Inl other \<Rightarrow>
           flow_bind (emit (guard_events mount)) (\<lambda>_. flow_lift (Err (FlowDiscovery other))))"

fun host_descriptor_text :: "host_descriptor \<Rightarrow> string" where
  "host_descriptor_text HostWildcard = ''*''"
| "host_descriptor_text (Sha256Hex h) = ''sha256:'' @ h"
| "host_descriptor_text (Raw r) = r"

fun user_descriptor_text :: "user_descriptor \<Rightarrow> string" where
  "user_descriptor_text UserWildcard = ''*''"
| "user_descriptor_text (Exact u) = u"

text \<open>The extension parser panics on some entries; the message is then never shown.\<close>

definition p12_wrong_pin_diagnostic :: "platform \<Rightarrow> bytes \<Rightarrow> (flow_error, info) result" where
  "p12_wrong_pin_diagnostic E p12 =
     (case try_extract_cert_without_pin (pt_crypto E) (pt_p12 E) p12 of
        None \<Rightarrow> Ok WrongPin_Generic
      | Some cert \<Rightarrow>
          (let user = (case user_binding_parse (pt_crypto E) (cert_inner cert) of
                 Inr us \<Rightarrow> Some (join '', '' (map user_descriptor_text us)) | Inl _ \<Rightarrow> None)
           in (case host_binding_parse (pt_crypto E) (cert_inner cert) of
                 Inr hs \<Rightarrow> Ok (WrongPin_Issued_For (Some (join '', '' (map host_descriptor_text hs))) user)
               | Inl HostExtPanic \<Rightarrow> Err FlowPanicked
               | Inl _ \<Rightarrow> Ok (WrongPin_Issued_For None user))))"

text \<open>Step 5.\<close>

definition flow_acquire_p12 :: "platform \<Rightarrow> bytes \<Rightarrow> ('w, loaded_key_material) flow" where
  "flow_acquire_p12 E p12 s =
     (case acquire_p12_material_with_prompter (pt_crypto E) (pt_p12 E) p12 3 (fl_answers s) of
        (r, rest) \<Rightarrow>
          (let s' = s \<lparr>fl_answers := rest\<rparr>
           in case r of
                Inr m \<Rightarrow> (Ok m, s')
              | Inl AcqMaxTries \<Rightarrow>
                  flow_bind (flow_lift (p12_wrong_pin_diagnostic E p12)) (\<lambda>msg.
                  flow_bind (show_info msg) (\<lambda>_. flow_lift (Err FlowMaxTries))) s'
              | Inl e \<Rightarrow> (Err (from_acquire_error e), s')))"

definition flow_challenge :: "platform \<Rightarrow> 'w deps \<Rightarrow> certificate \<Rightarrow> skey \<Rightarrow> ('w, unit) flow" where
  "flow_challenge E D cert key s =
     (case challenge_response (pt_gost E) (pt_sig E) cert key (vf_gost_engine_path (dp_cfg D)) (fl_lock s) of
        (r, lock) \<Rightarrow> (map_err FlowCrypto r, s \<lparr>fl_lock := lock\<rparr>))"

definition parse_chain_pem :: "platform \<Rightarrow> bytes \<Rightarrow> (trust_error, certificate list) result" where
  "parse_chain_pem E pem =
     and_then (map_err CertParse (pt_stack_from_pem E pem)) (try_map (\<lambda>x.
       and_then (map_err CertParse (xf_to_der x)) (certificate_from_der (pt_crypto E))))"

text \<open>Step 9 with the message for a certificate of another host.\<close>

definition check_host_binding :: "platform \<Rightarrow> 'w deps \<Rightarrow> certificate \<Rightarrow> ('w, unit) flow" where
  "check_host_binding E D cert =
     (case verify_host_binding (pt_crypto E) (cert_inner cert) (dp_host_id_hash D) of
        Inr _ \<Rightarrow> flow_return ()
      | Inl BindingPanicked \<Rightarrow> flow_lift (Err FlowPanicked)
      | Inl e \<Rightarrow>
          flow_bind (flow_lift (hash_prefix D)) (\<lambda>prefix.
          flow_bind (show_info (Other_Host prefix (dp_host_id_source D))) (\<lambda>_.
          flow_lift (Err (FlowCertScope e)))))"

definition hex04 :: "u16 \<Rightarrow> string" where
  "hex04 w = hex02 (ucast (drop_bit 8 w)) @ hex02 (ucast w)"

definition authenticate_bound ::
  "platform \<Rightarrow> 'w deps \<Rightarrow> string \<Rightarrow> string \<Rightarrow> string \<Rightarrow> usb_device \<times> mount_guard \<times> discovered_creds \<Rightarrow>
   ('w, flow_outcome) flow" where
  "authenticate_bound E D pam_user pam_service session_id bound =
     (case bound of (dev, mount, creds) \<Rightarrow>
      flow_bind (flow_acquire_p12 E (dc_p12_bytes creds)) (\<lambda>loaded.
      let cert = lk_end_entity loaded in
      flow_bind (flow_lift (map_err from_pkcs12_error (private_key (pt_p12 E) loaded))) (\<lambda>priv_key.
      flow_bind (flow_challenge E D cert priv_key) (\<lambda>_.
      flow_bind (flow_lift (case dc_chain_pem creds of
           None \<Rightarrow> Ok (lk_presented_chain loaded)
         | Some pem \<Rightarrow> and_then (map_err FlowTrust (parse_chain_pem E pem)) (\<lambda>cs.
             Ok (lk_presented_chain loaded @ cs)))) (\<lambda>presented.
      flow_bind (flow_verify E D cert presented) (\<lambda>verified.
      flow_bind (check_host_binding E D cert) (\<lambda>_.
      flow_bind (flow_lift (authorise_user E D cert pam_user)) (\<lambda>_.
      let ctx = make_auth_context E D cert (vch_end_entity verified) pam_user pam_service session_id
            (dev_serial dev) (Some (hex04 (dev_vid dev) @ '':'' @ hex04 (dev_pid dev))) in
      flow_bind (flow_hooks D PostAuthSuccess FlowPostAuthHook (for_post_auth_success pam_user ctx)) (\<lambda>_.
      flow_bind (notify_monitor D (open_session_info_of E D cert pam_user pam_service ctx)) (\<lambda>_.
      flow_return \<lparr>fo_auth_ctx = ctx, fo_mount = Some mount\<rparr>))))))))))"

definition authenticate_pkcs12 ::
  "platform \<Rightarrow> 'w deps \<Rightarrow> flow_io \<Rightarrow> string \<Rightarrow> string \<Rightarrow> string \<Rightarrow> ('w, flow_outcome) flow" where
  "authenticate_pkcs12 E D io pam_user pam_service session_id =
     flow_bind (flow_hooks D PreAuth FlowPreAuthHook (pre_auth_vars D pam_user pam_service)) (\<lambda>_.
     flow_bind (flow_lift (waited FlowUsb (io_wait_for_usb io))) (\<lambda>usb_devices.
     let pattern = (case vf_pkcs12_path_pattern (dp_cfg D) of
           Some p \<Rightarrow> p | None \<Rightarrow> DEFAULT_PKCS12_PATH_PATTERN) in
     flow_bind (bind_candidate E io pattern pam_user usb_devices None None) (\<lambda>bound.
     drop_on_error (guard_events (fst (snd bound)))
       (authenticate_bound E D pam_user pam_service session_id bound))))"

section \<open>The PKCS\#11 path\<close>

definition flow_acquire_session :: "'w pkcs11_io \<Rightarrow> slot \<Rightarrow> ('w, session) flow" where
  "flow_acquire_session io slot s =
     (case pi_acquire_session io slot (fl_answers s) (fl_world s) of
        (r, rest, w) \<Rightarrow> (map_err FlowPkcs11Acquire r, s \<lparr>fl_answers := rest, fl_world := w\<rparr>))"

text \<open>Steps 5 to 11, which own the open session.\<close>

definition authenticate_session ::
  "platform \<Rightarrow> 'w deps \<Rightarrow> string \<Rightarrow> string \<Rightarrow> string \<Rightarrow> string \<Rightarrow> session \<Rightarrow>
   ('w, certificate \<times> auth_context) flow" where
  "authenticate_session E D pam_user pam_service session_id token_serial ses =
     flow_bind (flow_lift (map_err FlowPkcs11
       (find_certificate (pt_crypto E) ses (vf_pkcs11_object_label (dp_cfg D))))) (\<lambda>found.
     let cert = fc_certificate found in
     flow_bind (flow_lift (map_err FlowPkcs11 (find_private_key_for_cert ses found))) (\<lambda>key.
     flow_bind (flow_lift (map_err FlowTrust (certificate_public_key cert))) (\<lambda>pubkey.
     flow_bind (flow_lift (map_err FlowPkcs11 (select_mechanism (pt_sig E) (fk_key_type key) pubkey))) (\<lambda>mechanism.
     flow_bind (flow_lift (map_err FlowCrypto (pkcs11_challenge_response (pt_sig E) (pt_host E) ses
       (fk_object key) (fk_key_type key) mechanism cert))) (\<lambda>_.
     flow_bind (flow_verify E D cert []) (\<lambda>verified.
     flow_bind (flow_lift (map_err from_host_binding_error
       (verify_host_binding (pt_crypto E) (cert_inner cert) (dp_host_id_hash D)))) (\<lambda>_.
     flow_bind (flow_lift (authorise_user E D cert pam_user)) (\<lambda>_.
     flow_return (cert, make_auth_context E D cert (vch_end_entity verified) pam_user pam_service session_id
       (Some token_serial) None)))))))))"

definition authenticate_pkcs11 ::
  "platform \<Rightarrow> 'w deps \<Rightarrow> 'w pkcs11_io \<Rightarrow> string \<Rightarrow> string \<Rightarrow> string \<Rightarrow> ('w, flow_outcome) flow" where
  "authenticate_pkcs11 E D io pam_user pam_service session_id =
     flow_bind (flow_hooks D PreAuth FlowPreAuthHook (pre_auth_vars D pam_user pam_service)) (\<lambda>_.
     flow_bind (flow_lift (waited FlowPkcs11 (pi_wait_for_token io))) (\<lambda>slot.
     flow_bind (flow_lift (map_err FlowPkcs11 (pi_read_token_serial io slot))) (\<lambda>token_serial.
     flow_bind (flow_acquire_session io slot) (\<lambda>ses.
     flow_bind (drop_on_error [SessionDropped slot]
       (authenticate_session E D pam_user pam_service session_id token_serial ses)) (\<lambda>(cert, ctx).
     flow_bind (emit [SessionDropped slot]) (\<lambda>_.
     flow_bind (flow_hooks D PostAuthSuccess FlowPostAuthHook (for_post_auth_success pam_user ctx)) (\<lambda>_.
     flow_bind (notify_monitor D (open_session_info_of E D cert pam_user pam_service ctx)) (\<lambda>_.
     flow_return \<lparr>fo_auth_ctx = ctx, fo_mount = None\<rparr>))))))))"

section \<open>The adapters and the dispatch\<close>

definition real_pkcs11_io ::
  "provider \<Rightarrow> (string \<Rightarrow> 'w \<Rightarrow> (ck_error, unit) result \<times> 'w) \<Rightarrow> (pkcs11_error, slot) result option \<Rightarrow> validated_config \<Rightarrow>
   (flow_error, 'w pkcs11_io) result" where
  "real_pkcs11_io P login token cfg =
     and_then (ok_or FlowPkcs11ModulePathMissingInConfig (vf_pkcs11_module cfg)) (\<lambda>module_path.
     and_then (map_err FlowPkcs11 (backend_load P module_path)) (\<lambda>_.
     Ok \<lparr>pi_wait_for_token = token, pi_read_token_serial = read_token_serial P,
         pi_acquire_session = (\<lambda>slot.
           acquire_pkcs11_session (session_open P login slot) (vf_pkcs11_max_pin_attempts cfg))\<rparr>))"

definition real_mount ::
  "mount_sys \<Rightarrow> string \<Rightarrow> string \<Rightarrow> usb_device \<Rightarrow> u32 \<Rightarrow>
   (mount_error, mount_session) result \<times> u32 \<times> flow_event list" where
  "real_mount M mountpoint_base session_id dev seq =
     (let subdir = (if seq = 0 then session_id else session_id @ ''-'' @ to_decimal (unat seq));
          target = path_join mountpoint_base subdir
      in case my_create_dir_all M target of
           Inl e \<Rightarrow> (Err (MountSyscall e), seq + 1, [])
         | Inr _ \<Rightarrow>
             (case mount_usb_device M dev target of
                Inl e \<Rightarrow> (Err e, seq + 1, [MadeDir target])
              | Inr g \<Rightarrow> (Ok \<lparr>mn_mountpoint = target, mn_guard = g\<rparr>, seq + 1, [MadeDir target, Mounted target])))"

definition real_flow_io ::
  "mount_sys \<Rightarrow> file_system \<Rightarrow> string \<Rightarrow> string \<Rightarrow> (usb_error, usb_device list) result option \<Rightarrow> flow_io" where
  "real_flow_io M F mountpoint_base session_id usb =
     \<lparr>io_wait_for_usb = usb, io_mount = real_mount M mountpoint_base session_id,
      io_discover = discover_credentials F\<rparr>"

definition authenticate ::
  "platform \<Rightarrow> 'w deps \<Rightarrow> flow_io \<Rightarrow> (flow_error, 'w pkcs11_io) result \<Rightarrow> string \<Rightarrow> string \<Rightarrow> string \<Rightarrow>
   ('w, flow_outcome) flow" where
  "authenticate E D io token_io pam_user pam_service session_id =
     flow_bind (flow_lift (hash_prefix D)) (\<lambda>prefix.
     flow_bind (show_info (Banner prefix (dp_host_id_source D))) (\<lambda>_.
     case vf_mode (dp_cfg D) of
       Pkcs12Mode \<Rightarrow> authenticate_pkcs12 E D io pam_user pam_service session_id
     | Pkcs11Mode \<Rightarrow>
         (case vf_crypto_backend (dp_cfg D) of
            BackendPkcs11Native \<Rightarrow>
              flow_bind (flow_lift token_io) (\<lambda>pio. authenticate_pkcs11 E D pio pam_user pam_service session_id)
          | BackendOpenssl \<Rightarrow> flow_lift (Err FlowPkcs11OpensslEngineNotImplemented))))"

section \<open>Steps that succeed\<close>

lemma flow_bind_Ok [result_simps]:
  "(flow_bind m f s = (Ok y, s'')) = (\<exists>x s'. m s = (Ok x, s') \<and> f x s' = (Ok y, s''))"
  by (auto simp: flow_bind_def split: prod.splits sum.splits)

lemma flow_lift_Ok [result_simps]: "(flow_lift r s = (Ok y, s')) = (r = Ok y \<and> s' = s)"
  by (auto simp: flow_lift_def)

lemma flow_return_Ok [result_simps]: "(flow_return x s = (Ok y, s')) = (x = y \<and> s' = s)"
  by (auto simp: flow_return_def)

lemma drop_on_error_Ok [result_simps]: "(drop_on_error evs m s = (Ok y, s')) = (m s = (Ok y, s'))"
  by (auto simp: drop_on_error_def split: prod.splits sum.splits)

lemma emit_Ok [result_simps]: "(emit evs s = (Ok u, s')) = (s' = s \<lparr>fl_events := fl_events s @ evs\<rparr>)"
  by (auto simp: emit_def)

text \<open>A hook stage that must have passed.\<close>

definition stage_passed :: "'w deps \<Rightarrow> hook_stage \<Rightarrow> bool" where
  "stage_passed D stage \<longleftrightarrow>
     (\<forall>h\<in>set (vf_hooks (dp_cfg D)). hc_stage h = stage \<and> hc_on_failure h = Abort \<longrightarrow>
        (\<exists>vars v oc v'. dp_hook_executor D h vars v = (Ok oc, v') \<and> ho_exit_code oc = 0 \<and> \<not> ho_killed_by_timeout oc))"

lemma flow_hooks_passed: "flow_hooks D stage wrap vars s = (Ok u, s') \<Longrightarrow> stage_passed D stage"
  unfolding stage_passed_def
proof (intro ballI impI)
  fix h
  assume a: "flow_hooks D stage wrap vars s = (Ok u, s')" "h \<in> set (vf_hooks (dp_cfg D))"
    "hc_stage h = stage \<and> hc_on_failure h = Abort"
  from a(1) obtain w where
    "run_hook_list (dp_hook_executor D) vars (filter (\<lambda>h. hc_stage h = stage) (vf_hooks (dp_cfg D))) (fl_world s) = (Ok (), w)"
    by (auto simp: flow_hooks_def run_hooks_for_stage_def result_simps split: prod.splits)
  from run_hook_list_Ok [OF this, of h] a(2,3)
  show "\<exists>vars v oc v'. dp_hook_executor D h vars v = (Ok oc, v') \<and> ho_exit_code oc = 0 \<and> \<not> ho_killed_by_timeout oc"
    by auto
qed

text \<open>
  What a session stands for: the certificate is trusted and its scope covers the machine and the
  user; the key that belongs to it was there, in the bundle or on the token.
\<close>

definition admitted :: "platform \<Rightarrow> 'w deps \<Rightarrow> string \<Rightarrow> certificate \<Rightarrow> bool" where
  "admitted E D pam_user leaf \<longleftrightarrow>
     (\<exists>presented vc. vch_end_entity vc = leaf \<and>
        trusted_chain (pt_crypto E) (dp_trust D) presented (pt_now E) (full_chain vc)) \<and>
     verify_host_binding (pt_crypto E) (cert_inner leaf) (dp_host_id_hash D) = Ok () \<and>
     authorise_user E D leaf pam_user = Ok ()"

definition holds_bundle :: "platform \<Rightarrow> certificate \<Rightarrow> bool" where
  "holds_bundle E leaf \<longleftrightarrow>
     (\<exists>p12 pin loaded sk pk. from_p12 (pt_crypto E) (pt_p12 E) p12 pin = Ok loaded \<and> lk_end_entity loaded = leaf \<and>
        private_key (pt_p12 E) loaded = Ok sk \<and> certificate_public_key leaf = Ok pk \<and> answered (pt_sig E) pk sk)"

definition holds_token :: "platform \<Rightarrow> string option \<Rightarrow> certificate \<Rightarrow> bool" where
  "holds_token E label leaf \<longleftrightarrow>
     (\<exists>ses found key pk mech. find_certificate (pt_crypto E) ses label = Ok found \<and> fc_certificate found = leaf \<and>
        find_private_key_for_cert ses found = Ok key \<and> certificate_public_key leaf = Ok pk \<and>
        select_mechanism (pt_sig E) (fk_key_type key) pk = Ok mech \<and>
        pkcs11_challenge_response (pt_sig E) (pt_host E) ses (fk_object key) (fk_key_type key) mech leaf = Ok ())"

definition describes :: "auth_context \<Rightarrow> certificate \<Rightarrow> bool" where
  "describes ctx leaf \<longleftrightarrow>
     ac_cert_cn ctx = result_ok (subject_cn leaf) \<and> ac_cert_serial ctx = Some (to_ascii_lowercase (serial_hex leaf)) \<and>
     ac_cert_not_after ctx = Some (not_after leaf) \<and> ac_cert_ident ctx = Some (cert_ident_from (cert_inner leaf))"

lemma flow_verify_trusted:
  "flow_verify E D leaf presented s = (Ok vc, s') \<Longrightarrow>
   vch_end_entity vc = leaf \<and> trusted_chain (pt_crypto E) (dp_trust D) presented (pt_now E) (full_chain vc)"
  using verify_steps_trusted [OF verify_at_steps]
  by (fastforce simp: flow_verify_def result_simps split: prod.splits)

lemma check_host_binding_Ok:
  "check_host_binding E D cert s = (Ok u, s') \<Longrightarrow>
   verify_host_binding (pt_crypto E) (cert_inner cert) (dp_host_id_hash D) = Ok ()"
  by (auto simp: check_host_binding_def result_simps split: sum.splits host_binding_error.splits)

lemma acquire_p12_Ok:
  "acquire_p12_material_with_prompter C L p12 n as = (Ok m, rest) \<Longrightarrow> \<exists>pin. from_p12 C L p12 pin = Ok m"
  by (induction C L p12 n as rule: acquire_p12_material_with_prompter.induct)
    (auto split: prod.splits sum.splits pkcs12_error.splits)

lemma flow_acquire_p12_Ok:
  "flow_acquire_p12 E p12 s = (Ok m, s') \<Longrightarrow> \<exists>pin. from_p12 (pt_crypto E) (pt_p12 E) p12 pin = Ok m"
  by (auto simp: flow_acquire_p12_def Let_def result_simps dest: acquire_p12_Ok
      split: prod.splits sum.splits acquire_error.splits)

lemma flow_challenge_Ok:
  "flow_challenge E D cert sk s = (Ok u, s') \<Longrightarrow> \<exists>pk. certificate_public_key cert = Ok pk \<and> answered (pt_sig E) pk sk"
  by (auto simp: flow_challenge_def result_simps split: prod.splits dest: challenge_response_Ok)

lemma make_auth_context_describes:
  "describes (make_auth_context E D cert cert pam_user pam_service session_id serial vid_pid) cert"
  by (simp add: describes_def make_auth_context_def)

lemma authenticate_bound_Ok:
  assumes "authenticate_bound E D pam_user pam_service session_id bound s = (Ok out, s')"
  shows "\<exists>leaf. admitted E D pam_user leaf \<and> holds_bundle E leaf \<and> describes (fo_auth_ctx out) leaf
    \<and> ac_session_id (fo_auth_ctx out) = session_id \<and> ac_host_id (fo_auth_ctx out) = dp_host_id_hash D
    \<and> fo_mount out = Some (fst (snd bound)) \<and> stage_passed D PostAuthSuccess"
proof -
  obtain dev mount creds where b: "bound = (dev, mount, creds)" by (cases bound)
  from assms obtain loaded sk presented verified s1 s2 s3 s4 s5 s6 s7 s8 vars u ctx where
    l: "flow_acquire_p12 E (dc_p12_bytes creds) s = (Ok loaded, s1)"
    and k: "private_key (pt_p12 E) loaded = Ok sk"
    and c: "flow_challenge E D (lk_end_entity loaded) sk s1 = (Ok u, s2)"
    and v: "flow_verify E D (lk_end_entity loaded) presented s3 = (Ok verified, s4)"
    and h: "check_host_binding E D (lk_end_entity loaded) s4 = (Ok (), s5)"
    and a: "authorise_user E D (lk_end_entity loaded) pam_user = Ok ()"
    and p: "flow_hooks D PostAuthSuccess FlowPostAuthHook vars s6 = (Ok (), s7)"
    and x: "ctx = make_auth_context E D (lk_end_entity loaded) (vch_end_entity verified) pam_user pam_service session_id
        (dev_serial dev) (Some (hex04 (dev_vid dev) @ '':'' @ hex04 (dev_pid dev)))"
      "out = \<lparr>fo_auth_ctx = ctx, fo_mount = Some mount\<rparr>"
    by (auto simp: authenticate_bound_def b Let_def result_simps)
  let ?leaf = "lk_end_entity loaded"
  have t: "vch_end_entity verified = ?leaf"
      "trusted_chain (pt_crypto E) (dp_trust D) presented (pt_now E) (full_chain verified)"
    using flow_verify_trusted [OF v] by auto
  have "admitted E D pam_user ?leaf"
    using t check_host_binding_Ok [OF h] a unfolding admitted_def by blast
  moreover have "holds_bundle E ?leaf"
    using flow_acquire_p12_Ok [OF l] k flow_challenge_Ok [OF c] unfolding holds_bundle_def by blast
  moreover have "describes ctx ?leaf" using x(1) t(1) make_auth_context_describes by simp
  ultimately show ?thesis
    using x flow_hooks_passed [OF p] by (intro exI [of _ ?leaf]) (simp add: make_auth_context_def b)
qed

lemma authenticate_pkcs12_Ok:
  assumes "authenticate_pkcs12 E D io pam_user pam_service session_id s = (Ok out, s')"
  shows "\<exists>leaf. admitted E D pam_user leaf \<and> holds_bundle E leaf \<and> describes (fo_auth_ctx out) leaf
    \<and> ac_session_id (fo_auth_ctx out) = session_id \<and> ac_host_id (fo_auth_ctx out) = dp_host_id_hash D
    \<and> stage_passed D PreAuth \<and> stage_passed D PostAuthSuccess"
proof -
  from assms obtain s1 s2 vars bound where "flow_hooks D PreAuth FlowPreAuthHook vars s = (Ok (), s1)"
    "authenticate_bound E D pam_user pam_service session_id bound s2 = (Ok out, s')"
    by (auto simp: authenticate_pkcs12_def Let_def result_simps)
  with authenticate_bound_Ok flow_hooks_passed show ?thesis by metis
qed

lemma authenticate_pkcs11_Ok:
  assumes "authenticate_pkcs11 E D io pam_user pam_service session_id s = (Ok out, s')"
  shows "\<exists>leaf. admitted E D pam_user leaf \<and> holds_token E (vf_pkcs11_object_label (dp_cfg D)) leaf
    \<and> describes (fo_auth_ctx out) leaf
    \<and> ac_session_id (fo_auth_ctx out) = session_id \<and> ac_host_id (fo_auth_ctx out) = dp_host_id_hash D
    \<and> stage_passed D PreAuth \<and> stage_passed D PostAuthSuccess"
proof -
  from assms obtain s1 s2 s3 s4 s5 vars vars' token_serial ses cert ctx where
    p: "flow_hooks D PreAuth FlowPreAuthHook vars s = (Ok (), s1)"
    and a: "authenticate_session E D pam_user pam_service session_id token_serial ses s2 = (Ok (cert, ctx), s3)"
    and q: "flow_hooks D PostAuthSuccess FlowPostAuthHook vars' s4 = (Ok (), s5)"
    and o: "out = \<lparr>fo_auth_ctx = ctx, fo_mount = None\<rparr>"
    by (auto simp: authenticate_pkcs11_def Let_def result_simps split: prod.splits)
  from a obtain found key pk mech verified s6 s7 where
    f: "find_certificate (pt_crypto E) ses (vf_pkcs11_object_label (dp_cfg D)) = Ok found" "fc_certificate found = cert"
      "find_private_key_for_cert ses found = Ok key" "certificate_public_key cert = Ok pk"
      "select_mechanism (pt_sig E) (fk_key_type key) pk = Ok mech"
      "pkcs11_challenge_response (pt_sig E) (pt_host E) ses (fk_object key) (fk_key_type key) mech cert = Ok ()"
    and v: "flow_verify E D cert [] s6 = (Ok verified, s7)"
    and h: "verify_host_binding (pt_crypto E) (cert_inner cert) (dp_host_id_hash D) = Ok ()"
    and u: "authorise_user E D cert pam_user = Ok ()"
    and x: "ctx = make_auth_context E D cert (vch_end_entity verified) pam_user pam_service session_id (Some token_serial) None"
    by (auto simp: authenticate_session_def Let_def result_simps)
  have t: "vch_end_entity verified = cert"
      "trusted_chain (pt_crypto E) (dp_trust D) [] (pt_now E) (full_chain verified)"
    using flow_verify_trusted [OF v] by auto
  have "admitted E D pam_user cert" using t h u unfolding admitted_def by blast
  moreover have "holds_token E (vf_pkcs11_object_label (dp_cfg D)) cert" using f unfolding holds_token_def by blast
  ultimately show ?thesis
    using x t(1) o flow_hooks_passed [OF p] flow_hooks_passed [OF q] make_auth_context_describes
    by (intro exI [of _ cert]) (simp add: make_auth_context_def describes_def)
qed

lemma authenticate_Ok:
  assumes "authenticate E D io token_io pam_user pam_service session_id s = (Ok out, s')"
  shows "\<exists>leaf. admitted E D pam_user leaf
    \<and> (if vf_mode (dp_cfg D) = Pkcs12Mode then holds_bundle E leaf
       else holds_token E (vf_pkcs11_object_label (dp_cfg D)) leaf)
    \<and> describes (fo_auth_ctx out) leaf
    \<and> ac_session_id (fo_auth_ctx out) = session_id \<and> ac_host_id (fo_auth_ctx out) = dp_host_id_hash D
    \<and> stage_passed D PreAuth \<and> stage_passed D PostAuthSuccess"
proof (cases "vf_mode (dp_cfg D)")
  case Pkcs12Mode
  with assms obtain s1 where "authenticate_pkcs12 E D io pam_user pam_service session_id s1 = (Ok out, s')"
    by (auto simp: authenticate_def result_simps)
  from authenticate_pkcs12_Ok [OF this] Pkcs12Mode show ?thesis by simp
next
  case Pkcs11Mode
  with assms obtain pio s1 where "authenticate_pkcs11 E D pio pam_user pam_service session_id s1 = (Ok out, s')"
    by (auto simp: authenticate_def result_simps split: crypto_backend.splits)
  from authenticate_pkcs11_Ok [OF this] Pkcs11Mode show ?thesis by simp
qed

section \<open>PINs\<close>

text \<open>A step that reads at most \<open>n\<close> answers, in order.\<close>

named_theorems reads_intros

definition reads :: "nat \<Rightarrow> ('w, 'a) flow \<Rightarrow> bool" where
  "reads n m \<longleftrightarrow> (\<forall>s. \<exists>used. fl_answers s = used @ fl_answers (snd (m s)) \<and> length used \<le> n)"

lemma reads_keep: "(\<And>s. fl_answers (snd (m s)) = fl_answers s) \<Longrightarrow> reads n m"
  by (auto simp: reads_def)

lemma reads_bind:
  assumes "reads a m" "\<And>x. reads b (f x)"
  shows "reads (a + b) (flow_bind m f)"
  unfolding reads_def
proof
  fix s
  obtain u where u: "fl_answers s = u @ fl_answers (snd (m s))" "length u \<le> a"
    using assms(1) unfolding reads_def by blast
  show "\<exists>used. fl_answers s = used @ fl_answers (snd (flow_bind m f s)) \<and> length used \<le> a + b"
  proof (cases "m s")
    case (Pair r s')
    show ?thesis
    proof (cases r)
      case (Inl e)
      then show ?thesis using u Pair by (intro exI [of _ u]) (simp add: flow_bind_def)
    next
      case (Inr x)
      obtain w where "fl_answers s' = w @ fl_answers (snd (f x s'))" "length w \<le> b"
        using assms(2) unfolding reads_def by blast
      then show ?thesis using u Pair Inr by (intro exI [of _ "u @ w"]) (simp add: flow_bind_def)
    qed
  qed
qed

lemma reads_bind_left: "reads n m \<Longrightarrow> (\<And>x. reads 0 (f x)) \<Longrightarrow> reads n (flow_bind m f)"
  using reads_bind [of n m 0 f] by simp

lemma reads_bind_right: "reads 0 m \<Longrightarrow> (\<And>x. reads n (f x)) \<Longrightarrow> reads n (flow_bind m f)"
  using reads_bind [of 0 m n f] by simp

lemma reads_drop [reads_intros]: "reads n m \<Longrightarrow> reads n (drop_on_error evs m)"
proof -
  have "fl_answers (snd (drop_on_error evs m s)) = fl_answers (snd (m s))" for s
    by (simp add: drop_on_error_def emit_def split: prod.splits sum.splits)
  then show "reads n m \<Longrightarrow> reads n (drop_on_error evs m)" by (simp add: reads_def)
qed

lemma reads_none [reads_intros]:
  "reads n (flow_lift r)" "reads n (flow_return x)" "reads n (emit evs)" "reads n (show_info msg)"
  "reads n (flow_hooks D stage wrap vars)" "reads n (flow_verify E D leaf presented)"
  "reads n (flow_challenge E D cert sk)" "reads n (notify_monitor D i)" "reads n (flow_mount io dev)"
  by (rule reads_keep, simp add: flow_lift_def flow_return_def emit_def show_info_def flow_hooks_def flow_verify_def
      flow_challenge_def notify_monitor_def flow_mount_def split: prod.splits)+

lemma reads_check_host [reads_intros]: "reads n (check_host_binding E D cert)"
  unfolding check_host_binding_def
  by (auto split: sum.splits host_binding_error.splits intro!: reads_intros reads_bind_right)

lemma reads_candidates [reads_intros]: "reads n (bind_candidate E io pattern user devs env disc)"
  by (induction E io pattern user devs env disc rule: bind_candidate.induct)
    (auto simp: Let_def split: sum.splits discovery_error.splits intro!: reads_intros reads_bind_right)

lemma p12_loop_reads:
  "\<exists>used. as = used @ snd (acquire_p12_material_with_prompter C L p12 n as) \<and> length used \<le> n"
proof (induction n arbitrary: as)
  case (Suc n)
  show ?case
  proof (cases as)
    case (Cons a rest)
    obtain used where "rest = used @ snd (acquire_p12_material_with_prompter C L p12 n rest)" "length used \<le> n"
      using Suc.IH by blast
    then show ?thesis
      using Cons by (cases a) (auto simp: next_answer_def intro: exI [of _ "[a]"] exI [of _ "a # used"]
        split: sum.splits pkcs12_error.splits)
  qed (simp add: next_answer_def)
qed simp

lemma reads_acquire_p12: "reads 3 (flow_acquire_p12 E p12 :: ('a, loaded_key_material) flow)"
  unfolding reads_def
proof
  fix s :: "'a flow_state"
  obtain used where u: "fl_answers s = used @ snd (acquire_p12_material_with_prompter (pt_crypto E) (pt_p12 E) p12 3 (fl_answers s))"
    "length used \<le> 3" using p12_loop_reads by blast
  have "fl_answers (snd (flow_acquire_p12 E p12 s)) =
      snd (acquire_p12_material_with_prompter (pt_crypto E) (pt_p12 E) p12 3 (fl_answers s))"
    by (simp add: flow_acquire_p12_def flow_bind_def flow_lift_def show_info_def emit_def Let_def
        split: prod.splits sum.splits acquire_error.splits)
  with u show "\<exists>used. fl_answers s = used @ fl_answers (snd (flow_acquire_p12 E p12 s)) \<and> length used \<le> 3" by metis
qed

lemma reads_authenticate_bound: "reads 3 (authenticate_bound E D u v w bound)"
  unfolding authenticate_bound_def Let_def
  by (cases bound) (auto intro!: reads_bind_left [OF reads_acquire_p12] reads_bind_right reads_intros)

lemma reads_authenticate_pkcs12: "reads 3 (authenticate_pkcs12 E D io u v w)"
  unfolding authenticate_pkcs12_def Let_def
  by (intro reads_bind_right reads_intros reads_authenticate_bound)

lemma token_loop_reads:
  "\<exists>used. as = used @ fst (snd (token_pin_loop opener n as t)) \<and> length used \<le> n"
proof (induction n arbitrary: as t)
  case (Suc n)
  show ?case
  proof (cases as)
    case (Cons a rest)
    show ?thesis
    proof (cases a)
      case (Inr pin)
      obtain r t' where o: "opener pin t = (r, t')" by fastforce
      obtain used where "rest = used @ fst (snd (token_pin_loop opener n rest t'))" "length used \<le> n"
        using Suc.IH by blast
      then show ?thesis
        using Cons Inr o by (auto simp: next_answer_def intro: exI [of _ "[a]"] exI [of _ "a # used"]
          split: sum.splits pkcs11_error.splits)
    qed (use Cons in \<open>simp add: next_answer_def\<close>)
  qed (simp add: next_answer_def)
qed simp

text \<open>The production token reads no more answers than it is configured to.\<close>

definition bounded_token :: "nat \<Rightarrow> 'w pkcs11_io \<Rightarrow> bool" where
  "bounded_token n io \<longleftrightarrow>
     (\<forall>slot as w. \<exists>used. as = used @ fst (snd (pi_acquire_session io slot as w)) \<and> length used \<le> n)"

lemma real_token_bounded:
  "real_pkcs11_io P login token cfg = Ok io \<Longrightarrow> bounded_token (unat (vf_pkcs11_max_pin_attempts cfg)) io"
  unfolding bounded_token_def real_pkcs11_io_def
  using token_loop_reads by (auto simp: result_simps acquire_pkcs11_session_def)

lemma reads_acquire_session: "bounded_token n io \<Longrightarrow> reads n (flow_acquire_session io slot)"
  unfolding reads_def bounded_token_def flow_acquire_session_def by (simp split: prod.splits) (metis fst_conv snd_conv)

lemma reads_authenticate_session: "reads n (authenticate_session E D u v w x ses)"
  unfolding authenticate_session_def Let_def by (intro reads_bind_right reads_intros)

lemma reads_authenticate_pkcs11:
  assumes "bounded_token n io"
  shows "reads n (authenticate_pkcs11 E D io u v w)"
  unfolding authenticate_pkcs11_def
  by (rule reads_bind_right reads_bind_left [OF reads_acquire_session [OF assms]] reads_intros
      reads_authenticate_session | split prod.split | intro allI impI)+

lemma bind_candidate_Ok:
  "bind_candidate E io pattern user devs env disc (s :: 'w flow_state) = (Ok (dev, g, creds), s') \<Longrightarrow>
   dev \<in> set devs \<and> validate_p12_envelope (pt_p12 E) (dc_p12_bytes creds) = Ok ()
   \<and> (\<exists>mp. io_discover io mp pattern user = Ok creds) \<and> (\<exists>ms (t :: 'w flow_state) t'. flow_mount io dev t = (Ok ms, t') \<and> g = mn_guard ms)"
proof (induction devs arbitrary: env disc s)
  case Nil
  then show ?case by (simp add: result_simps)
next
  case (Cons candidate rest)
  from Cons.prems obtain ms s1 where m: "flow_mount io candidate s = (Ok ms, s1)"
    by (auto simp: result_simps)
  show ?case
  proof (cases "io_discover io (mn_mountpoint ms) pattern user")
    case (Inl e)
    with Cons.prems m obtain disc' s2 where
      "bind_candidate E io pattern user rest env disc' s2 = (Ok (dev, g, creds), s')"
      by (cases e) (auto simp: result_simps Let_def)
    from Cons.IH [OF this] show ?thesis by auto
  next
    case (Inr c)
    show ?thesis
    proof (cases "validate_p12_envelope (pt_p12 E) (dc_p12_bytes c)")
      case (Inl e)
      with Cons.prems m Inr obtain s2 where
        "bind_candidate E io pattern user rest (Some e) disc s2 = (Ok (dev, g, creds), s')"
        by (auto simp: result_simps Let_def)
      from Cons.IH [OF this] show ?thesis by auto
    next
      case (Inr u)
      with Cons.prems m \<open>io_discover io (mn_mountpoint ms) pattern user = Ok c\<close>
      have "candidate = dev" "c = creds" "g = mn_guard ms" by (simp_all add: result_simps Let_def)
      with m Inr \<open>io_discover io (mn_mountpoint ms) pattern user = Ok c\<close> show ?thesis by auto
    qed
  qed
qed

lemma reads_lift_bind: "(\<And>x. r = Ok x \<Longrightarrow> reads n (f x)) \<Longrightarrow> reads n (flow_bind (flow_lift r) f)"
  by (cases r) (auto simp: reads_def flow_bind_def flow_lift_def)

lemma pkcs12_asks_after_envelope:
  assumes "authenticate_pkcs12 E D io user v w s = (r, s')" "fl_answers s' \<noteq> fl_answers s"
  shows "\<exists>mp pattern creds. io_discover io mp pattern user = Ok creds
    \<and> validate_p12_envelope (pt_p12 E) (dc_p12_bytes creds) = Ok ()"
proof -
  obtain r1 s1 where h: "flow_hooks D PreAuth FlowPreAuthHook (pre_auth_vars D user v) s = (r1, s1)" by fastforce
  then have a1: "fl_answers s1 = fl_answers s" by (auto simp: flow_hooks_def split: prod.splits)
  show ?thesis
  proof (cases "r1 = Ok () \<and> is_ok (waited FlowUsb (io_wait_for_usb io))")
    case False
    with assms h a1 show ?thesis
      by (cases r1; cases "waited FlowUsb (io_wait_for_usb io)") (auto simp: authenticate_pkcs12_def flow_bind_def flow_lift_def)
  next
    case True
    then obtain devs where d: "waited FlowUsb (io_wait_for_usb io) = Ok devs"
      by (cases "waited FlowUsb (io_wait_for_usb io)") auto
    define pattern where "pattern = (case vf_pkcs12_path_pattern (dp_cfg D) of
      Some p \<Rightarrow> p | None \<Rightarrow> DEFAULT_PKCS12_PATH_PATTERN)"
    obtain r2 s2 where b: "bind_candidate E io pattern user devs None None s1 = (r2, s2)" by fastforce
    have "fl_answers s2 = fl_answers s1"
      using reads_candidates [of 0 E io pattern user devs None None] b unfolding reads_def by (metis append_Nil le_zero_eq length_0_conv snd_conv)
    with assms h a1 True d b obtain bound where "r2 = Ok bound"
      by (cases r2) (auto simp: authenticate_pkcs12_def flow_bind_def flow_lift_def pattern_def)
    then obtain dev g creds where "bind_candidate E io pattern user devs None None s1 = (Ok (dev, g, creds), s2)"
      using b by (cases bound) auto
    from bind_candidate_Ok [OF this] show ?thesis by blast
  qed
qed

text \<open>
  The user is asked for few PINs, and for none before there is something to open. On a
  validated configuration an authentication reads at most three answers for a bundle and at most
  five for a token, in the order they were given, and on the bundle's path it reads one only after a
  file was found whose outer structure is that of a bundle.
\<close>

theorem authenticate_pins:
  assumes "try_from_raw astra_mac F raw = Ok (dp_cfg D)"
    and "authenticate E D io (real_pkcs11_io P login token (dp_cfg D)) user service sid s = (r, s')"
  shows "\<exists>used. fl_answers s = used @ fl_answers s'
    \<and> length used \<le> (if vf_mode (dp_cfg D) = Pkcs12Mode then 3 else 5)
    \<and> (used \<noteq> [] \<and> vf_mode (dp_cfg D) = Pkcs12Mode \<longrightarrow>
         (\<exists>mp pattern creds. io_discover io mp pattern user = Ok creds
            \<and> validate_p12_envelope (pt_p12 E) (dc_p12_bytes creds) = Ok ()))"
proof (cases "vf_mode (dp_cfg D)")
  case Pkcs12Mode
  show ?thesis
  proof (cases "hash_prefix D")
    case (Inl e)
    with assms(2) show ?thesis by (auto simp: authenticate_def flow_bind_def flow_lift_def)
  next
    case (Inr prefix)
    define s1 where "s1 = s \<lparr>fl_events := fl_events s @ [Shown (Banner prefix (dp_host_id_source D))]\<rparr>"
    have r: "authenticate_pkcs12 E D io user service sid s1 = (r, s')" "fl_answers s1 = fl_answers s"
      using assms(2) Pkcs12Mode Inr
      by (auto simp: authenticate_def flow_bind_def flow_lift_def show_info_def emit_def s1_def)
    then obtain used where "fl_answers s = used @ fl_answers s'" "length used \<le> 3"
      using reads_authenticate_pkcs12 [of E D io user service sid] unfolding reads_def by (metis snd_conv)
    with pkcs12_asks_after_envelope [OF r(1)] r(2) Pkcs12Mode show ?thesis by fastforce
  qed
next
  case Pkcs11Mode
  have "unat (vf_pkcs11_max_pin_attempts (dp_cfg D)) \<le> 5"
    using config_ok_of_raw [OF assms(1)] by (simp add: config_ok_def tokens_ok_cfg_def in_range_def)
  then have "bounded_token 5 io'" if "real_pkcs11_io P login token (dp_cfg D) = Ok io'" for io'
    using real_token_bounded [OF that] unfolding bounded_token_def by (meson order_trans)
  then have "reads 5 (authenticate E D io (real_pkcs11_io P login token (dp_cfg D)) user service sid)"
    unfolding authenticate_def using Pkcs11Mode
    by (auto intro!: reads_lift_bind reads_bind_right [OF reads_none(4)] reads_none reads_authenticate_pkcs11
        split: crypto_backend.splits)
  with assms(2) Pkcs11Mode show ?thesis unfolding reads_def by (metis auth_mode.distinct(1) snd_conv)
qed

section \<open>Mounts\<close>

text \<open>
  The mounts that are left after a sequence of events, the latest first. Dropping a guard requests
  the unmount and only logs its failure: \<open>umount_ok i\<close> says whether the \<open>umount2\<close> that is the event at
  position \<open>i\<close> succeeded. \<open>failed_umounts\<close> are the targets of those that did not.
\<close>

fun still_mounted :: "(nat \<Rightarrow> bool) \<Rightarrow> nat \<Rightarrow> string list \<Rightarrow> flow_event list \<Rightarrow> string list" where
  "still_mounted umount_ok i ms [] = ms"
| "still_mounted umount_ok i ms (Mounted p # evs) = still_mounted umount_ok (Suc i) (p # ms) evs"
| "still_mounted umount_ok i ms (Cleaned (Umount p) # evs) =
     still_mounted umount_ok (Suc i) (if umount_ok i then remove1 p ms else ms) evs"
| "still_mounted umount_ok i ms (_ # evs) = still_mounted umount_ok (Suc i) ms evs"

fun failed_umounts :: "(nat \<Rightarrow> bool) \<Rightarrow> nat \<Rightarrow> flow_event list \<Rightarrow> string list" where
  "failed_umounts umount_ok i [] = []"
| "failed_umounts umount_ok i (Cleaned (Umount p) # evs) =
     (if umount_ok i then failed_umounts umount_ok (Suc i) evs else p # failed_umounts umount_ok (Suc i) evs)"
| "failed_umounts umount_ok i (_ # evs) = failed_umounts umount_ok (Suc i) evs"

text \<open>The events mount \<open>ts\<close> beyond what they unmount; besides these, only failed unmounts leave something.\<close>

definition balance :: "string list \<Rightarrow> flow_event list \<Rightarrow> bool" where
  "balance ts evs \<longleftrightarrow>
     (\<forall>umount_ok i ms. mset (still_mounted umount_ok i ms evs) = mset ts + mset ms + mset (failed_umounts umount_ok i evs))"

lemma still_mounted_append:
  "still_mounted umount_ok i ms (a @ b) = still_mounted umount_ok (i + length a) (still_mounted umount_ok i ms a) b"
  by (induction umount_ok i ms a rule: still_mounted.induct) simp_all

lemma failed_umounts_append:
  "failed_umounts umount_ok i (a @ b) = failed_umounts umount_ok i a @ failed_umounts umount_ok (i + length a) b"
  by (induction umount_ok i a rule: failed_umounts.induct) simp_all

lemma no_failed_umounts [simp]: "failed_umounts (\<lambda>_. True) i evs = []"
  by (induction "\<lambda>_ :: nat. True" i evs rule: failed_umounts.induct) simp_all

lemma balance_Nil [simp]: "balance ts [] = (ts = [])"
  by (auto simp: balance_def)

lemma balance_append: "balance us a \<Longrightarrow> balance ts b \<Longrightarrow> balance (ts @ us) (a @ b)"
  by (simp add: balance_def still_mounted_append failed_umounts_append ac_simps)

lemma balance_guard:
  "balance [mg_target g] a \<Longrightarrow> mg_mounted g \<Longrightarrow> balance [] (a @ guard_events g)"
  by (simp add: balance_def still_mounted_append failed_umounts_append guard_events_def guard_drop_def)

lemma balance_left:
  assumes "balance ts evs"
  shows "mset (still_mounted umount_ok 0 [] evs) = mset ts + mset (failed_umounts umount_ok 0 evs)"
    and "mset (still_mounted (\<lambda>_. True) 0 [] evs) = mset ts"
  using assms unfolding balance_def by simp_all

text \<open>A step that leaves the mounts \<open>P x\<close> when it ends with \<open>x\<close>, and none when it fails.\<close>

definition leaves :: "('a \<Rightarrow> string list) \<Rightarrow> ('w, 'a) flow \<Rightarrow> bool" where
  "leaves P m \<longleftrightarrow>
     (\<forall>s r s'. m s = (r, s') \<longrightarrow>
        (\<exists>evs. fl_events s' = fl_events s @ evs \<and> balance (case r of Inl _ \<Rightarrow> [] | Inr x \<Rightarrow> P x) evs))"

named_theorems leaves_intros

abbreviation leaves_none :: "('w, 'a) flow \<Rightarrow> bool" where
  "leaves_none \<equiv> leaves (\<lambda>_. [])"

lemma leaves_cases:
  assumes "leaves P m" "m s = (r, s')"
  obtains evs where "fl_events s' = fl_events s @ evs" "balance (case r of Inl _ \<Rightarrow> [] | Inr x \<Rightarrow> P x) evs"
  using assms unfolding leaves_def by blast

lemma leaves_none_cases:
  assumes "leaves_none m" "m s = (r, s')"
  obtains evs where "fl_events s' = fl_events s @ evs" "balance [] evs"
  by (rule leaves_cases [OF assms]) (auto intro: that split: sum.splits)

lemma leaves_quiet: "(\<And>s. fl_events (snd (m s)) = fl_events s) \<Longrightarrow> leaves_none m"
  unfolding leaves_def by (metis append_Nil2 balance_Nil old.sum.simps(5,6) snd_conv sum.exhaust)

lemma leaves_bind:
  assumes "leaves_none m" "\<And>x. leaves P (f x)"
  shows "leaves P (flow_bind m f)"
  unfolding leaves_def
proof (intro allI impI)
  fix s r s'
  assume r: "flow_bind m f s = (r, s')"
  obtain q t where m: "m s = (q, t)" by fastforce
  obtain a where a: "fl_events t = fl_events s @ a" "balance [] a"
    using leaves_none_cases [OF assms(1) m] by blast
  show "\<exists>evs. fl_events s' = fl_events s @ evs \<and> balance (case r of Inl _ \<Rightarrow> [] | Inr x \<Rightarrow> P x) evs"
  proof (cases q)
    case (Inl e)
    with r m a show ?thesis by (auto simp: flow_bind_def)
  next
    case (Inr x)
    then have "f x t = (r, s')" using r m by (simp add: flow_bind_def)
    then obtain b where "fl_events s' = fl_events t @ b" "balance (case r of Inl _ \<Rightarrow> [] | Inr x \<Rightarrow> P x) b"
      using leaves_cases [OF assms(2)] by blast
    with a balance_append [OF a(2)] show ?thesis by (intro exI [of _ "a @ b"]) fastforce
  qed
qed

lemma leaves_basic [leaves_intros]:
  "leaves_none (flow_lift r)" "leaves_none (show_info msg)" "leaves_none (flow_return x)"
  "leaves_none (flow_hooks D stage wrap vars)" "leaves_none (flow_verify E D leaf presented)"
  "leaves_none (flow_challenge E D cert sk)" "leaves_none (notify_monitor D i)"
  "leaves_none (flow_acquire_session pio slot)" "leaves_none (emit [SessionDropped slot])"
proof -
  have "balance [] [Shown msg]" "balance [] [SessionDropped slot]" by (simp_all add: balance_def)
  then show "leaves_none (show_info msg)" "leaves_none (emit [SessionDropped slot])"
    by (auto simp: leaves_def show_info_def emit_def)
qed (rule leaves_quiet, simp add: flow_lift_def flow_return_def flow_hooks_def flow_verify_def
      flow_challenge_def notify_monitor_def flow_acquire_session_def split: prod.splits)+

lemma leaves_fail: "leaves P (flow_lift (Err e))"
  by (auto simp: leaves_def flow_lift_def)

lemma leaves_acquire_p12 [leaves_intros]: "leaves_none (flow_acquire_p12 E p12)"
proof -
  have d: "leaves_none (flow_bind (flow_lift (p12_wrong_pin_diagnostic E p12)) (\<lambda>msg.
      flow_bind (show_info msg) (\<lambda>_. flow_lift (Err FlowMaxTries))))"
    by (intro leaves_bind leaves_intros)
  show ?thesis
    unfolding leaves_def flow_acquire_p12_def Let_def
    by (auto split: prod.splits sum.splits acquire_error.splits elim!: leaves_cases [OF d])
qed

lemma leaves_check_host [leaves_intros]: "leaves_none (check_host_binding E D cert)"
  unfolding check_host_binding_def
  by (auto split: sum.splits host_binding_error.splits intro!: leaves_intros leaves_bind)

lemma leaves_authenticate_bound: "leaves_none (authenticate_bound E D u v w bound)"
  unfolding authenticate_bound_def Let_def
  by (cases bound) (auto intro!: leaves_bind leaves_intros)

lemma leaves_drop_session [leaves_intros]: "leaves_none m \<Longrightarrow> leaves_none (drop_on_error [SessionDropped slot] m)"
  unfolding leaves_def [of _ "drop_on_error [SessionDropped slot] m"]
proof (intro allI impI)
  fix s r s'
  assume a: "leaves_none m" "drop_on_error [SessionDropped slot] m s = (r, s')"
  obtain q t where m: "m s = (q, t)" by fastforce
  obtain evs where e: "fl_events t = fl_events s @ evs" "balance [] evs" using leaves_none_cases [OF a(1) m] by blast
  have "balance [] (evs @ [SessionDropped slot])" using e(2) by (simp add: balance_def still_mounted_append failed_umounts_append)
  with a(2) m e show "\<exists>evs. fl_events s' = fl_events s @ evs \<and> balance (case r of Inl _ \<Rightarrow> [] | Inr _ \<Rightarrow> []) evs"
    by (cases q) (auto simp: drop_on_error_def emit_def)
qed

lemma leaves_pkcs11: "leaves_none (authenticate_pkcs11 E D pio u v w)"
  unfolding authenticate_pkcs11_def authenticate_session_def Let_def
  by (auto intro!: leaves_bind leaves_intros split: prod.splits)

text \<open>What the flow relies on in its medium: a mount that succeeds is the one its guard undoes.\<close>

locale flow_medium =
  fixes io :: flow_io
  assumes mount_opens: "io_mount io dev seq = (Ok ms, seq', evs) \<Longrightarrow>
      balance [mg_target (mn_guard ms)] evs \<and> mg_mounted (mn_guard ms)"
    and mount_fails: "io_mount io dev seq = (Err e, seq', evs) \<Longrightarrow> balance [] evs"
begin

lemma flow_mount_leaves: "leaves (\<lambda>ms. [mg_target (mn_guard ms)]) (flow_mount io dev)"
  unfolding leaves_def flow_mount_def
  by (auto simp: map_err_def dest: mount_opens mount_fails split: prod.splits sum.splits)

lemma flow_mount_Ok: "flow_mount io dev s = (Ok ms, s') \<Longrightarrow> mg_mounted (mn_guard ms)"
  by (auto simp: flow_mount_def result_simps dest: mount_opens split: prod.splits)

text \<open>A mount that is dropped again before the next step.\<close>

lemma dropped_mount_leaves:
  assumes "flow_mount io dev s = (Ok ms, t)"
    and "flow_bind (emit (guard_events (mn_guard ms))) (\<lambda>_. m) t = (r, s')" and "leaves P m"
  shows "\<exists>evs. fl_events s' = fl_events s @ evs \<and> balance (case r of Inl _ \<Rightarrow> [] | Inr x \<Rightarrow> P x) evs"
proof -
  obtain a where a: "fl_events t = fl_events s @ a" "balance [mg_target (mn_guard ms)] a"
    using leaves_cases [OF flow_mount_leaves assms(1)] by auto
  have g: "balance [] (a @ guard_events (mn_guard ms))"
    using balance_guard a(2) flow_mount_Ok assms(1) by blast
  define t' where "t' = t \<lparr>fl_events := fl_events t @ guard_events (mn_guard ms)\<rparr>"
  have "m t' = (r, s')" using assms(2) by (simp add: flow_bind_def emit_def t'_def)
  then obtain b where b: "fl_events s' = fl_events t' @ b" "balance (case r of Inl _ \<Rightarrow> [] | Inr x \<Rightarrow> P x) b"
    using leaves_cases [OF assms(3)] by blast
  show ?thesis
    using balance_append [OF g b(2)] b(1) a(1) by (intro exI [of _ "a @ guard_events (mn_guard ms) @ b"]) (simp add: t'_def)
qed

lemma bind_candidate_leaves:
  "leaves (\<lambda>(_, g, _). [mg_target g])
     (bind_candidate E io pattern user devs env disc :: ('w, usb_device \<times> mount_guard \<times> discovered_creds) flow)"
proof (induction devs arbitrary: env disc)
  case Nil
  then show ?case by (simp add: leaves_fail)
next
  case (Cons candidate rest)
  show ?case
    unfolding leaves_def
  proof (intro allI impI)
    fix s :: "'w flow_state" and r s'
    assume run: "bind_candidate E io pattern user (candidate # rest) env disc s = (r, s')"
    obtain q t where m: "flow_mount io candidate s = (q, t)" by fastforce
    show "\<exists>evs. fl_events s' = fl_events s @ evs
        \<and> balance (case r of Inl _ \<Rightarrow> [] | Inr x \<Rightarrow> (case x of (_, g, _) \<Rightarrow> [mg_target g])) evs"
    proof (cases q)
      case (Inl e)
      obtain evs where "fl_events t = fl_events s @ evs" "balance [] evs"
        by (rule leaves_cases [OF flow_mount_leaves m]) (simp add: Inl)
      with run m Inl show ?thesis by (auto simp: flow_bind_def)
    next
      case (Inr ms)
      note D = dropped_mount_leaves [OF m [unfolded Inr]]
      show ?thesis
      proof (cases "io_discover io (mn_mountpoint ms) pattern user")
        case (Inl e)
        define m' :: "('w, usb_device \<times> mount_guard \<times> discovered_creds) flow" where "m' = (case e of
            P12NotFound path \<Rightarrow> bind_candidate E io pattern user rest env (Some (P12NotFound path))
          | _ \<Rightarrow> flow_lift (Err (FlowDiscovery e)))"
        have "flow_bind (emit (guard_events (mn_guard ms))) (\<lambda>_. m') t = (r, s')"
          using run m Inr Inl by (cases e) (simp_all add: flow_bind_def [of "flow_mount io candidate"] Let_def m'_def)
        moreover have "leaves (\<lambda>(_, g, _). [mg_target g]) m'"
          by (cases e) (simp_all add: m'_def leaves_fail Cons.IH)
        ultimately show ?thesis by (rule D)
      next
        case (Inr creds)
        obtain evs where e: "fl_events t = fl_events s @ evs" "balance [mg_target (mn_guard ms)] evs"
          by (rule leaves_cases [OF flow_mount_leaves m]) (simp add: \<open>q = Ok ms\<close>)
        show ?thesis
        proof (cases "validate_p12_envelope (pt_p12 E) (dc_p12_bytes creds)")
          case (Inl x)
          with run m \<open>q = Ok ms\<close> Inr have
            "flow_bind (emit (guard_events (mn_guard ms))) (\<lambda>_. bind_candidate E io pattern user rest (Some x) disc) t = (r, s')"
            by (simp add: flow_bind_def [of "flow_mount io candidate"] Let_def)
          from D [OF this Cons.IH] show ?thesis .
        next
          case (Inr u)
          with run m \<open>q = Ok ms\<close> \<open>io_discover io (mn_mountpoint ms) pattern user = Ok creds\<close>
          have "r = Ok (candidate, mn_guard ms, creds)" "s' = t"
            by (simp_all add: flow_bind_def Let_def flow_return_def)
          with e show ?thesis by auto
        qed
      qed
    qed
  qed
qed

lemma authenticate_pkcs12_leaves:
  "leaves (\<lambda>out. case fo_mount out of None \<Rightarrow> [] | Some g \<Rightarrow> [mg_target g])
     (authenticate_pkcs12 E D io user service sid)"
proof -
  let ?P = "\<lambda>out. case fo_mount out of None \<Rightarrow> [] | Some g \<Rightarrow> [mg_target g]"
  let ?rest = "\<lambda>bound. drop_on_error (guard_events (fst (snd bound))) (authenticate_bound E D user service sid bound)"
  have c: "leaves ?P (flow_bind (bind_candidate E io pattern user devs None None) ?rest)" for pattern devs
    unfolding leaves_def
  proof (intro allI impI)
    fix s r s'
    assume run: "flow_bind (bind_candidate E io pattern user devs None None) ?rest s = (r, s')"
    obtain q t where b: "bind_candidate E io pattern user devs None None s = (q, t)" by fastforce
    show "\<exists>evs. fl_events s' = fl_events s @ evs \<and> balance (case r of Inl _ \<Rightarrow> [] | Inr x \<Rightarrow> ?P x) evs"
    proof (cases q)
      case (Inl e)
      obtain evs where "fl_events t = fl_events s @ evs" "balance [] evs"
        by (rule leaves_cases [OF bind_candidate_leaves b]) (simp add: Inl)
      with run b Inl show ?thesis by (auto simp: flow_bind_def)
    next
      case (Inr bound)
      obtain dev g creds where bd: "bound = (dev, g, creds)" by (cases bound)
      obtain a where a: "fl_events t = fl_events s @ a" "balance [mg_target g] a"
        by (rule leaves_cases [OF bind_candidate_leaves b]) (simp add: Inr bd)
      have g: "mg_mounted g" using bind_candidate_Ok b Inr bd flow_mount_Ok by blast
      obtain r2 t2 where c: "authenticate_bound E D user service sid bound t = (r2, t2)" by fastforce
      obtain e where e: "fl_events t2 = fl_events t @ e" "balance [] e"
        by (rule leaves_none_cases [OF leaves_authenticate_bound c])
      have ae: "balance [mg_target g] (a @ e)" using balance_append [OF a(2) e(2)] by simp
      have d: "?rest bound t = (r, s')" using run b Inr by (simp add: flow_bind_def)
      show ?thesis
      proof (cases r2)
        case (Inl x)
        with d c bd have "r = Err x" "fl_events s' = fl_events s @ ((a @ e) @ guard_events g)"
          using a(1) e(1) by (auto simp: drop_on_error_def emit_def)
        with balance_guard [OF ae g] show ?thesis by auto
      next
        case (Inr out)
        with d c bd have "r = Ok out" "s' = t2" by (auto simp: drop_on_error_def)
        moreover have "fo_mount out = Some g" using authenticate_bound_Ok [of E D user service sid bound t out t2] c Inr bd by auto
        ultimately show ?thesis using ae a(1) e(1) by auto
      qed
    qed
  qed
  show ?thesis
    unfolding authenticate_pkcs12_def Let_def
    by (rule leaves_bind [OF leaves_basic(4)], rule leaves_bind [OF leaves_basic(1)], rule c)
qed

lemma authenticate_leaves:
  "leaves (\<lambda>out. case fo_mount out of None \<Rightarrow> [] | Some g \<Rightarrow> [mg_target g])
     (authenticate E D io token_io user service sid)"
proof -
  let ?P = "\<lambda>out. case fo_mount out of None \<Rightarrow> [] | Some g \<Rightarrow> [mg_target g]"
  have "leaves ?P (authenticate_pkcs11 E D pio user service sid)" for pio
    unfolding leaves_def
  proof (intro allI impI)
    fix s r s'
    assume run: "authenticate_pkcs11 E D pio user service sid s = (r, s')"
    obtain evs where "fl_events s' = fl_events s @ evs" "balance [] evs"
      by (rule leaves_none_cases [OF leaves_pkcs11 run])
    moreover have "fo_mount out = None" if "r = Ok out" for out
      using run that by (auto simp: authenticate_pkcs11_def result_simps split: prod.splits)
    ultimately show "\<exists>evs. fl_events s' = fl_events s @ evs \<and> balance (case r of Inl _ \<Rightarrow> [] | Inr x \<Rightarrow> ?P x) evs"
      by (cases r) auto
  qed
  then show ?thesis
    unfolding authenticate_def
    by (auto intro!: leaves_bind leaves_intros authenticate_pkcs12_leaves leaves_fail
        split: auth_mode.splits crypto_backend.splits)
qed

end

lemma real_mount_medium: "flow_medium (real_flow_io M F base sid usb)"
proof
  fix dev seq ms seq' evs
  assume "io_mount (real_flow_io M F base sid usb) dev seq = (Ok ms, seq', evs)"
  then obtain target where "mount_usb_device M dev target = Ok (mn_guard ms)" "evs = [MadeDir target, Mounted target]"
    by (auto simp: real_flow_io_def real_mount_def Let_def split: sum.splits)
  with mount_usb_device_Ok(2) [of M dev target "mn_guard ms"] show "balance [mg_target (mn_guard ms)] evs \<and> mg_mounted (mn_guard ms)"
    by (auto simp: balance_def guard_adopt_def)
next
  fix dev seq e seq' evs
  assume "io_mount (real_flow_io M F base sid usb) dev seq = (Err e, seq', evs)"
  then show "balance [] evs"
    by (auto simp: real_flow_io_def real_mount_def Let_def balance_def split: sum.splits)
qed

interpretation real_medium: flow_medium "real_flow_io M F base sid usb" for M F base sid usb
  by (rule real_mount_medium)

text \<open>
  The guards do their work. An authentication that fails, also by a panic, has requested the unmount
  of every partition it mounted, so that only those stay mounted whose unmount failed; one that
  succeeds has left besides these exactly the mount whose guard it returns, and none when it used a
  token.
\<close>

theorem mounts_balanced:
  assumes "authenticate E D (real_flow_io M F base sid usb) token_io user service sid s = (r, s')"
  shows "\<exists>evs. fl_events s' = fl_events s @ evs \<and> (\<forall>umount_ok. mset (still_mounted umount_ok 0 [] evs) =
    mset (case r of Inr out \<Rightarrow> (case fo_mount out of None \<Rightarrow> [] | Some g \<Rightarrow> [mg_target g]) | Inl _ \<Rightarrow> [])
    + mset (failed_umounts umount_ok 0 evs))"
  using leaves_cases [OF real_medium.authenticate_leaves assms] balance_left(1) by metis

text \<open>A directory made for a mount that then fails is not removed again.\<close>

lemma failed_mount_leaves_directory:
  assumes "real_mount M base sid dev seq = (Err e, seq', evs)" and "evs \<noteq> []"
  shows "\<exists>target. evs = [MadeDir target] \<and> Cleaned (Rmdir target) \<notin> set evs"
  using assms by (auto simp: real_mount_def Let_def split: sum.splits)

section \<open>What the result depends on\<close>

lemma fst_bind_cong:
  "(\<And>x t. fst (f x t) = fst (g x t)) \<Longrightarrow> fst (flow_bind m f s) = fst (flow_bind m g s)"
  by (auto simp: flow_bind_def split: prod.splits sum.splits)

lemma fst_drop_cong: "fst (m s) = fst (n s) \<Longrightarrow> fst (drop_on_error evs m s) = fst (drop_on_error evs n s)"
  by (cases "m s"; cases "n s") (auto simp: drop_on_error_def split: sum.splits)

lemma fst_notify: "fst (flow_bind (notify_monitor D i) (\<lambda>_. flow_return x) s) = Ok x"
  by (simp add: flow_bind_def notify_monitor_def flow_return_def)

text \<open>The steps before the notification do not look at the monitor.\<close>

lemma monitor_unused_base:
  "flow_hooks (D\<lparr>dp_monitor := m\<rparr>) = flow_hooks D"
  "pre_auth_vars (D\<lparr>dp_monitor := m\<rparr>) = pre_auth_vars D"
  "flow_verify E (D\<lparr>dp_monitor := m\<rparr>) = flow_verify E D"
  "flow_challenge E (D\<lparr>dp_monitor := m\<rparr>) = flow_challenge E D"
  "authorise_user E (D\<lparr>dp_monitor := m\<rparr>) = authorise_user E D"
  "make_auth_context E (D\<lparr>dp_monitor := m\<rparr>) = make_auth_context E D"
  by (intro ext; simp add: flow_hooks_def pre_auth_vars_def flow_verify_def flow_challenge_def
      authorise_user_def make_auth_context_def)+

lemma monitor_unused_prefix: "hash_prefix (D\<lparr>dp_monitor := m\<rparr>) = hash_prefix D"
  by (simp add: hash_prefix_def)

lemma monitor_unused_steps:
  "check_host_binding E (D\<lparr>dp_monitor := m\<rparr>) = check_host_binding E D"
  "authenticate_session E (D\<lparr>dp_monitor := m\<rparr>) = authenticate_session E D"
  by (intro ext, simp add: check_host_binding_def monitor_unused_prefix split: sum.split host_binding_error.split)
    (intro ext, simp add: authenticate_session_def monitor_unused_base)

lemmas monitor_unused = monitor_unused_base monitor_unused_prefix monitor_unused_steps

lemma authenticate_bound_monitor:
  "fst (authenticate_bound E (D\<lparr>dp_monitor := m\<rparr>) u v w bound s) = fst (authenticate_bound E D u v w bound s)"
  unfolding authenticate_bound_def Let_def monitor_unused
  by (cases bound) (simp, intro fst_bind_cong, simp add: fst_notify)

lemma authenticate_pkcs12_monitor:
  "fst (authenticate_pkcs12 E (D\<lparr>dp_monitor := m\<rparr>) io u v w s) = fst (authenticate_pkcs12 E D io u v w s)"
  unfolding authenticate_pkcs12_def Let_def monitor_unused
  by (simp, intro fst_bind_cong fst_drop_cong authenticate_bound_monitor)

lemma authenticate_pkcs11_monitor:
  "fst (authenticate_pkcs11 E (D\<lparr>dp_monitor := m\<rparr>) io u v w s) = fst (authenticate_pkcs11 E D io u v w s)"
  unfolding authenticate_pkcs11_def Let_def monitor_unused
  by (intro fst_bind_cong) (auto simp: fst_notify intro!: fst_bind_cong split: prod.splits)


text \<open>
  A failed authentication is reported as a failure: every error has one of the five documented
  codes and none of them is success; the user is told that the tries are used up for exactly
  the exhausted PIN loops and a locked token.
\<close>

theorem pam_code_refuses:
  "pam_code e \<in> {4, 6, 7, 8, 9}
   \<and> (pam_code e = 8) = (e = FlowMaxTries \<or> e = FlowPkcs11Acquire TokPinLocked \<or> e = FlowPkcs11Acquire TokMaxAttemptsExceeded)"
  by (cases e) (auto simp: pam_code_def)

text \<open>
  A certificate whose user extension is broken is not refused for it: the configured mapping
  decides, as for a certificate that has no such extension.
\<close>

theorem broken_user_binding_falls_back:
  assumes "user_binding_parse (pt_crypto E) (cert_inner cert) = Err e"
  shows "is_ok (authorise_user E D cert user) = is_ok (match_user cert user (dp_user_mappings D))"
  using assms by (cases "match_user cert user (dp_user_mappings D)") (simp_all add: authorise_user_def)

section \<open>A concrete run\<close>

definition demo_platform :: platform where
  "demo_platform = \<lparr>pt_crypto = demo_x509_crypto, pt_gost = demo_gost, pt_p12 = demo_p12_locked, pt_sig = demo_sig_lib,
     pt_host = \<lparr>hl_hash = (\<lambda>_ _. Err ''none''), hl_ecdsa_der = (\<lambda>_ _. Err ''none'')\<rparr>,
     pt_nss = \<lparr>ns_user = (\<lambda>_. Ok None), ns_groups = (\<lambda>_ _. Ok [])\<rparr>,
     pt_stack_from_pem = (\<lambda>_. Ok []), pt_hex_encode = (\<lambda>bs. concat (map hex02 bs)), pt_now = 86400\<rparr>"

definition demo_deps :: "unit deps" where
  "demo_deps = \<lparr>dp_cfg = demo_config, dp_trust = demo_verifier, dp_monitor = (\<lambda>_ w. (Err IpcUnavailable, w)),
     dp_hook_executor = (\<lambda>_ _ w. (Err (CommandUnusable ''none''), w)), dp_host_id_hash = ''00ff'',
     dp_host_id_source = MachineId, dp_user_mappings = [], dp_pam_target = UnknownTarget\<rparr>"

definition demo_state :: "unit flow_state" where
  "demo_state = \<lparr>fl_world = (), fl_lock = None, fl_answers = [Ok ''1''], fl_seq = 0, fl_events = []\<rparr>"

definition demo_stick :: usb_device where
  "demo_stick = \<lparr>dev_devnode = ''/dev/sdb1'', dev_serial = None, dev_vid = 1, dev_pid = 2, dev_fs_type = Some ''vfat''\<rparr>"

definition demo_mounts :: mount_sys where
  "demo_mounts = \<lparr>my_exists = (\<lambda>_. True), my_mount = (\<lambda>_ _ _ _. Ok ()), my_create_dir_all = (\<lambda>_. Ok ())\<rparr>"

definition demo_empty_files :: file_system where
  "demo_empty_files = \<lparr>fs_is_file = (\<lambda>_. False), fs_len = (\<lambda>_. Err ''ENOENT''), fs_read = (\<lambda>_. Err ''ENOENT'')\<rparr>"

lemma try_from_raw_pattern:
  "try_from_raw astra_mac F raw = Ok cfg \<Longrightarrow> rc_pkcs12_path_pattern raw = None \<Longrightarrow> vf_pkcs12_path_pattern cfg = None"
  by (auto simp: try_from_raw_def result_simps validate_pkcs12_path_pattern_def)

lemma demo_flow_run:
  "authenticate demo_platform demo_deps (real_flow_io demo_mounts demo_empty_files ''/m'' ''s'' (Some (Ok [demo_stick])))
     (real_pkcs11_io demo_provider (\<lambda>_ t. (Ok (), t)) None (dp_cfg demo_deps)) ''ann'' ''login'' ''s'' demo_state =
   (Err (FlowDiscovery (P12NotFound ''certs/user.p12'')), demo_state \<lparr>fl_seq := 1, fl_events :=
      [Shown (Banner ''00ff'' MachineId), MadeDir ''/m/s'', Mounted ''/m/s'', Cleaned (Umount ''/m/s''), Cleaned (Rmdir ''/m/s'')]\<rparr>)"
proof -
  have p: "vf_pkcs12_path_pattern demo_config = None"
    by (rule try_from_raw_pattern [OF demo_config_Ok]) (simp add: demo_raw_def)
  have e: "expand_user ''certs/user.p12'' ''ann'' = ''certs/user.p12''" by (simp add: expand_user_def str_replace.simps)
  have "select_fs_type demo_stick = Ok ''vfat''" by (simp add: select_fs_type_def demo_stick_def)
  then have m: "mount_usb_device demo_mounts demo_stick ''/m/s'' = Ok (guard_adopt ''/m/s'')"
    by (simp add: mount_usb_device_def nix_mount_def ALLOWED_FS_def) (simp add: demo_mounts_def)
  have j: "path_join ''/m'' ''s'' = ''/m/s''" by (simp add: path_join_def)
  have "my_create_dir_all demo_mounts ''/m/s'' = Ok ()" by (simp add: demo_mounts_def)
  then have r: "real_mount demo_mounts ''/m'' ''s'' demo_stick 0 =
      (Ok \<lparr>mn_mountpoint = ''/m/s'', mn_guard = guard_adopt ''/m/s''\<rparr>, 1, [MadeDir ''/m/s'', Mounted ''/m/s''])"
    by (simp add: real_mount_def j m Let_def)
  have d: "discover_credentials demo_empty_files mp ''certs/user.p12'' ''ann'' = Err (P12NotFound ''certs/user.p12'')" for mp
    by (simp add: discover_credentials_def e Let_def) (simp add: demo_empty_files_def)
  have w: "demo_state = \<lparr>fl_world = (), fl_lock = None, fl_answers = [Ok ''1''], fl_seq = 0, fl_events = []\<rparr>"
    by (simp add: demo_state_def)
  show ?thesis
    unfolding w
    by (simp add: authenticate_def hash_prefix_def demo_deps_def flow_bind_def flow_lift_def show_info_def emit_def
        is_char_boundary_def demo_config_simple authenticate_pkcs12_def flow_hooks_def run_hooks_for_stage_def p
        DEFAULT_PKCS12_PATH_PATTERN_def flow_mount_def real_flow_io_def r d Let_def waited_def guard_events_def
        guard_drop_def guard_adopt_def)
qed

theorem authenticate_pins_witness:
  "\<exists>used. fl_answers demo_state = used @ [Ok ''1''] \<and> length used \<le> 3"
proof -
  have "try_from_raw False demo_fs demo_raw = Ok (dp_cfg demo_deps)" using demo_config_Ok by (simp add: demo_deps_def)
  from authenticate_pins [OF this demo_flow_run] show ?thesis
    by (auto simp: demo_deps_def demo_config_simple demo_state_def)
qed

theorem mounts_balanced_witness:
  "\<exists>evs. [Shown (Banner ''00ff'' MachineId), MadeDir ''/m/s'', Mounted ''/m/s'', Cleaned (Umount ''/m/s''),
       Cleaned (Rmdir ''/m/s'')] = [] @ evs \<and> mset (still_mounted (\<lambda>_. False) 0 [] evs) = {#''/m/s''#}"
proof -
  let ?evs = "[Shown (Banner ''00ff'' MachineId), MadeDir ''/m/s'', Mounted ''/m/s'', Cleaned (Umount ''/m/s''), Cleaned (Rmdir ''/m/s'')]"
  have "mset (still_mounted (\<lambda>_. False) 0 [] ?evs) = mset [] + mset (failed_umounts (\<lambda>_. False) 0 ?evs)"
    using mounts_balanced [OF demo_flow_run] unfolding demo_state_def by simp
  then show ?thesis by (intro exI [of _ ?evs]) simp
qed

theorem broken_user_binding_falls_back_witness:
  "\<not> is_ok (authorise_user demo_platform demo_deps demo_leaf ''ann'')"
proof -
  have "user_binding_parse (pt_crypto demo_platform) (cert_inner demo_leaf) = Err (UserExtMalformed (der_error_to_string e))"
    if "extract_extension_by_oid demo_x509_crypto (cert_der_cache demo_leaf) USER_BINDING_OID = Err e" for e
    using that by (simp add: user_binding_parse_def demo_platform_def demo_leaf_def demo_cert_def Let_def)
  moreover have "\<exists>e. extract_extension_by_oid demo_x509_crypto (cert_der_cache demo_leaf) USER_BINDING_OID = Err e"
    by (simp add: extract_extension_by_oid_def demo_x509_crypto_def)
  ultimately obtain e where "user_binding_parse (pt_crypto demo_platform) (cert_inner demo_leaf) = Err e" by blast
  from broken_user_binding_falls_back [OF this, of demo_deps "''ann''"] show ?thesis
    by (simp add: demo_deps_def match_user_def)
qed

end
