(* ===== verification/Pam_Module.thy ===== *)
theory Pam_Module
  imports Auth_Flow
begin

text \<open>
  The boundary of the PAM module: reading the handle (\<open>pam_helpers.rs\<close>, \<open>pam_conv.rs\<close>,
  \<open>data_handle.rs\<close>), the arguments (\<open>entry.rs\<close>, \<open>pam_args.rs\<close>), the five entry points
  (\<open>entry.rs\<close>), the session phase (\<open>session.rs\<close>, \<open>xdg_capture.rs\<close>) and the guard against panics
  (\<open>panic_guard.rs\<close>). The handle is a record of what libpam answers; a C string is its bytes, a null
  pointer is \<open>None\<close>. A call that does not return, because the machine's identity or a medium is still
  waited for, is \<open>None\<close>.
\<close>

section \<open>The handle\<close>

datatype pam_helper_error = PamRc int | PamNull | PamNonUtf8

record pam_handle =
  ph_user :: "int \<times> bytes option"
  ph_service :: "int \<times> bytes option"
  ph_tty :: "int \<times> bytes option"
  ph_env :: "string \<Rightarrow> bytes option"
  ph_set_data_rc :: int
  ph_data :: "auth_context option"

definition cstr_to_str :: "bytes \<Rightarrow> (pam_helper_error, string) result" where
  "cstr_to_str b = ok_or PamNonUtf8 (from_utf8 b)"

definition pam_string :: "int \<times> bytes option \<Rightarrow> (pam_helper_error, string) result" where
  "pam_string item =
     and_then (ensure (fst item = 0) (PamRc (fst item))) (\<lambda>_.
     and_then (ok_or PamNull (snd item)) cstr_to_str)"

definition pam_get_user_string :: "pam_handle \<Rightarrow> (pam_helper_error, string) result" where
  "pam_get_user_string H = pam_string (ph_user H)"

definition pam_get_service_string :: "pam_handle \<Rightarrow> (pam_helper_error, string) result" where
  "pam_get_service_string H = pam_string (ph_service H)"

definition non_empty_string :: "bytes option \<Rightarrow> (pam_helper_error, string option) result" where
  "non_empty_string p =
     (case p of
        None \<Rightarrow> Ok None
      | Some b \<Rightarrow> and_then (cstr_to_str b) (\<lambda>s. Ok (if s = [] then None else Some s)))"

definition pam_get_tty_string :: "pam_handle \<Rightarrow> (pam_helper_error, string option) result" where
  "pam_get_tty_string H =
     and_then (ensure (fst (ph_tty H) = 0) (PamRc (fst (ph_tty H)))) (\<lambda>_. non_empty_string (snd (ph_tty H)))"

definition pam_get_env_string :: "pam_handle \<Rightarrow> string \<Rightarrow> (pam_helper_error, string option) result" where
  "pam_get_env_string H name =
     and_then (ensure (\<not> has_nul name) (PamRc (- 1))) (\<lambda>_. non_empty_string (ph_env H name))"

definition set_auth_context :: "pam_handle \<Rightarrow> auth_context \<Rightarrow> (pam_helper_error, unit) result \<times> pam_handle" where
  "set_auth_context H ctx =
     (if ph_set_data_rc H = 0 then (Ok (), H \<lparr>ph_data := Some ctx\<rparr>)
      else (Err (PamRc (ph_set_data_rc H)), H))"

definition get_auth_context :: "pam_handle \<Rightarrow> auth_context option" where
  "get_auth_context H = ph_data H"

section \<open>The conversation\<close>

text \<open>
  The conversation item (absent, or without a function) and the reply of the callback: its code, the
  response array with its address, and the buffer with the answer. What is done to the memory is the
  list of operations.
\<close>

datatype mem_op = Wipe nat nat | Free nat

record conv_reply =
  cv_rc :: int
  cv_resp :: "(nat \<times> (nat \<times> bytes) option) option"

definition prompt_pin ::
  "int \<times> (string \<Rightarrow> conv_reply) option option \<Rightarrow> string \<Rightarrow> (pam_conv_error, string) result \<times> mem_op list" where
  "prompt_pin item prompt =
     (case item of (rc, conv) \<Rightarrow>
      case (if rc \<noteq> 0 then None else conv) of
        None \<Rightarrow> (Err NoConv, [])
      | Some None \<Rightarrow> (Err NoConv, [])
      | Some (Some conv_fn) \<Rightarrow>
          if has_nul prompt then (Err ConvFailed, [])
          else let reply = conv_fn prompt in
            (case (if cv_rc reply \<noteq> 0 then None else cv_resp reply) of
               None \<Rightarrow> (Err ConvFailed, [])
             | Some (arr, None) \<Rightarrow> (Err ConvFailed, [Free arr])
             | Some (arr, Some (buf, pin)) \<Rightarrow>
                 (ok_or NonUtf8 (from_utf8 pin),
                  (if length pin > 0 then [Wipe buf (length pin)] else []) @ [Free buf, Free arr])))"

definition conv_show_info ::
  "int \<times> (string \<Rightarrow> conv_reply) option option \<Rightarrow> string \<Rightarrow> (pam_conv_error, unit) result \<times> mem_op list" where
  "conv_show_info item msg =
     (case item of (rc, conv) \<Rightarrow>
      case (if rc \<noteq> 0 then None else conv) of
        None \<Rightarrow> (Err NoConv, [])
      | Some None \<Rightarrow> (Err NoConv, [])
      | Some (Some conv_fn) \<Rightarrow>
          if has_nul msg then (Err ConvFailed, [])
          else let reply = conv_fn msg in
            (ensure (cv_rc reply = 0) ConvFailed,
             case cv_resp reply of
               None \<Rightarrow> []
             | Some (arr, None) \<Rightarrow> [Free arr]
             | Some (arr, Some (buf, _)) \<Rightarrow> [Free buf, Free arr]))"

section \<open>Arguments\<close>

text \<open>The argument vector: \<open>None\<close> is a null pointer, the text is the lossy decoding of the C string.\<close>

definition collect_args :: "host_sys \<Rightarrow> bytes option list \<Rightarrow> (string, string) btree" where
  "collect_args S argv =
     fold (\<lambda>arg m. case arg of
         None \<Rightarrow> m
       | Some b \<Rightarrow> (case split_once (CHR ''='') (hs_lossy S b) of
             None \<Rightarrow> m | Some (k, v) \<Rightarrow> btree_insert k v m)) argv []"

definition config_path_from_args :: "(string, string) btree \<Rightarrow> string" where
  "config_path_from_args args =
     (case map_of args ''config'' of None \<Rightarrow> ''/etc/pam_certauth/config.toml'' | Some p \<Rightarrow> p)"

record parsed_pam_args =
  pa_config_path :: "string option"
  pa_extra :: "(string, string) btree"

definition parse_pam_args :: "string list \<Rightarrow> parsed_pam_args" where
  "parse_pam_args args =
     fold (\<lambda>raw out. case split_once (CHR ''='') raw of
         None \<Rightarrow> out
       | Some (k, v) \<Rightarrow>
           if k = ''config'' then out \<lparr>pa_config_path := Some v\<rparr>
           else out \<lparr>pa_extra := btree_insert k v (pa_extra out)\<rparr>)
       args \<lparr>pa_config_path = None, pa_extra = []\<rparr>"

definition parse_pam_tty :: "string option \<Rightarrow> session_target" where
  "parse_pam_tty tty =
     (case tty of
        None \<Rightarrow> UnknownTarget
      | Some s \<Rightarrow> if starts_with '':'' s then Display s else Tty s)"

definition fresh_session_id :: "(bytes \<Rightarrow> string) \<Rightarrow> (string, bytes) result \<Rightarrow> (string, string) result" where
  "fresh_session_id hex_encode random =
     and_then (map_err (\<lambda>e. ''SysRng: '' @ e) random) (\<lambda>buf. Ok (''sess-'' @ hex_encode buf))"

section \<open>The environment of the module\<close>

datatype load_error = ConfigUnreadable string | ConfigUnparsable string string | ConfigRejected config_error

definition load_validated_config ::
  "bool \<Rightarrow> config_fs \<Rightarrow> (string \<Rightarrow> (string, raw_config) result) \<Rightarrow> string \<Rightarrow> (load_error, validated_config) result" where
  "load_validated_config astra_mac F from_toml path =
     and_then (ok_or (ConfigUnreadable path) (cs_read_to_string F path)) (\<lambda>text.
     and_then (map_err (ConfigUnparsable path) (from_toml text)) (\<lambda>raw.
     map_err ConfigRejected (try_from_raw astra_mac F raw)))"

record 'w module_env =
  mv_platform :: platform
  mv_astra_mac :: bool
  mv_config_fs :: config_fs
  mv_from_toml :: "string \<Rightarrow> (string, raw_config) result"
  mv_provider :: provider
  mv_load_panics :: "string \<Rightarrow> string option option"
  mv_login :: "string \<Rightarrow> 'w \<Rightarrow> (ck_error, unit) result \<times> 'w"
  mv_wait_token :: "nat \<Rightarrow> string option \<Rightarrow> (pkcs11_error, slot) result option"
  mv_host_sys :: host_sys
  mv_read :: "string \<Rightarrow> (string, bytes) result"
  mv_hex_decode :: "string \<Rightarrow> bytes option"
  mv_client :: client
  mv_stream :: "string \<Rightarrow> nat \<Rightarrow> 'w stream"
  mv_uuid :: uuid_lib
  mv_executor :: "'w executor"
  mv_wait_usb :: "nat \<Rightarrow> nat \<Rightarrow> (usb_error, usb_device list) result option"
  mv_mount_sys :: mount_sys
  mv_file_system :: file_system
  mv_random :: "(string, bytes) result"
  mv_libpdp :: libpdp

text \<open>The first step of every entry point that reads the configuration.\<close>

definition module_config :: "'w module_env \<Rightarrow> bytes option list \<Rightarrow> (load_error, validated_config) result" where
  "module_config V argv =
     load_validated_config (mv_astra_mac V) (mv_config_fs V) (mv_from_toml V)
       (config_path_from_args (collect_args (mv_host_sys V) argv))"

definition PAM_SUCCESS :: int where "PAM_SUCCESS = 0"
definition PAM_SYSTEM_ERR :: int where "PAM_SYSTEM_ERR = 4"
definition PAM_AUTHINFO_UNAVAIL :: int where "PAM_AUTHINFO_UNAVAIL = 9"
definition PAM_ACCT_EXPIRED :: int where "PAM_ACCT_EXPIRED = 13"

text \<open>\<open>run_pam\<close>: a body that panics (\<open>None\<close>) answers that the information is unavailable.\<close>

definition run_pam :: "int option \<Rightarrow> int" where
  "run_pam body = (case body of Some rc \<Rightarrow> rc | None \<Rightarrow> PAM_AUTHINFO_UNAVAIL)"

definition monitor_stream :: "'w module_env \<Rightarrow> validated_config \<Rightarrow> 'w stream" where
  "monitor_stream V cfg = mv_stream V (mn_socket_path (vf_monitor cfg)) (mn_timeout_ms (vf_monitor cfg))"

definition wired_monitor ::
  "'w module_env \<Rightarrow> wired \<Rightarrow> open_session_info \<Rightarrow> 'w \<Rightarrow> (ipc_error, unit) result \<times> 'w" where
  "wired_monitor V w i world =
     apply_mode (wd_fail_mode w)
       (call_open_session (mv_client V) (mv_stream V (wd_socket_path w) (wd_timeout_ms w)) (mv_uuid V)
          (pt_now (mv_platform V)) i world)"

section \<open>Authentication\<close>

definition wired_deps ::
  "'w module_env \<Rightarrow> wired \<Rightarrow> host_id_source_kind \<Rightarrow> string \<Rightarrow> session_target \<Rightarrow> 'w deps" where
  "wired_deps V w source hash target =
     \<lparr>dp_cfg = wd_cfg w, dp_trust = wd_trust w, dp_monitor = wired_monitor V w,
      dp_hook_executor = mv_executor V, dp_host_id_hash = hash, dp_host_id_source = source,
      dp_user_mappings = vf_user_mappings (wd_cfg w), dp_pam_target = target\<rparr>"

text \<open>Step 9: the outcome of the flow. The guard is dropped whether the context could be stored or not.\<close>

definition finish_authenticate ::
  "pam_handle \<Rightarrow> (flow_error, flow_outcome) result \<times> 'w flow_state \<Rightarrow> (int \<times> pam_handle \<times> 'w flow_state) option" where
  "finish_authenticate H outcome =
     (case outcome of
        (Inl FlowWaiting, _) \<Rightarrow> None
      | (Inl FlowPanicked, s) \<Rightarrow> Some (run_pam None, H, s)
      | (Inl e, s) \<Rightarrow> Some (run_pam (Some (pam_code e)), H, s)
      | (Inr out, s) \<Rightarrow>
          (let dropped = snd (emit (case fo_mount out of None \<Rightarrow> [] | Some g \<Rightarrow> guard_events g) s)
           in (case set_auth_context H (fo_auth_ctx out) of
                 (Inl _, H') \<Rightarrow> Some (run_pam (Some PAM_SYSTEM_ERR), H', dropped)
               | (Inr _, H') \<Rightarrow> Some (run_pam (Some PAM_SUCCESS), H', dropped))))"

definition run_flow ::
  "'w module_env \<Rightarrow> wired \<Rightarrow> host_id_source_kind \<Rightarrow> string \<Rightarrow> session_target \<Rightarrow> string \<Rightarrow> string \<Rightarrow> string \<Rightarrow>
   ('w, flow_outcome) flow" where
  "run_flow V w source hash target pam_user pam_service session_id =
     (let cfg = wd_cfg w in
      authenticate (mv_platform V) (wired_deps V w source hash target)
        (real_flow_io (mv_mount_sys V) (mv_file_system V) ''/run/pam_certauth/mounts'' session_id
           (mv_wait_usb V (vf_usb_wait cfg) (unat (vf_max_usb_partitions cfg))))
        (real_pkcs11_io (mv_provider V) (mv_login V)
           (mv_wait_token V (vf_pkcs11_slot_wait cfg) (vf_pkcs11_token_label cfg)) cfg)
        pam_user pam_service session_id)"

definition authenticate_configured ::
  "'w module_env \<Rightarrow> pam_handle \<Rightarrow> validated_config \<Rightarrow> 'w flow_state \<Rightarrow> (int \<times> pam_handle \<times> 'w flow_state) option" where
  "authenticate_configured V H cfg s =
     (case pam_get_user_string H of
        Inl _ \<Rightarrow> Some (run_pam (Some PAM_AUTH_ERR), H, s)
      | Inr pam_user \<Rightarrow>
          (let pam_service = (case pam_get_service_string H of Inr x \<Rightarrow> x | Inl _ \<Rightarrow> ''unknown'');
               target = parse_pam_tty (case pam_get_tty_string H of Inr t \<Rightarrow> t | Inl _ \<Rightarrow> None)
           in case resolve_host_identity (pt_crypto (mv_platform V)) (mv_host_sys V) (vf_host_identity cfg) of
                None \<Rightarrow> None
              | Some (Inl _) \<Rightarrow> Some (run_pam (Some PAM_AUTHINFO_UNAVAIL), H, s)
              | Some (Inr (source, _, hash)) \<Rightarrow>
                  (case wire (pt_crypto (mv_platform V)) (mv_read V) (mv_hex_decode V) cfg of
                     Inl _ \<Rightarrow> Some (run_pam (Some PAM_AUTHINFO_UNAVAIL), H, s)
                   | Inr w \<Rightarrow>
                       (case fresh_session_id (pt_hex_encode (mv_platform V)) (mv_random V) of
                          Inl _ \<Rightarrow> Some (run_pam (Some PAM_AUTHINFO_UNAVAIL), H, s)
                        | Inr session_id \<Rightarrow>
                            finish_authenticate H
                              (run_flow V w source hash target pam_user pam_service session_id (s \<lparr>fl_seq := 0\<rparr>))))))"

definition pam_sm_authenticate ::
  "'w module_env \<Rightarrow> bytes option list \<Rightarrow> pam_handle \<Rightarrow> 'w flow_state \<Rightarrow> (int \<times> pam_handle \<times> 'w flow_state) option" where
  "pam_sm_authenticate V argv H s =
     (case module_config V argv of
        Inl _ \<Rightarrow> Some (run_pam (Some PAM_AUTHINFO_UNAVAIL), H, s)
      | Inr cfg \<Rightarrow>
          (case self_check (mv_config_fs V) (mv_provider V) (mv_load_panics V) (pt_gost (mv_platform V))
                  (pt_sig (mv_platform V)) cfg (fl_lock s) of
             (Inl SelfCheckPanicked, lock) \<Rightarrow> Some (run_pam None, H, s \<lparr>fl_lock := lock\<rparr>)
           | (Inl _, lock) \<Rightarrow> Some (run_pam (Some PAM_AUTHINFO_UNAVAIL), H, s \<lparr>fl_lock := lock\<rparr>)
           | (Inr _, lock) \<Rightarrow> authenticate_configured V H cfg (s \<lparr>fl_lock := lock\<rparr>)))"

section \<open>Account and credentials\<close>

definition pam_sm_setcred :: int where
  "pam_sm_setcred = run_pam (Some PAM_SUCCESS)"

definition acct_mgmt_core :: "auth_context \<Rightarrow> int \<Rightarrow> int" where
  "acct_mgmt_core ctx now =
     (case ac_cert_not_after ctx of
        Some na \<Rightarrow> if now > na then PAM_ACCT_EXPIRED else PAM_SUCCESS
      | None \<Rightarrow> PAM_SUCCESS)"

definition pam_sm_acct_mgmt :: "pam_handle \<Rightarrow> int \<Rightarrow> int" where
  "pam_sm_acct_mgmt H now =
     run_pam (Some (case get_auth_context H of
         None \<Rightarrow> PAM_AUTHINFO_UNAVAIL
       | Some ctx \<Rightarrow>
           (let rc = acct_mgmt_core ctx now
            in if rc = PAM_SUCCESS then PAM_SUCCESS
               else if rc = PAM_ACCT_EXPIRED then PAM_ACCT_EXPIRED else PAM_SYSTEM_ERR)))"

section \<open>Sessions\<close>

text \<open>The policy of the session, with the daemon told when it refuses.\<close>

definition session_context_of :: "auth_context \<Rightarrow> string \<Rightarrow> session_context" where
  "session_context_of ctx pam_user =
     \<lparr>sc_pam_user = pam_user, sc_pam_service = ac_pam_service ctx,
      sc_cert_ident = (case ac_cert_ident ctx of
          Some i \<Rightarrow> i
        | None \<Rightarrow> \<lparr>ci_serial = unwrap_or_default (ac_cert_serial ctx), ci_issuer = [],
                  ci_cn = unwrap_or_default (ac_cert_cn ctx), ci_fingerprint = []\<rparr>),
      sc_home_dir = ac_home_dir ctx\<rparr>"

definition run_open_session_pipeline_with_backend_and_monitor ::
  "mac_backend \<Rightarrow> (string \<Rightarrow> 'w \<Rightarrow> (ipc_error, unit) result \<times> 'w) option \<Rightarrow> validated_config \<Rightarrow> auth_context \<Rightarrow> string \<Rightarrow>
   'w \<Rightarrow> (int, unit) result \<times> mac_event list \<times> 'w" where
  "run_open_session_pipeline_with_backend_and_monitor backend close cfg ctx pam_user w =
     (case apply_session_policy backend (vf_mac cfg) (ac_cert_max_integrity ctx) (session_context_of ctx pam_user) of
        (r, evs) \<Rightarrow>
          (let rc = (case r of
                 Inr _ \<Rightarrow> Ok ()
               | Inl CertLacksExt \<Rightarrow> Err PAM_AUTH_ERR
               | Inl (RuntimeRequired _) \<Rightarrow> Err PAM_AUTH_ERR
               | Inl (ApplyFailed _) \<Rightarrow> Err PAM_SESSION_ERR)
           in (rc, evs, case (rc, close) of (Inl _, Some f) \<Rightarrow> snd (f (ac_session_id ctx) w) | _ \<Rightarrow> w)))"

definition wired_close :: "'w module_env \<Rightarrow> validated_config \<Rightarrow> string \<Rightarrow> 'w \<Rightarrow> (ipc_error, unit) result \<times> 'w" where
  "wired_close V cfg session_id w =
     apply_mode (mn_fail_mode (vf_monitor cfg))
       (call_close_session (mv_client V) (monitor_stream V cfg) (mv_uuid V) (pt_now (mv_platform V)) session_id w)"

definition run_open_session_pipeline ::
  "'w module_env \<Rightarrow> validated_config \<Rightarrow> auth_context \<Rightarrow> string \<Rightarrow> 'w \<Rightarrow> (int, unit) result \<times> mac_event list \<times> 'w" where
  "run_open_session_pipeline V cfg ctx pam_user w =
     (case build_backend (mv_astra_mac V) (mv_libpdp V) (mp_runtime (vf_mac cfg)) of
        (Inl rc, evs) \<Rightarrow> (Err rc, evs, w)
      | (Inr backend, evs) \<Rightarrow>
          (case run_open_session_pipeline_with_backend_and_monitor backend (Some (wired_close V cfg)) cfg ctx pam_user w of
             (r, evs', w') \<Rightarrow> (r, evs @ evs', w')))"

datatype capture_outcome = Pushed | PushFailed | CaptureSkipped

definition session_uuid_from_string :: "uuid_lib \<Rightarrow> string \<Rightarrow> uuid" where
  "session_uuid_from_string U s = (case ul_parse U s of Some u \<Rightarrow> u | None \<Rightarrow> ul_v5 U (as_bytes s))"

definition capture_xdg ::
  "string option \<Rightarrow> (session_target \<Rightarrow> 'w \<Rightarrow> (ipc_error, unit) result \<times> 'w) \<Rightarrow> 'w \<Rightarrow> capture_outcome \<times> 'w" where
  "capture_xdg xdg push w =
     (case xdg of
        None \<Rightarrow> (CaptureSkipped, w)
      | Some x \<Rightarrow>
          if x = [] then (CaptureSkipped, w)
          else (case push (LogindSession x) w of
              (Inr _, w') \<Rightarrow> (Pushed, w') | (Inl _, w') \<Rightarrow> (PushFailed, w')))"

text \<open>The user of the session phase, with the certificate's name where PAM has none.\<close>

definition session_user :: "pam_handle \<Rightarrow> auth_context \<Rightarrow> string" where
  "session_user H ctx =
     (case pam_get_user_string H of Inr u \<Rightarrow> u | Inl _ \<Rightarrow> unwrap_or_default (ac_cert_cn ctx))"

definition push_session_target ::
  "'w module_env \<Rightarrow> validated_config \<Rightarrow> auth_context \<Rightarrow> session_target \<Rightarrow> 'w \<Rightarrow> (ipc_error, unit) result \<times> 'w" where
  "push_session_target V cfg ctx target w =
     (let R = monitor_stream V cfg
      in after_connect (mv_client V) R
           (send_update_session_target (mv_client V) R (session_uuid_from_string (mv_uuid V) (ac_session_id ctx)) target) w)"

definition open_session ::
  "'w module_env \<Rightarrow> pam_handle \<Rightarrow> validated_config \<Rightarrow> auth_context \<Rightarrow> 'w \<Rightarrow> int \<times> mac_event list \<times> 'w" where
  "open_session V H cfg ctx w =
     (let pam_user = session_user H ctx
      in case run_open_session_pipeline V cfg ctx pam_user w of
           (Inl rc, evs, w1) \<Rightarrow> (rc, evs, w1)
         | (Inr _, evs, w1) \<Rightarrow>
             (let xdg = (case pam_get_env_string H ''XDG_SESSION_ID'' of Inr v \<Rightarrow> v | Inl _ \<Rightarrow> None);
                  w2 = snd (capture_xdg xdg (push_session_target V cfg ctx) w1)
              in case run_hooks_for_stage (vf_hooks cfg) SessionOpenStage (mv_executor V)
                        (for_session_open pam_user ctx) w2 of
                   (Inr _, w3) \<Rightarrow> (PAM_SUCCESS, evs, w3)
                 | (Inl _, w3) \<Rightarrow> (PAM_SESSION_ERR, evs, w3)))"

definition pam_sm_open_session ::
  "'w module_env \<Rightarrow> bytes option list \<Rightarrow> pam_handle \<Rightarrow> 'w \<Rightarrow> int \<times> mac_event list \<times> 'w" where
  "pam_sm_open_session V argv H w =
     (case module_config V argv of
        Inl _ \<Rightarrow> (run_pam (Some PAM_AUTHINFO_UNAVAIL), [], w)
      | Inr cfg \<Rightarrow>
          (case get_auth_context H of
             None \<Rightarrow> (run_pam (Some PAM_AUTHINFO_UNAVAIL), [], w)
           | Some ctx \<Rightarrow>
               (case open_session V H cfg ctx w of (rc, evs, w') \<Rightarrow> (run_pam (Some rc), evs, w'))))"

definition pam_sm_close_session ::
  "'w module_env \<Rightarrow> bytes option list \<Rightarrow> pam_handle \<Rightarrow> 'w \<Rightarrow> int \<times> 'w" where
  "pam_sm_close_session V argv H w =
     (case module_config V argv of
        Inl _ \<Rightarrow> (run_pam (Some PAM_SUCCESS), w)
      | Inr cfg \<Rightarrow>
          (case get_auth_context H of
             None \<Rightarrow> (run_pam (Some PAM_SUCCESS), w)
           | Some ctx \<Rightarrow>
               (run_pam (Some PAM_SUCCESS),
                snd (run_hooks_for_stage (vf_hooks cfg) SessionCloseStage (mv_executor V)
                       (for_session_close (session_user H ctx) ctx) w))))"

section \<open>What success means\<close>

lemma run_pam_Some [simp]: "run_pam (Some rc) = rc"
  by (simp add: run_pam_def)

lemma pam_code_nonzero: "pam_code e \<noteq> 0"
  by (cases e) (simp_all add: pam_code_def)

lemmas pam_codes = PAM_SUCCESS_def PAM_SYSTEM_ERR_def PAM_AUTHINFO_UNAVAIL_def PAM_ACCT_EXPIRED_def
  PAM_AUTH_ERR_def PAM_SESSION_ERR_def run_pam_def

lemma finish_success:
  assumes "finish_authenticate H (r, t) = Some (0, H', s')"
  obtains out where "r = Ok out" "H' = H \<lparr>ph_data := Some (fo_auth_ctx out)\<rparr>"
proof (cases r)
  case (Inl e)
  with assms pam_code_nonzero show ?thesis
    by (cases e) (simp_all add: finish_authenticate_def pam_codes)
next
  case (Inr out)
  with assms that show ?thesis
    by (auto simp: finish_authenticate_def set_auth_context_def pam_codes Let_def split: if_splits)
qed

lemma module_config_Ok:
  "module_config V argv = Ok cfg \<Longrightarrow> \<exists>raw. try_from_raw (mv_astra_mac V) (mv_config_fs V) raw = Ok cfg"
  by (auto simp: module_config_def load_validated_config_def result_simps)

lemma wire_cfg: "wire C read hex_decode cfg = Ok w \<Longrightarrow> wd_cfg w = cfg"
  by (auto simp: wire_def Let_def result_simps)

text \<open>A grant: what stands behind a successful authentication.\<close>

definition granted ::
  "'w module_env \<Rightarrow> pam_handle \<Rightarrow> validated_config \<Rightarrow> string \<Rightarrow> certificate \<Rightarrow> auth_context \<Rightarrow> bool" where
  "granted V H cfg user leaf ctx \<longleftrightarrow>
     config_ok (mv_astra_mac V) (mv_config_fs V) cfg \<and>
     (\<exists>lock w source host hash target.
        ready (mv_config_fs V) (mv_provider V) cfg lock \<and>
        resolve_host_identity (pt_crypto (mv_platform V)) (mv_host_sys V) (vf_host_identity cfg) = Some (Ok (source, host, hash)) \<and>
        wire (pt_crypto (mv_platform V)) (mv_read V) (mv_hex_decode V) cfg = Ok w \<and>
        pam_get_user_string H = Ok user \<and>
        admitted (mv_platform V) (wired_deps V w source hash target) user leaf \<and>
        stage_passed (wired_deps V w source hash target) PreAuth \<and>
        stage_passed (wired_deps V w source hash target) PostAuthSuccess \<and>
        ac_host_id ctx = hash) \<and>
     (if vf_mode cfg = Pkcs12Mode then holds_bundle (mv_platform V) leaf
      else holds_token (mv_platform V) (vf_pkcs11_object_label cfg) leaf) \<and>
     describes ctx leaf"

lemma authenticate_configured_success:
  assumes "authenticate_configured V H cfg t = Some (0, H', s')"
    and "config_ok (mv_astra_mac V) (mv_config_fs V) cfg"
    and "ready (mv_config_fs V) (mv_provider V) cfg lock"
  shows "\<exists>user leaf ctx. ph_data H' = Some ctx \<and> granted V H cfg user leaf ctx"
proof -
  from assms(1) obtain user source host hash w sid service target where
    p: "pam_get_user_string H = Ok user"
    and h: "resolve_host_identity (pt_crypto (mv_platform V)) (mv_host_sys V) (vf_host_identity cfg) = Some (Ok (source, host, hash))"
    and w: "wire (pt_crypto (mv_platform V)) (mv_read V) (mv_hex_decode V) cfg = Ok w"
    and g: "finish_authenticate H (run_flow V w source hash target user service sid (t \<lparr>fl_seq := 0\<rparr>)) = Some (0, H', s')"
    by (auto simp: authenticate_configured_def pam_codes Let_def split: sum.splits option.splits prod.splits)
  obtain r u where r: "run_flow V w source hash target user service sid (t \<lparr>fl_seq := 0\<rparr>) = (r, u)" by fastforce
  from g [unfolded r] obtain out where o: "r = Ok out" "H' = H \<lparr>ph_data := Some (fo_auth_ctx out)\<rparr>" by (rule finish_success)
  have c: "wd_cfg w = cfg" using w by (rule wire_cfg)
  have d: "dp_cfg (wired_deps V w source hash target) = cfg" "dp_host_id_hash (wired_deps V w source hash target) = hash"
    by (simp_all add: wired_deps_def c)
  from authenticate_Ok [OF r [unfolded run_flow_def o Let_def]] obtain leaf where
    "admitted (mv_platform V) (wired_deps V w source hash target) user leaf" "describes (fo_auth_ctx out) leaf"
    "if vf_mode cfg = Pkcs12Mode then holds_bundle (mv_platform V) leaf
      else holds_token (mv_platform V) (vf_pkcs11_object_label cfg) leaf"
    "ac_host_id (fo_auth_ctx out) = hash"
    "stage_passed (wired_deps V w source hash target) PreAuth"
    "stage_passed (wired_deps V w source hash target) PostAuthSuccess"
    unfolding d by blast
  with p h w assms(2,3) have "granted V H cfg user leaf (fo_auth_ctx out)" unfolding granted_def by blast
  with o show ?thesis by auto
qed

lemma pam_authenticate_success:
  assumes "pam_sm_authenticate V argv H s = Some (0, H', s')"
  shows "\<exists>cfg user leaf ctx. module_config V argv = Ok cfg \<and> ph_data H' = Some ctx \<and> granted V H cfg user leaf ctx"
proof -
  from assms obtain cfg u lock where
    l: "module_config V argv = Ok cfg"
    and c: "self_check (mv_config_fs V) (mv_provider V) (mv_load_panics V) (pt_gost (mv_platform V))
          (pt_sig (mv_platform V)) cfg (fl_lock s) = (Ok u, lock)"
    and a: "authenticate_configured V H cfg (s \<lparr>fl_lock := lock\<rparr>) = Some (0, H', s')"
    by (auto simp: pam_sm_authenticate_def pam_codes split: sum.splits prod.splits self_check_error.splits)
  from module_config_Ok [OF l] have "config_ok (mv_astra_mac V) (mv_config_fs V) cfg" using config_ok_of_raw by blast
  from authenticate_configured_success [OF a this self_check_Ok [OF c]] l show ?thesis by blast
qed

text \<open>
  C1. Success of the module means a session that should exist. When the authentication entry
  returns success, the configuration was validated, the self check passed and the machine was
  identified; there is a certificate with a chain to a configured anchor that the wired verifier
  trusts at that time, whose host extension covers this machine and which covers the user PAM asked
  for; its private key answered a fresh challenge, from the bundle or on the token; every hook that
  may abort has passed; and the context that is stored describes this certificate and this machine.
\<close>

theorem pam_success_granted:
  assumes "pam_sm_authenticate V argv H s = Some (0, H', s')"
  shows "\<exists>cfg user leaf ctx. module_config V argv = Ok cfg \<and> ph_data H' = Some ctx \<and> granted V H cfg user leaf ctx"
  using assms by (rule pam_authenticate_success)


section \<open>What is left behind\<close>

lemma finish_unmounts:
  assumes "finish_authenticate H (r, t) = Some (rc, H', s')"
    and "fl_events t = evs0 @ evs" "balance (case r of Inl _ \<Rightarrow> [] | Inr out \<Rightarrow> (case fo_mount out of None \<Rightarrow> [] | Some g \<Rightarrow> [mg_target g])) evs"
    and "\<And>out g. r = Ok out \<Longrightarrow> fo_mount out = Some g \<Longrightarrow> mg_mounted g"
  shows "\<exists>evs. fl_events s' = evs0 @ evs \<and> balance [] evs"
proof (cases r)
  case (Inl e)
  with assms(1-3) have "s' = t" by (cases e) (simp_all add: finish_authenticate_def)
  with assms(2,3) Inl show ?thesis by auto
next
  case (Inr out)
  then have e: "fl_events s' = fl_events t @ (case fo_mount out of None \<Rightarrow> [] | Some g \<Rightarrow> guard_events g)"
    using assms(1)
    by (auto simp: finish_authenticate_def set_auth_context_def emit_def Let_def split: if_splits)
  show ?thesis
  proof (cases "fo_mount out")
    case None
    with e assms(2,3) Inr show ?thesis by auto
  next
    case (Some g)
    with assms(3) Inr have "balance [mg_target g] evs" by simp
    from balance_guard [OF this assms(4) [OF Inr Some]] e assms(2) Some show ?thesis by auto
  qed
qed

lemma authenticate_guard_mounted:
  assumes "authenticate E D (real_flow_io M F base sid usb) token_io user service sid' s = (Ok out, s')" "fo_mount out = Some g"
  shows "mg_mounted g"
proof (cases "vf_mode (dp_cfg D)")
  case Pkcs12Mode
  with assms(1) obtain s1 pattern devs s2 bound s3 where
    b: "bind_candidate E (real_flow_io M F base sid usb) pattern user devs None None s1 = (Ok bound, s2)"
    and a: "authenticate_bound E D user service sid' bound s2 = (Ok out, s3)"
    by (auto simp: authenticate_def authenticate_pkcs12_def Let_def result_simps)
  have "fst (snd bound) = g" using authenticate_bound_Ok [OF a] assms(2) by auto
  with bind_candidate_Ok [of E "real_flow_io M F base sid usb" pattern user devs None None s1 "fst bound" g "snd (snd bound)" s2] b
  show ?thesis using real_medium.flow_mount_Ok by (metis prod.collapse)
next
  case Pkcs11Mode
  with assms show ?thesis
    by (auto simp: authenticate_def authenticate_pkcs11_def result_simps split: crypto_backend.splits prod.splits)
qed

lemma finish_flow_unmounts:
  assumes "finish_authenticate H (run_flow V w source hash target user service sid t) = Some (rc, H', s')"
  shows "\<exists>evs. fl_events s' = fl_events t @ evs \<and> balance [] evs"
proof -
  obtain r u where r: "run_flow V w source hash target user service sid t = (r, u)" by fastforce
  note run = r [unfolded run_flow_def Let_def]
  obtain evs where "fl_events u = fl_events t @ evs"
    "balance (case r of Inl _ \<Rightarrow> [] | Inr out \<Rightarrow> (case fo_mount out of None \<Rightarrow> [] | Some g \<Rightarrow> [mg_target g])) evs"
    by (rule leaves_cases [OF real_medium.authenticate_leaves run])
  from finish_unmounts [OF assms [unfolded r] this] show ?thesis
    using authenticate_guard_mounted run by blast
qed


section \<open>Sessions\<close>

lemma pipeline_Ok:
  assumes "run_open_session_pipeline V cfg ctx user w = (Ok u, evs, w')"
  shows "\<exists>backend evs0 outcome evs1. build_backend (mv_astra_mac V) (mv_libpdp V) (mp_runtime (vf_mac cfg)) = (Ok backend, evs0)
     \<and> apply_session_policy backend (vf_mac cfg) (ac_cert_max_integrity ctx) (session_context_of ctx user) = (Ok outcome, evs1)"
  using assms
  by (auto simp: run_open_session_pipeline_def run_open_session_pipeline_with_backend_and_monitor_def Let_def
      split: prod.splits sum.splits orchestrator_error.splits)

lemma pipeline_Err: "run_open_session_pipeline V cfg ctx user w = (Err rc, evs, w') \<Longrightarrow> rc \<in> {7, 14}"
  by (auto simp: run_open_session_pipeline_def run_open_session_pipeline_with_backend_and_monitor_def build_backend_def
      PAM_AUTH_ERR_def PAM_SESSION_ERR_def Let_def
      split: prod.splits sum.splits if_splits mac_runtime_mode.splits orchestrator_error.splits)

text \<open>
  C15. A session is opened only for an authenticated user and under the policy: when the entry
  returns success, a context of an authentication is stored, a backend was selected, the session
  policy did not refuse the label of the certificate, and every session hook that may abort passed.
  Every other answer is one of the three documented failures.
\<close>

theorem open_session_guarded:
  assumes "pam_sm_open_session V argv H w = (rc, evs, w')"
  shows "rc \<in> {0, 7, 9, 14} \<and> (rc = 0 \<longrightarrow> (\<exists>cfg ctx backend evs0 outcome evs1. module_config V argv = Ok cfg \<and> get_auth_context H = Some ctx
     \<and> build_backend (mv_astra_mac V) (mv_libpdp V) (mp_runtime (vf_mac cfg)) = (Ok backend, evs0)
     \<and> apply_session_policy backend (vf_mac cfg) (ac_cert_max_integrity ctx) (session_context_of ctx (session_user H ctx))
         = (Ok outcome, evs1)
     \<and> (\<forall>h. h \<in> set (vf_hooks cfg) \<and> hc_stage h = SessionOpenStage \<and> hc_on_failure h = Abort \<longrightarrow>
          (\<exists>vars v oc v'. mv_executor V h vars v = (Ok oc, v') \<and> ho_exit_code oc = 0 \<and> \<not> ho_killed_by_timeout oc))))"
proof (cases "\<exists>cfg ctx. module_config V argv = Ok cfg \<and> get_auth_context H = Some ctx \<and> open_session V H cfg ctx w = (rc, evs, w')")
  case False
  with assms have "rc = 9"
    by (auto simp: pam_sm_open_session_def Let_def pam_codes split: sum.splits option.splits prod.splits)
  then show ?thesis by simp
next
  case True
  then obtain cfg ctx where l: "module_config V argv = Ok cfg"
    and c: "get_auth_context H = Some ctx" "open_session V H cfg ctx w = (rc, evs, w')" by blast
  obtain r evs1 w1 where p: "run_open_session_pipeline V cfg ctx (session_user H ctx) w = (r, evs1, w1)"
    by (metis prod_cases3)
  show ?thesis
  proof (cases r)
    case (Inl x)
    with c p pipeline_Err [OF p [unfolded Inl]] show ?thesis by (auto simp: open_session_def)
  next
    case (Inr u)
    obtain hr w2 vars w3 where h: "run_hook_list (mv_executor V) vars (filter (\<lambda>h. hc_stage h = SessionOpenStage) (vf_hooks cfg)) w2 = (hr, w3)"
      and rc: "rc = (if is_ok hr then 0 else 14)"
      using c p Inr
      by (auto simp: open_session_def run_hooks_for_stage_def Let_def pam_codes split: prod.splits sum.splits)
    have "\<exists>vars v oc v'. mv_executor V h vars v = (Ok oc, v') \<and> ho_exit_code oc = 0 \<and> \<not> ho_killed_by_timeout oc"
      if "rc = 0" "h \<in> set (vf_hooks cfg) \<and> hc_stage h = SessionOpenStage \<and> hc_on_failure h = Abort" for h
      using run_hook_list_Ok [of "mv_executor V" vars _ w2 _ w3 h] h rc that by (cases hr) fastforce+
    with l c(1) rc pipeline_Ok [OF p [unfolded Inr]] show ?thesis by simp
  qed
qed

text \<open>
  C38. The daemon is told of a session that the policy refuses, with one exception: when the policy
  requires a runtime the kernel does not have, the entry refuses before it has a backend, and the
  session registered by the authentication stays registered.
\<close>

theorem refused_session_closed_or_leaked:
  assumes "run_open_session_pipeline V cfg ctx user w = (Err rc, evs, w')"
  shows "(is_ok (fst (build_backend (mv_astra_mac V) (mv_libpdp V) (mp_runtime (vf_mac cfg)))) \<longrightarrow>
            w' = snd (wired_close V cfg (ac_session_id ctx) w))
       \<and> (is_err (fst (build_backend (mv_astra_mac V) (mv_libpdp V) (mp_runtime (vf_mac cfg)))) \<longrightarrow> rc = 7 \<and> w' = w)"
  using assms
  by (auto simp: run_open_session_pipeline_def run_open_session_pipeline_with_backend_and_monitor_def build_backend_def
      PAM_AUTH_ERR_def Let_def split: prod.splits sum.splits if_splits mac_runtime_mode.splits orchestrator_error.splits)

text \<open>
  Closing a session always succeeds and is never reported: the entry returns success and does
  the same whatever the connection to the daemon is, since it does not use it.
\<close>

theorem close_session_unreported:
  "fst (pam_sm_close_session V argv H w) = 0
   \<and> pam_sm_close_session (V \<lparr>mv_stream := R\<rparr>) argv H w = pam_sm_close_session V argv H w"
proof -
  have "module_config (V \<lparr>mv_stream := R\<rparr>) argv = module_config V argv" by (simp add: module_config_def)
  then show ?thesis by (simp add: pam_sm_close_session_def pam_codes split: sum.split option.split)
qed

section \<open>A complete run\<close>

text \<open>A bundle whose certificate is bound to every host and to one user, on a stick, and its key.\<close>

definition demo_holder_exts :: "ext list" where
  "demo_holder_exts = demo_ext_leaf @
     [([0x69, 1], False, encode_seq_of_utf8 [''*'']), ([0x69, 2], False, encode_seq_of_utf8 [''ann''])]"

definition demo_holder :: certificate where
  "demo_holder = demo_cert [1] [2] 2 demo_holder_exts"

definition demo_flow_crypto :: crypto where
  "demo_flow_crypto = demo_x509_crypto \<lparr>c_oid_from_str := c_oid_from_str demo_crypto,
     c_x509_from_der := (\<lambda>_. Ok (cert_inner demo_holder)), c_x509_from_pem := (\<lambda>_. Ok (cert_inner demo_root))\<rparr>"

definition demo_p12_open :: pkcs12_lib where
  "demo_p12_open = \<lparr>pl_from_der = (\<lambda>_. Ok ()),
     pl_parse2 = (\<lambda>_ _. Ok \<lparr>pd_pkey = Some (Ok [9]), pd_cert = Some (Ok (cert_der_cache demo_holder)), pd_ca = None\<rparr>),
     pl_from_pkcs8 = (\<lambda>_. Ok 2)\<rparr>"

definition demo_files :: file_system where
  "demo_files = \<lparr>fs_is_file = (\<lambda>p. last p = CHR ''2''), fs_len = (\<lambda>_. Ok 1), fs_read = (\<lambda>_. Ok [48])\<rparr>"

definition demo_box :: host_sys where
  "demo_box = Host_Identity.demo_host \<lparr>hs_read := (\<lambda>_. Ok ''box'')\<rparr>"

definition demo_stream :: "unit stream" where
  "demo_stream = \<lparr>sm_connect = (\<lambda>w. (Err ''refused'', w)), sm_set_timeouts = Ok (),
     sm_write = (\<lambda>_ w. (Ok (), w)), sm_read_line = (\<lambda>w. (Ok [], w))\<rparr>"

definition demo_json :: "'a codec" where
  "demo_json = \<lparr>js_to_vec = (\<lambda>_. Err ''none''), js_from_slice = (\<lambda>_. Err ''none'')\<rparr>"

definition demo_module :: "unit module_env" where
  "demo_module = \<lparr>mv_platform = demo_platform \<lparr>pt_crypto := demo_flow_crypto, pt_p12 := demo_p12_open\<rparr>,
     mv_astra_mac = False, mv_config_fs = demo_fs, mv_from_toml = (\<lambda>_. Ok demo_raw), mv_provider = demo_provider,
     mv_load_panics = (\<lambda>_. None), mv_login = (\<lambda>_ w. (Ok (), w)), mv_wait_token = (\<lambda>_ _. None),
     mv_host_sys = demo_box, mv_read = (\<lambda>_. Ok []), mv_hex_decode = (\<lambda>_. None),
     mv_client = \<lparr>cl_agent = ''pam'', cl_client = demo_json, cl_server = demo_json\<rparr>,
     mv_stream = (\<lambda>_ _. demo_stream), mv_uuid = \<lparr>ul_parse = (\<lambda>_. None), ul_v5 = (\<lambda>_. 0)\<rparr>,
     mv_executor = (\<lambda>_ _ w. (Err (CommandUnusable ''none''), w)),
     mv_wait_usb = (\<lambda>_ _. Some (Ok [demo_stick])), mv_mount_sys = demo_mounts, mv_file_system = demo_files,
     mv_random = Ok (replicate 16 0), mv_libpdp = demo_pdp\<rparr>"

definition demo_handle :: pam_handle where
  "demo_handle = \<lparr>ph_user = (0, Some (as_bytes ''ann'')), ph_service = (0, Some (as_bytes ''login'')),
     ph_tty = (0, None), ph_env = (\<lambda>_. None), ph_set_data_rc = 0, ph_data = None\<rparr>"

lemma demo_holder_scope:
  "verify_host_binding demo_flow_crypto (cert_inner demo_holder) h = Ok ()"
  "is_ok (user_binding_parse demo_flow_crypto (cert_inner demo_holder))"
  "verify_user_binding demo_flow_crypto (cert_inner demo_holder) ''ann'' = Ok ()"
proof -
  have s: "scoped_cert demo_flow_crypto (cert_inner demo_holder) [(0xA0, [2, 1, 2]), (0x02, [7])] demo_holder_exts [0x30, 0]"
    unfolding scoped_cert_def by (intro conjI small_encoding) code_simp+
  have h: "ext_strings demo_flow_crypto demo_holder_exts HOST_BINDING_OID [''*'']"
    unfolding ext_strings_def by (intro conjI exI [of _ "[0x69, 1]"] small_encoding) code_simp+
  have u: "ext_strings demo_flow_crypto demo_holder_exts USER_BINDING_OID [''ann'']"
    unfolding ext_strings_def by (intro conjI exI [of _ "[0x69, 2]"] small_encoding) code_simp+
  have "is_ok (try_map classify [''*''])" by code_simp
  then show "verify_host_binding demo_flow_crypto (cert_inner demo_holder) h = Ok ()"
    using verify_host_binding_encode [OF s h, of h] by (simp add: host_entry_allows_def)
  show "is_ok (user_binding_parse demo_flow_crypto (cert_inner demo_holder))"
    using user_binding_parse_encode [OF s u] by simp
  show "verify_user_binding demo_flow_crypto (cert_inner demo_holder) ''ann'' = Ok ()"
    using verify_user_binding_encode [OF s u, of "''ann''"] by simp
qed

lemma demo_holder_verify:
  "verify_at demo_flow_crypto demo_gost demo_wired_verifier demo_holder [] 86400 None =
     (Ok \<lparr>vch_end_entity = demo_holder, vch_chain = [], vch_anchor = demo_root\<rparr>, None)"
  by code_simp

lemma demo_host_identity:
  "resolve_host_identity demo_flow_crypto demo_box (vf_host_identity demo_config) = Some (Ok (MachineId, ''box'', ''626f78''))"
proof -
  have t: "trim ''box'' = ''box''" by (rule trim_id) (simp_all add: ascii_graphic_def)
  have l: "to_ascii_lowercase ''box'' = ''box''" by code_simp
  have n: "normalize_host_id demo_box ''box'' = ''box''"
    by (simp add: normalize_host_id_def t) (simp add: demo_box_def Host_Identity.demo_host_def l)
  have m: "machine_id_fetch demo_box ''/'' = Ok ''box''"
    by (simp add: machine_id_fetch_def read_source_def demo_box_def t)
  have s: "sha256_hex demo_flow_crypto ''box'' = ''626f78''" by code_simp
  show ?thesis
    by (simp add: resolve_host_identity_def demo_config_host from_validated_def source_of_def m probe_def n Let_def resolved_def s)
qed

lemma demo_acquire:
  "acquire_p12_material_with_prompter demo_flow_crypto demo_p12_open [48] 3 [Ok ''1''] =
     (Ok \<lparr>lk_end_entity = demo_holder, lk_presented_chain = [], lk_key = [9]\<rparr>, [])"
proof -
  have "\<lparr>cert_inner = cert_inner demo_holder, cert_der_cache = cert_der_cache demo_holder\<rparr> = demo_holder" by simp
  then show ?thesis
    by (simp add: numeral_3_eq_3 next_answer_def from_p12_def demo_p12_open_def certificate_from_der_def
        demo_flow_crypto_def)
qed

lemma demo_challenge:
  "challenge_response demo_gost demo_sig_lib demo_holder 2 path lock = (Ok (), lock)"
proof -
  have "certificate_public_key demo_holder = Ok 2"
    by (simp add: certificate_public_key_def demo_holder_def demo_cert_def Let_def)
  then show ?thesis
    by (simp add: challenge_response_def demo_sig_lib_def challenge_response_rsa_pss_def sign_and_verify_def)
qed

lemma demo_mount_any:
  "real_mount demo_mounts base sid demo_stick 0 =
     (Ok \<lparr>mn_mountpoint = path_join base sid, mn_guard = guard_adopt (path_join base sid)\<rparr>, 1,
      [MadeDir (path_join base sid), Mounted (path_join base sid)])"
proof -
  have "select_fs_type demo_stick = Ok ''vfat''" by (simp add: select_fs_type_def demo_stick_def)
  then have "mount_usb_device demo_mounts demo_stick mp = Ok (guard_adopt mp)" for mp
    by (simp add: mount_usb_device_def nix_mount_def ALLOWED_FS_def) (simp add: demo_mounts_def)
  moreover have "my_create_dir_all demo_mounts p = Ok ()" for p by (simp add: demo_mounts_def)
  ultimately show ?thesis by (simp add: real_mount_def Let_def)
qed

lemma demo_discover:
  "discover_credentials demo_files mp ''certs/user.p12'' ''ann'' =
     Ok \<lparr>dc_p12_path = path_join mp ''certs/user.p12'', dc_p12_bytes = [48], dc_chain_pem = None\<rparr>"
proof -
  have e: "expand_user ''certs/user.p12'' ''ann'' = ''certs/user.p12''" by (simp add: expand_user_def str_replace.simps)
  have "fs_is_file demo_files (path_join mp ''certs/user.p12'')" "\<not> fs_is_file demo_files (path_join (path_join mp ''certs'') ''chain.pem'')"
    by (simp_all add: demo_files_def path_join_def)
  moreover have "fs_len demo_files p = Ok 1" "fs_read demo_files p = Ok [48]" for p by (simp_all add: demo_files_def)
  ultimately show ?thesis by (simp add: discover_credentials_def e Let_def MAX_P12_BYTES_def)
qed

lemma demo_module_run:
  "\<exists>H' s'. pam_sm_authenticate demo_module [] demo_handle demo_state = Some (0, H', s')"
proof -
  have p: "vf_pkcs12_path_pattern demo_config = None"
    by (rule try_from_raw_pattern [OF demo_config_Ok]) (simp add: demo_raw_def)
  have pl: "mv_platform demo_module = demo_platform \<lparr>pt_crypto := demo_flow_crypto, pt_p12 := demo_p12_open\<rparr>"
    by (simp add: demo_module_def)
  have pt: "pt_crypto (mv_platform demo_module) = demo_flow_crypto" "pt_p12 (mv_platform demo_module) = demo_p12_open"
    "pt_gost (mv_platform demo_module) = demo_gost" "pt_sig (mv_platform demo_module) = demo_sig_lib"
    "pt_now (mv_platform demo_module) = 86400" "pt_hex_encode (mv_platform demo_module) = (\<lambda>bs. concat (map hex02 bs))"
    by (simp_all add: pl demo_platform_def)
  have mv: "mv_config_fs demo_module = demo_fs" "mv_provider demo_module = demo_provider" "mv_load_panics demo_module = (\<lambda>_. None)"
    "mv_read demo_module = (\<lambda>_. Ok [])" "mv_hex_decode demo_module = (\<lambda>_. None)" "mv_host_sys demo_module = demo_box"
    "mv_random demo_module = Ok (replicate 16 0)" "mv_wait_usb demo_module = (\<lambda>_ _. Some (Ok [demo_stick]))"
    "mv_mount_sys demo_module = demo_mounts" "mv_file_system demo_module = demo_files"
    by (simp_all add: demo_module_def)
  obtain w where w: "wire demo_flow_crypto (\<lambda>_. Ok []) (\<lambda>_. None) demo_config = Ok w" "wd_trust w = demo_wired_verifier"
    using demo_wire_any [of demo_flow_crypto] by (auto simp: demo_flow_crypto_def)
  have wc: "wd_cfg w = demo_config" using w(1) by (rule wire_cfg)
  have m: "module_config demo_module [] = Ok demo_config"
    using demo_config_Ok by (simp add: module_config_def load_validated_config_def demo_module_def) (simp add: demo_fs_def)
  have u: "pam_get_user_string demo_handle = Ok ''ann''"
    by (simp add: pam_get_user_string_def pam_string_def demo_handle_def cstr_to_str_def) code_simp
  have st: "demo_state = \<lparr>fl_world = (), fl_lock = None, fl_answers = [Ok ''1''], fl_seq = 0, fl_events = []\<rparr>"
    by (simp add: demo_state_def)
  have b: "is_char_boundary ''626f78'' (Suc (Suc (Suc (Suc (Suc (Suc 0))))))" by (simp add: is_char_boundary_def)
  have f: "\<exists>out t. run_flow demo_module w MachineId ''626f78'' target ''ann'' service sid
      \<lparr>fl_world = (), fl_lock = None, fl_answers = [Ok ''1''], fl_seq = 0, fl_events = []\<rparr> = (Ok out, t)" for target service sid
    by (simp add: run_flow_def Let_def authenticate_def hash_prefix_def wired_deps_def wc b flow_bind_def flow_lift_def
        show_info_def emit_def demo_config_simple authenticate_pkcs12_def flow_hooks_def run_hooks_for_stage_def p
        DEFAULT_PKCS12_PATH_PATTERN_def waited_def flow_mount_def real_flow_io_def demo_mount_any demo_discover
        validate_p12_envelope_def pt mv drop_on_error_def flow_return_def authenticate_bound_def flow_acquire_p12_def
        demo_acquire private_key_def demo_p12_open_def [THEN arg_cong, of pl_from_der] demo_p12_open_def [THEN arg_cong, of pl_from_pkcs8]
        flow_challenge_def demo_challenge flow_verify_def w(2) demo_holder_verify check_host_binding_def demo_holder_scope
        authorise_user_def notify_monitor_def)
  have g: "\<exists>H' s'. finish_authenticate demo_handle (run_flow demo_module w MachineId ''626f78'' target ''ann'' service sid
      \<lparr>fl_world = (), fl_lock = None, fl_answers = [Ok ''1''], fl_seq = 0, fl_events = []\<rparr>) = Some (0, H', s')" for target service sid
    using f [of target service sid]
    by (auto simp: finish_authenticate_def set_auth_context_def demo_handle_def pam_codes Let_def)
  show ?thesis
    by (simp add: pam_sm_authenticate_def m st pt mv demo_self_check authenticate_configured_def u demo_host_identity w(1)
        fresh_session_id_def Let_def g)
qed

theorem pam_success_granted_witness:
  "\<exists>H' s' cfg user leaf ctx. pam_sm_authenticate demo_module [] demo_handle demo_state = Some (0, H', s')
     \<and> module_config demo_module [] = Ok cfg \<and> ph_data H' = Some ctx \<and> granted demo_module demo_handle cfg user leaf ctx"
proof -
  obtain H' s' where r: "pam_sm_authenticate demo_module [] demo_handle demo_state = Some (0, H', s')"
    using demo_module_run by blast
  from pam_success_granted [OF r] r show ?thesis by blast
qed



lemma demo_open_session: "\<exists>evs. pam_sm_open_session demo_module [] (demo_handle \<lparr>ph_data := Some ctx\<rparr>) () = (0, evs, ())"
proof -
  have m: "module_config demo_module [] = Ok demo_config"
    using demo_config_Ok by (simp add: module_config_def load_validated_config_def demo_module_def) (simp add: demo_fs_def)
  have b: "build_backend (mv_astra_mac demo_module) P mode = (Ok stub_backend, [])" for P mode
    by (simp add: build_backend_def demo_module_def)
  have p: "mb_probe stub_backend \<noteq> RuntimeActive" by (simp add: stub_backend_def)
  have e: "pam_get_env_string (demo_handle \<lparr>ph_data := Some ctx\<rparr>) ''XDG_SESSION_ID'' = Ok None"
  proof -
    have "\<not> has_nul ''XDG_SESSION_ID''" by code_simp
    then show ?thesis by (simp add: pam_get_env_string_def demo_handle_def non_empty_string_def ensure_def)
  qed
  show ?thesis
    by (simp add: pam_sm_open_session_def m get_auth_context_def open_session_def run_open_session_pipeline_def b
        run_open_session_pipeline_with_backend_and_monitor_def apply_session_policy_def demo_config_mac p e capture_xdg_def
        run_hooks_for_stage_def demo_config_simple pam_codes Let_def)
qed

theorem open_session_guarded_witness:
  "\<exists>H' s' ctx outcome evs evs1. pam_sm_authenticate demo_module [] demo_handle demo_state = Some (0, H', s')
     \<and> get_auth_context H' = Some ctx \<and> pam_sm_open_session demo_module [] (demo_handle \<lparr>ph_data := Some ctx\<rparr>) () = (0, evs, ())
     \<and> apply_session_policy stub_backend (vf_mac demo_config) (ac_cert_max_integrity ctx)
         (session_context_of ctx (session_user (demo_handle \<lparr>ph_data := Some ctx\<rparr>) ctx)) = (Ok outcome, evs1)"
proof -
  obtain H' s' ctx where r: "pam_sm_authenticate demo_module [] demo_handle demo_state = Some (0, H', s')" "get_auth_context H' = Some ctx"
    using demo_module_run pam_authenticate_success [of demo_module "[]" demo_handle demo_state]
    by (fastforce simp: get_auth_context_def)
  obtain evs where o: "pam_sm_open_session demo_module [] (demo_handle \<lparr>ph_data := Some ctx\<rparr>) () = (0, evs, ())"
    using demo_open_session by blast
  have m: "module_config demo_module [] = Ok demo_config"
    using demo_config_Ok by (simp add: module_config_def load_validated_config_def demo_module_def) (simp add: demo_fs_def)
  have b: "build_backend (mv_astra_mac demo_module) P mode = (Ok stub_backend, [])" for P mode
    by (simp add: build_backend_def demo_module_def)
  from open_session_guarded [OF o] r o show ?thesis by (auto simp: m b get_auth_context_def)
qed

text \<open>A policy that requires a runtime, on a kernel that has none.\<close>

definition demo_no_parsec :: "unit module_env" where
  "demo_no_parsec = demo_module \<lparr>mv_astra_mac := True, mv_libpdp := demo_pdp \<lparr>pdp_strict_mode := 0\<rparr>\<rparr>"

theorem refused_session_closed_or_leaked_witness:
  "\<exists>H' s' ctx evs. pam_sm_authenticate demo_module [] demo_handle demo_state = Some (0, H', s') \<and> get_auth_context H' = Some ctx
     \<and> run_open_session_pipeline demo_no_parsec (demo_config \<lparr>vf_mac := demo_policy\<rparr>) ctx ''ann'' () = (Err 7, evs, ())"
proof -
  obtain H' s' ctx where r: "pam_sm_authenticate demo_module [] demo_handle demo_state = Some (0, H', s')" "get_auth_context H' = Some ctx"
    using demo_module_run pam_authenticate_success [of demo_module "[]" demo_handle demo_state]
    by (fastforce simp: get_auth_context_def)
  have b: "is_err (fst (build_backend (mv_astra_mac demo_no_parsec) (mv_libpdp demo_no_parsec) (mp_runtime demo_policy)))"
    by (simp add: build_backend_def demo_no_parsec_def demo_policy_def parsec_backend_def demo_pdp_def probe_runtime_def)
  obtain rc evs where "build_backend (mv_astra_mac demo_no_parsec) (mv_libpdp demo_no_parsec) (mp_runtime demo_policy) = (Err rc, evs)"
    using b by (metis is_ok_simps(3) prod.collapse sum.exhaust)
  then have p: "run_open_session_pipeline demo_no_parsec (demo_config \<lparr>vf_mac := demo_policy\<rparr>) ctx ''ann'' () = (Err rc, evs, ())"
    by (simp add: run_open_session_pipeline_def)
  from refused_session_closed_or_leaked [OF p] b p r show ?thesis by auto
qed

end
