(* ===== verification/Startup_Check.thy ===== *)
theory Startup_Check
  imports Wiring Mac_Policy
begin

text \<open>
  The checks the daemon makes before it starts (\<open>startup_check.rs\<close> and \<open>startup_check/*.rs\<close>) and the
  preflight command \<open>check.rs\<close>: the order of the PAM service files, the MAC runtime against the
  kernel, the certificate files, the permissions of their directory, the capability to write labels
  and the sources of the host identity.

  A record keeps the name and the severity of a check and what it is about; the wording of its
  message is left out. The file system is a parameter.
\<close>

section \<open>Lines and words\<close>

text \<open>\<open>str::lines\<close>: a carriage return before the end of a line is not part of it.\<close>

definition strip_cr :: "string \<Rightarrow> string" where
  "strip_cr s = (if s \<noteq> [] \<and> last s = CHR 0x0D then butlast s else s)"

definition str_lines :: "string \<Rightarrow> string list" where
  "str_lines text =
     (let parts = split_on CHR 0x0A text
      in map strip_cr (butlast parts) @ (if last parts = [] then [] else [last parts]))"

lemma white_space_ne: "[] \<notin> set white_space"
  by (simp add: white_space_def str_of_bytes_def)

text \<open>\<open>str::split_whitespace\<close>, with the word read so far.\<close>

function split_ws :: "string \<Rightarrow> string \<Rightarrow> string list" where
  "split_ws w s =
     (case s of
        [] \<Rightarrow> (if w = [] then [] else [w])
      | c # cs \<Rightarrow>
          (case strip_one white_space s of
             Some rest \<Rightarrow> (if w = [] then split_ws [] rest else w # split_ws [] rest)
           | None \<Rightarrow> split_ws (w @ [c]) cs))"
  by pat_completeness auto
termination
  by (relation "measure (\<lambda>(w, s). length s)") (auto dest: strip_one_shrinks [OF _ white_space_ne])

declare split_ws.simps [simp del]

definition split_whitespace :: "string \<Rightarrow> string list" where
  "split_whitespace s = split_ws [] s"

section \<open>The report\<close>

datatype startup_check_severity = SevInfo | SevWarn | SevError

record startup_check_record =
  sr_check :: string
  sr_severity :: startup_check_severity
  sr_subject :: string

definition check_info :: "string \<Rightarrow> string \<Rightarrow> startup_check_record" where
  "check_info check subject = \<lparr>sr_check = check, sr_severity = SevInfo, sr_subject = subject\<rparr>"

definition check_warn :: "string \<Rightarrow> string \<Rightarrow> startup_check_record" where
  "check_warn check subject = \<lparr>sr_check = check, sr_severity = SevWarn, sr_subject = subject\<rparr>"

definition check_error :: "string \<Rightarrow> string \<Rightarrow> startup_check_record" where
  "check_error check subject = \<lparr>sr_check = check, sr_severity = SevError, sr_subject = subject\<rparr>"

definition count_severity :: "startup_check_severity \<Rightarrow> startup_check_record list \<Rightarrow> nat" where
  "count_severity sev report = length (filter (\<lambda>r. sr_severity r = sev) report)"

definition has_errors :: "startup_check_record list \<Rightarrow> bool" where
  "has_errors report \<longleftrightarrow> count_severity SevError report > 0"

record startup_sys =
  ss_exists :: "string \<Rightarrow> bool"
  ss_read_text :: "string \<Rightarrow> (string, string) result"
  ss_read :: "string \<Rightarrow> (string, bytes) result"
  ss_metadata :: "string \<Rightarrow> (bool \<times> u32) option"

section \<open>The PAM stack\<close>

text \<open>A line \<open>@include name\<close> with nothing after the name.\<close>

definition include_name :: "string \<Rightarrow> string option" where
  "include_name line =
     (case split_whitespace line of [first, name] \<Rightarrow> (if first = ''@include'' then Some name else None) | _ \<Rightarrow> None)"

definition is_certauth_include :: "string \<Rightarrow> bool" where
  "is_certauth_include line \<longleftrightarrow>
     (case include_name line of Some name \<Rightarrow> name \<in> {''certauth'', ''certauth-only'', ''certauth-optional''} | None \<Rightarrow> False)"

definition is_phase :: "string \<Rightarrow> string \<Rightarrow> bool" where
  "is_phase phase line \<longleftrightarrow> (case split_whitespace line of first # _ \<Rightarrow> first = phase | [] \<Rightarrow> False)"

definition is_auth_parsec_mac :: "string \<Rightarrow> bool" where
  "is_auth_parsec_mac line \<longleftrightarrow> is_phase ''auth'' line \<and> str_contains ''pam_parsec_mac.so'' line"

definition is_session_pam_certauth :: "string \<Rightarrow> bool" where
  "is_session_pam_certauth line \<longleftrightarrow> is_phase ''session'' line \<and> str_contains ''pam_certauth.so'' line"

definition is_session_pam_systemd :: "string \<Rightarrow> bool" where
  "is_session_pam_systemd line \<longleftrightarrow> is_phase ''session'' line \<and> str_contains ''pam_systemd.so'' line"

definition is_common_session_include :: "string \<Rightarrow> bool" where
  "is_common_session_include line \<longleftrightarrow>
     (case include_name line of Some name \<Rightarrow> name \<in> {''common-session'', ''common-session-noninteractive''} | None \<Rightarrow> False)"

record service_scan =
  sv_include :: "nat option"
  sv_parsec :: "nat option"
  sv_session :: "nat option"
  sv_systemd :: "nat option"

definition or_insert :: "nat \<Rightarrow> nat option \<Rightarrow> nat option" where
  "or_insert i o1 = (case o1 of None \<Rightarrow> Some i | Some _ \<Rightarrow> o1)"

definition scan_line :: "nat \<times> string \<Rightarrow> service_scan \<Rightarrow> service_scan" where
  "scan_line entry s =
     (case entry of (idx, raw) \<Rightarrow>
      let line = trim_start raw in
      if line = [] \<or> hd line = CHR ''#'' then s
      else let s = (if is_certauth_include line then s\<lparr>sv_include := or_insert idx (sv_include s)\<rparr>
                    else if is_auth_parsec_mac line then s\<lparr>sv_parsec := or_insert idx (sv_parsec s)\<rparr> else s);
               s = (if is_session_pam_certauth line then s\<lparr>sv_session := or_insert idx (sv_session s)\<rparr> else s)
           in if is_session_pam_systemd line \<or> is_common_session_include line
              then s\<lparr>sv_systemd := or_insert idx (sv_systemd s)\<rparr> else s)"

definition scan_service :: "string \<Rightarrow> service_scan" where
  "scan_service text =
     fold scan_line (enumerate 0 (str_lines text))
       \<lparr>sv_include = None, sv_parsec = None, sv_session = None, sv_systemd = None\<rparr>"

definition evaluate_service :: "string \<Rightarrow> string \<Rightarrow> startup_check_record list" where
  "evaluate_service path text =
     (let s = scan_service text
      in (case (sv_include s, sv_parsec s) of
            (Some inc, Some par) \<Rightarrow>
              if inc < par then [check_error ''pam_stack_misorder'' path] else [check_info ''pam_stack_ok'' path]
          | _ \<Rightarrow> []) @
         (case (sv_session s, sv_systemd s) of
            (Some ses, Some sys) \<Rightarrow>
              if ses < sys then [check_error ''pam_stack_session_misorder'' path]
              else [check_info ''pam_stack_session_ok'' path]
          | (Some _, None) \<Rightarrow> [check_info ''pam_stack_session_no_systemd'' path]
          | _ \<Rightarrow> []))"

definition STANDARD_SERVICES :: "string list" where
  "STANDARD_SERVICES = [''login'', ''fly-dm'', ''fly-dm-np'', ''sshd'', ''sudo'', ''su'']"

definition check_pam_service :: "startup_sys \<Rightarrow> string \<Rightarrow> string \<Rightarrow> startup_check_record list" where
  "check_pam_service S pam_d_root svc =
     (let path = path_join pam_d_root svc
      in if \<not> ss_exists S path then []
         else case ss_read_text S path of
                Inl _ \<Rightarrow> [check_warn ''pam_stack_read_failed'' path]
              | Inr text \<Rightarrow> evaluate_service path text)"

definition check_pam_stack :: "startup_sys \<Rightarrow> string \<Rightarrow> startup_check_record list" where
  "check_pam_stack S pam_d_root = concat (map (check_pam_service S pam_d_root) STANDARD_SERVICES)"

section \<open>The MAC runtime\<close>

datatype kernel_parsec_state = ParsecActive | ParsecDisabled | ParsecUnavailable

definition real_kernel_parsec_probe :: "bool \<Rightarrow> libpdp \<Rightarrow> kernel_parsec_state" where
  "real_kernel_parsec_probe astra_mac P =
     (if astra_mac then
        (case probe_runtime P of
           RuntimeActive \<Rightarrow> ParsecActive | RuntimeDisabled \<Rightarrow> ParsecDisabled | RuntimeUnavailable \<Rightarrow> ParsecUnavailable)
      else ParsecUnavailable)"

definition check_mac_runtime :: "mac_runtime_mode \<Rightarrow> kernel_parsec_state \<Rightarrow> startup_check_record list" where
  "check_mac_runtime runtime parsec =
     (case (runtime, parsec) of
        (ModeRequired, ParsecActive) \<Rightarrow> [check_info ''mac_runtime_required_ok'' []]
      | (ModeRequired, _) \<Rightarrow> [check_error ''mac_runtime_required_missing_kernel'' []]
      | (ModeAuto, ParsecActive) \<Rightarrow> [check_info ''mac_runtime_auto_active'' []]
      | (ModeAuto, _) \<Rightarrow> [check_warn ''mac_runtime_auto_fallback'' []]
      | (ModeDisabled, ParsecActive) \<Rightarrow> [check_info ''mac_runtime_disabled_with_kernel'' []]
      | (ModeDisabled, _) \<Rightarrow> [check_info ''mac_runtime_disabled'' []])"

definition check_parsec_caps ::
  "bool \<Rightarrow> libpdp \<Rightarrow> mac_policy \<Rightarrow> kernel_parsec_state \<Rightarrow> startup_check_record list" where
  "check_parsec_caps astra_mac P policy parsec =
     (let writes_expected = mp_runtime policy \<noteq> ModeDisabled \<and> mp_cert_integrity policy \<noteq> CertIgnore
      in if \<not> writes_expected \<or> parsec \<noteq> ParsecActive then []
         else if \<not> astra_mac \<or> check_chmac_capability P then [check_info ''parsec_cap_chmac_ok'' []]
         else [check_warn ''parsec_cap_chmac_missing'' []])"

section \<open>The certificate files\<close>

definition PEM_MARKER :: string where "PEM_MARKER = ''-----BEGIN CERTIFICATE-----''"

text \<open>The markers in a file, counted from the left without overlaps.\<close>

function count_pem_blocks :: "bytes \<Rightarrow> nat" where
  "count_pem_blocks bs =
     (if length bs < length PEM_MARKER then 0
      else if take (length PEM_MARKER) bs = as_bytes PEM_MARKER then 1 + count_pem_blocks (drop (length PEM_MARKER) bs)
      else count_pem_blocks (tl bs))"
  by pat_completeness auto
termination by (relation "measure length") (auto simp: PEM_MARKER_def)

declare count_pem_blocks.simps [simp del]

definition check_pem_file :: "startup_sys \<Rightarrow> string \<Rightarrow> string \<Rightarrow> startup_check_record" where
  "check_pem_file S prefix path =
     (if \<not> ss_exists S path then check_error (prefix @ ''_missing'') path
      else case ss_read S path of
             Inl _ \<Rightarrow> check_error (prefix @ ''_unreadable'') path
           | Inr bs \<Rightarrow>
               if bs = [] then check_error (prefix @ ''_empty'') path
               else if count_pem_blocks bs = 0 then check_warn (prefix @ ''_no_pem'') path
               else check_info (prefix @ ''_ok'') path)"

definition check_anchors :: "startup_sys \<Rightarrow> trust_section \<Rightarrow> startup_check_record list" where
  "check_anchors S trust =
     map (check_pem_file S ''trust_anchor'') (ts_anchors trust) @
     map (check_pem_file S ''trust_intermediate'') (ts_intermediates trust)"

definition check_ca_dir_permissions :: "startup_sys \<Rightarrow> string \<Rightarrow> startup_check_record list" where
  "check_ca_dir_permissions S root =
     (let ca_dir = path_join root ''etc/pam_certauth/ca''
      in case ss_metadata S ca_dir of
           None \<Rightarrow> []
         | Some (is_dir, mode) \<Rightarrow>
             if \<not> is_dir then []
             else if and mode 2 \<noteq> 0 then [check_warn ''trust_ca_dir_world_writable'' ca_dir]
             else [check_info ''trust_ca_dir_ok'' ca_dir])"

section \<open>The host identity\<close>

text \<open>A source that has not answered keeps the check waiting.\<close>

definition check_host_identity :: "crypto \<Rightarrow> host_sys \<Rightarrow> host_identity_section \<Rightarrow> string \<Rightarrow> startup_check_record list option" where
  "check_host_identity C S cfg root =
     map_option (\<lambda>probes.
       if probes = [] then [check_info ''host_identity_sources'' []]
       else map (\<lambda>(kind, outcome).
              if is_ok outcome then check_info ''host_identity_source_ok'' (source_display kind)
              else check_warn ''host_identity_source_failed'' (source_display kind)) probes)
       (probe_all C S (from_validated S cfg root))"

section \<open>The sweep\<close>

definition run_startup_checks ::
  "bool \<Rightarrow> libpdp \<Rightarrow> startup_sys \<Rightarrow> crypto \<Rightarrow> host_sys \<Rightarrow> validated_config \<Rightarrow> startup_check_record list option" where
  "run_startup_checks astra_mac P S C H cfg =
     (let parsec = real_kernel_parsec_probe astra_mac P
      in map_option (\<lambda>ids.
           check_pam_stack S ''/etc/pam.d'' @
           check_mac_runtime (mp_runtime (vf_mac cfg)) parsec @
           check_anchors S (vf_trust cfg) @
           check_ca_dir_permissions S ''/'' @
           check_parsec_caps astra_mac P (vf_mac cfg) parsec @ ids)
         (check_host_identity C H (vf_host_identity cfg) ''/''))"

text \<open>The preflight command: its exit code.\<close>

definition check_run ::
  "bool \<Rightarrow> libpdp \<Rightarrow> startup_sys \<Rightarrow> crypto \<Rightarrow> host_sys \<Rightarrow> ('e, validated_config) result \<Rightarrow> nat option" where
  "check_run astra_mac P S C H cfg =
     (case cfg of
        Inl _ \<Rightarrow> Some 1
      | Inr c \<Rightarrow> map_option (\<lambda>report. if count_severity SevError report = 0 then 0 else 1)
                  (run_startup_checks astra_mac P S C H c))"

section \<open>What the scan finds\<close>

text \<open>A line counts when it is neither empty nor a comment.\<close>

definition counts :: "(string \<Rightarrow> bool) \<Rightarrow> string \<Rightarrow> bool" where
  "counts P raw \<longleftrightarrow> trim_start raw \<noteq> [] \<and> hd (trim_start raw) \<noteq> CHR ''#'' \<and> P (trim_start raw)"

definition first_at :: "('a \<Rightarrow> bool) \<Rightarrow> 'a list \<Rightarrow> nat \<Rightarrow> bool" where
  "first_at P xs i \<longleftrightarrow> i < length xs \<and> P (xs ! i) \<and> (\<forall>k<i. \<not> P (xs ! k))"

fun first_index :: "('a \<Rightarrow> bool) \<Rightarrow> nat \<Rightarrow> 'a list \<Rightarrow> nat option" where
  "first_index P n [] = None"
| "first_index P n (x # xs) = (if P x then Some n else first_index P (Suc n) xs)"

lemma first_at_Cons:
  "first_at P (x # xs) i \<longleftrightarrow> (if P x then i = 0 else i \<noteq> 0 \<and> first_at P xs (i - 1))"
  by (cases i) (auto simp: first_at_def less_Suc_eq_0_disj)

lemma first_index_iff: "first_index P n xs = Some i \<longleftrightarrow> n \<le> i \<and> first_at P xs (i - n)"
proof (induction xs arbitrary: n)
  case (Cons x xs)
  show ?case
  proof (cases "P x")
    case False
    then have "first_index P n (x # xs) = Some i \<longleftrightarrow> Suc n \<le> i \<and> first_at P xs (i - Suc n)" using Cons.IH [of "Suc n"] by simp
    also have "\<dots> \<longleftrightarrow> n \<le> i \<and> i - n \<noteq> 0 \<and> first_at P xs (i - n - 1)" by auto
    finally show ?thesis using False by (simp add: first_at_Cons)
  qed (auto simp: first_at_Cons)
qed (simp add: first_at_def)

lemma first_index_0: "first_index P 0 xs = Some i \<longleftrightarrow> first_at P xs i"
  by (simp add: first_index_iff)

lemma include_not_phase: "is_certauth_include line \<Longrightarrow> \<not> is_auth_parsec_mac line"
  by (auto simp: is_certauth_include_def include_name_def is_auth_parsec_mac_def is_phase_def split: option.splits list.splits if_splits)

definition or_first :: "nat option \<Rightarrow> nat option \<Rightarrow> nat option" where
  "or_first a b = (case a of Some _ \<Rightarrow> a | None \<Rightarrow> b)"

lemma or_first_insert [simp]: "or_first (or_insert n a) b = or_first a (Some n)"
  by (simp add: or_first_def or_insert_def split: option.split)

lemma scan_fold:
  "fold scan_line (enumerate n xs) s =
     \<lparr>sv_include = or_first (sv_include s) (first_index (counts is_certauth_include) n xs),
      sv_parsec = or_first (sv_parsec s) (first_index (counts is_auth_parsec_mac) n xs),
      sv_session = or_first (sv_session s) (first_index (counts is_session_pam_certauth) n xs),
      sv_systemd = or_first (sv_systemd s)
        (first_index (counts (\<lambda>l. is_session_pam_systemd l \<or> is_common_session_include l)) n xs)\<rparr>"
proof (induction xs arbitrary: n s)
  case Nil
  then show ?case by (simp add: or_first_def split: option.split)
next
  case (Cons x xs)
  define line where "line = trim_start x"
  show ?case
  proof (cases "line = [] \<or> hd line = CHR ''#''")
    case True
    then have "scan_line (n, x) s = s" "\<not> counts P x" for P
      by (auto simp: scan_line_def counts_def line_def)
    then show ?thesis by (simp add: Cons.IH)
  next
    case False
    then have c: "counts P x = P line" for P by (simp add: counts_def line_def)
    have step: "scan_line (n, x) s =
        \<lparr>sv_include = if is_certauth_include line then or_insert n (sv_include s) else sv_include s,
         sv_parsec = if is_auth_parsec_mac line then or_insert n (sv_parsec s) else sv_parsec s,
         sv_session = if is_session_pam_certauth line then or_insert n (sv_session s) else sv_session s,
         sv_systemd = if is_session_pam_systemd line \<or> is_common_session_include line
           then or_insert n (sv_systemd s) else sv_systemd s\<rparr>"
      using False include_not_phase [of line] by (auto simp: scan_line_def Let_def line_def)
    show ?thesis by (simp add: step c Cons.IH)
  qed
qed

definition misordered :: "(string \<Rightarrow> bool) \<Rightarrow> (string \<Rightarrow> bool) \<Rightarrow> string \<Rightarrow> bool" where
  "misordered P Q text \<longleftrightarrow>
     (\<exists>i j. first_at (counts P) (str_lines text) i \<and> first_at (counts Q) (str_lines text) j \<and> i < j)"

definition stack_misordered :: "string \<Rightarrow> bool" where
  "stack_misordered text \<longleftrightarrow>
     misordered is_certauth_include is_auth_parsec_mac text \<or>
     misordered is_session_pam_certauth (\<lambda>l. is_session_pam_systemd l \<or> is_common_session_include l) text"

definition no_error :: "startup_check_record list \<Rightarrow> bool" where
  "no_error report \<longleftrightarrow> list_all (\<lambda>r. sr_severity r \<noteq> SevError) report"

lemma has_errors_iff: "has_errors report \<longleftrightarrow> \<not> no_error report"
  by (auto simp: has_errors_def count_severity_def no_error_def list_all_iff filter_empty_conv)

lemma no_error_simps [simp]:
  "no_error []" "no_error (xs @ ys) \<longleftrightarrow> no_error xs \<and> no_error ys"
  "no_error (r # xs) \<longleftrightarrow> sr_severity r \<noteq> SevError \<and> no_error xs"
  "no_error (concat xss) \<longleftrightarrow> list_all no_error xss"
  by (auto simp: no_error_def list_all_iff)

lemma severities [simp]:
  "sr_severity (check_info c x) = SevInfo" "sr_severity (check_warn c x) = SevWarn" "sr_severity (check_error c x) = SevError"
  by (simp_all add: check_info_def check_warn_def check_error_def)

lemma evaluate_service_verdict: "no_error (evaluate_service path text) \<longleftrightarrow> \<not> stack_misordered text"
proof -
  let ?xs = "str_lines text"
  have m: "misordered P Q text \<longleftrightarrow>
      (case (first_index (counts P) 0 ?xs, first_index (counts Q) 0 ?xs) of (Some i, Some j) \<Rightarrow> i < j | _ \<Rightarrow> False)" for P Q
    unfolding misordered_def first_index_0 [symmetric] by (auto split: option.splits)
  show ?thesis
    unfolding stack_misordered_def m evaluate_service_def scan_service_def scan_fold
    by (simp add: or_first_def Let_def split: option.split)
qed

lemma check_mac_runtime_verdict: "no_error (check_mac_runtime runtime parsec) \<longleftrightarrow> (runtime = ModeRequired \<longrightarrow> parsec = ParsecActive)"
  by (simp add: check_mac_runtime_def split: mac_runtime_mode.split kernel_parsec_state.split)

definition pem_present :: "startup_sys \<Rightarrow> string \<Rightarrow> bool" where
  "pem_present S path \<longleftrightarrow> ss_exists S path \<and> (\<exists>bs. ss_read S path = Ok bs \<and> bs \<noteq> [])"

lemma check_pem_file_verdict: "sr_severity (check_pem_file S prefix path) \<noteq> SevError \<longleftrightarrow> pem_present S path"
  by (auto simp: check_pem_file_def pem_present_def split: sum.splits)

lemma check_anchors_verdict:
  "no_error (check_anchors S trust) \<longleftrightarrow> list_all (pem_present S) (ts_anchors trust @ ts_intermediates trust)"
  by (simp add: check_anchors_def no_error_def list_all_iff ball_Un check_pem_file_verdict)

text \<open>The conditions of a start, without the checks.\<close>

definition may_start :: "bool \<Rightarrow> libpdp \<Rightarrow> startup_sys \<Rightarrow> validated_config \<Rightarrow> bool" where
  "may_start astra_mac P S cfg \<longleftrightarrow>
     (\<forall>svc\<in>set STANDARD_SERVICES. \<forall>text. ss_exists S (path_join ''/etc/pam.d'' svc) \<longrightarrow>
        ss_read_text S (path_join ''/etc/pam.d'' svc) = Ok text \<longrightarrow> \<not> stack_misordered text) \<and>
     (mp_runtime (vf_mac cfg) = ModeRequired \<longrightarrow> real_kernel_parsec_probe astra_mac P = ParsecActive) \<and>
     list_all (pem_present S) (ts_anchors (vf_trust cfg) @ ts_intermediates (vf_trust cfg))"

lemma check_pam_stack_verdict:
  "no_error (check_pam_stack S root) \<longleftrightarrow>
     (\<forall>svc\<in>set STANDARD_SERVICES. \<forall>text. ss_exists S (path_join root svc) \<longrightarrow>
        ss_read_text S (path_join root svc) = Ok text \<longrightarrow> \<not> stack_misordered text)"
proof -
  have "no_error (check_pam_service S root svc) \<longleftrightarrow> (\<forall>text. ss_exists S (path_join root svc) \<longrightarrow>
      ss_read_text S (path_join root svc) = Ok text \<longrightarrow> \<not> stack_misordered text)" for svc
    by (simp add: check_pam_service_def Let_def evaluate_service_verdict split: sum.split)
  then show ?thesis by (simp add: check_pam_stack_def list_all_iff)
qed

lemma startup_verdict:
  assumes "run_startup_checks astra_mac P S C H cfg = Some report"
  shows "has_errors report \<longleftrightarrow> \<not> may_start astra_mac P S cfg"
proof -
  from assms obtain ids where ids: "check_host_identity C H (vf_host_identity cfg) ''/'' = Some ids"
    and report: "report = check_pam_stack S ''/etc/pam.d'' @ check_mac_runtime (mp_runtime (vf_mac cfg)) (real_kernel_parsec_probe astra_mac P)
      @ check_anchors S (vf_trust cfg) @ check_ca_dir_permissions S ''/''
      @ check_parsec_caps astra_mac P (vf_mac cfg) (real_kernel_parsec_probe astra_mac P) @ ids"
    by (auto simp: run_startup_checks_def Let_def)
  have "no_error ids"
    using ids by (auto simp: check_host_identity_def no_error_def list_all_iff split: if_splits)
  moreover have "no_error (check_ca_dir_permissions S ''/'')" "no_error (check_parsec_caps astra_mac P (vf_mac cfg) k)" for k
    by (simp_all add: check_ca_dir_permissions_def check_parsec_caps_def Let_def split: option.split)
  ultimately have "no_error report \<longleftrightarrow> may_start astra_mac P S cfg"
    unfolding report may_start_def no_error_simps check_pam_stack_verdict check_mac_runtime_verdict check_anchors_verdict by simp
  then show ?thesis by (simp add: has_errors_iff)
qed

text \<open>
  C20. When the daemon may start. The sweep has no error exactly when no readable PAM service file
  puts the certificate include before the MAC module, or the session module before systemd's,
  counting the first line of each kind that is not a comment; a required MAC runtime is active in
  the kernel; and every anchor and intermediate is a readable file that is not empty. The preflight
  command exits with zero exactly then.
\<close>

theorem startup_gate:
  assumes "run_startup_checks astra_mac P S C H cfg = Some report"
  shows "(has_errors report \<longleftrightarrow> \<not> may_start astra_mac P S cfg)
     \<and> (check_run astra_mac P S C H (Inr cfg) = Some 0 \<longleftrightarrow> may_start astra_mac P S cfg)"
  using assms startup_verdict [OF assms] by (auto simp: check_run_def has_errors_def)

text \<open>
  C22. The daemon and the module agree on the MAC runtime. For a policy that passed validation, the
  startup check reports an error exactly when the module would refuse to open sessions because no
  backend is available, so a daemon that started on this kernel stands beside a module that finds
  a backend.
\<close>

theorem startup_agrees_on_runtime:
  assumes "mac_ok astra_mac m"
  shows "has_errors (check_mac_runtime (mp_runtime m) (real_kernel_parsec_probe astra_mac P))
    \<longleftrightarrow> is_err (fst (build_backend astra_mac P (mp_runtime m)))"
  using assms
  by (cases "mp_runtime m")
    (auto simp: has_errors_iff check_mac_runtime_verdict real_kernel_parsec_probe_def build_backend_def mac_ok_def
      parsec_backend_def split: mac_runtime.splits)

theorem startup_agrees_on_runtime_witness:
  "mac_ok True demo_policy \<and> is_ok (fst (build_backend True demo_pdp ModeRequired))
     \<and> \<not> has_errors (check_mac_runtime ModeRequired (real_kernel_parsec_probe True demo_pdp))"
proof -
  have m: "mac_ok True demo_policy" by (simp add: mac_ok_def demo_policy_def)
  have b: "is_ok (fst (build_backend True demo_pdp ModeRequired))"
    by (simp add: build_backend_def parsec_backend_def probe_runtime_def demo_pdp_def)
  then have "\<not> is_err (fst (build_backend True demo_pdp ModeRequired))"
    by (cases "fst (build_backend True demo_pdp ModeRequired)") simp_all
  with m b startup_agrees_on_runtime [OF m, of demo_pdp] show ?thesis by (simp add: demo_policy_def)
qed

lemma count_pem_blocks_pos: "0 < count_pem_blocks (as_bytes s) \<longleftrightarrow> str_contains PEM_MARKER s"
proof (induction "as_bytes s" arbitrary: s rule: count_pem_blocks.induct)
  case 1
  have short: "\<not> str_contains pat t" if "length t < length pat" for pat t :: string
    using that by (induction t) auto
  have t: "take (length PEM_MARKER) (as_bytes s) = as_bytes PEM_MARKER \<longleftrightarrow> take (length PEM_MARKER) s = PEM_MARKER"
    by (metis as_bytes_def str_of_bytes_as_bytes take_map)
  show ?case
  proof (cases "length s < length PEM_MARKER")
    case True
    with short show ?thesis by (subst count_pem_blocks.simps) simp
  next
    case False
    then obtain c cs where s: "s = c # cs" by (cases s) (auto simp: PEM_MARKER_def)
    have "tl (as_bytes s) = as_bytes cs" by (simp add: s as_bytes_def)
    with 1(2) [of cs] False t s show ?thesis
      by (subst count_pem_blocks.simps) (auto simp: PEM_MARKER_def)
  qed
qed

definition demo_startup_sys :: startup_sys where
  "demo_startup_sys = \<lparr>ss_exists = (\<lambda>p. p = ''/etc/ca.pem''), ss_read_text = (\<lambda>_. Err ''none''), ss_read = (\<lambda>_. Ok [45]),
     ss_metadata = (\<lambda>_. None)\<rparr>"

lemma demo_startup: "\<exists>report. run_startup_checks False demo_pdp demo_startup_sys C Host_Identity.demo_host demo_config = Some report"
  by (simp add: run_startup_checks_def Let_def check_host_identity_def from_validated_def demo_config_host source_of_def)

lemma demo_may_start: "may_start False demo_pdp demo_startup_sys demo_config"
  by (simp add: may_start_def demo_startup_sys_def STANDARD_SERVICES_def path_join_def demo_config_mac demo_config_trust pem_present_def)

theorem startup_gate_witness: "check_run False demo_pdp demo_startup_sys demo_wire_crypto Host_Identity.demo_host (Inr demo_config) = Some 0"
proof -
  obtain report where r: "run_startup_checks False demo_pdp demo_startup_sys demo_wire_crypto Host_Identity.demo_host demo_config = Some report"
    using demo_startup by blast
  show ?thesis by (rule iffD2 [OF conjunct2 [OF startup_gate [OF r]] demo_may_start])
qed

end
