(* ===== verification/Utc_Time.thy ===== *)
theory Utc_Time
  imports Rust_Prelude "HOL-Library.Signed_Division"
begin

text \<open>
  The conversion of seconds to a UTC date in \<open>dump_host_id.rs\<close> (\<open>epoch_to_utc\<close>, \<open>utc_stamp_compact\<close>,
  \<open>utc_iso8601\<close>), and its equivalence with the calendar counted day by day from 1 January 1970.

  The \<open>i64\<close> arithmetic is on integers: every value is below \<open>2 ^ 48\<close> in size. Its division truncates,
  as \<open>sdiv\<close> does. The casts to 32 bits are kept.
\<close>

section \<open>The code\<close>

definition month_of_mp :: "int \<Rightarrow> int" where
  "month_of_mp mp = (if mp < 10 then mp + 3 else mp - 9)"

text \<open>The part of the conversion from the day count \<open>z\<close> to the year, the month and the day.\<close>

definition civil_from_days :: "int \<Rightarrow> int \<times> int \<times> int" where
  "civil_from_days z =
     (let era = (if z \<ge> 0 then z else z - 146096) sdiv 146097;
          doe = z - era * 146097;
          yoe = (doe - doe sdiv 1460 + doe sdiv 36524 - doe sdiv 146096) sdiv 365;
          y = yoe + era * 400;
          doy = doe - (365 * yoe + yoe sdiv 4 - yoe sdiv 100);
          mp = (5 * doy + 2) sdiv 153;
          d = doy - (153 * mp + 2) sdiv 5 + 1;
          m = month_of_mp mp
      in (if m \<le> 2 then y + 1 else y, m, d))"

definition epoch_to_utc :: "u64 \<Rightarrow> i32 \<times> u32 \<times> u32 \<times> u32 \<times> u32 \<times> u32" where
  "epoch_to_utc secs =
     (let days = uint (secs div 86400);
          seconds_of_day = (ucast (secs mod 86400) :: u32);
          h = seconds_of_day div 3600;
          mi = (seconds_of_day mod 3600) div 60;
          s = seconds_of_day mod 60;
          (y, m, d) = civil_from_days (days + 719468)
      in (word_of_int y, word_of_int m, word_of_int d, h, mi, s))"

text \<open>The formats \<open>{:02}\<close> and \<open>{:04}\<close>; a sign counts for the width.\<close>

definition pad0 :: "nat \<Rightarrow> string \<Rightarrow> string" where
  "pad0 w s = replicate (w - length s) CHR ''0'' @ s"

definition show_year :: "i32 \<Rightarrow> string" where
  "show_year y = (if sint y < 0 then CHR ''-'' # pad0 3 (to_decimal (nat (- sint y))) else pad0 4 (to_decimal (nat (sint y))))"

definition show02 :: "u32 \<Rightarrow> string" where
  "show02 w = pad0 2 (to_decimal (unat w))"

definition utc_stamp_compact :: "u64 \<Rightarrow> string" where
  "utc_stamp_compact secs =
     (case epoch_to_utc secs of (y, mo, d, h, mi, s) \<Rightarrow>
        show_year y @ show02 mo @ show02 d @ ''T'' @ show02 h @ show02 mi @ show02 s @ ''Z'')"

definition utc_iso8601 :: "u64 \<Rightarrow> string" where
  "utc_iso8601 secs =
     (case epoch_to_utc secs of (y, mo, d, h, mi, s) \<Rightarrow>
        show_year y @ ''-'' @ show02 mo @ ''-'' @ show02 d @ ''T'' @ show02 h @ '':'' @ show02 mi @ '':'' @ show02 s @ ''Z'')"

section \<open>The calendar\<close>

definition leap_year :: "int \<Rightarrow> bool" where
  "leap_year y \<longleftrightarrow> y mod 4 = 0 \<and> (y mod 100 \<noteq> 0 \<or> y mod 400 = 0)"

definition days_in_month :: "int \<Rightarrow> int \<Rightarrow> int" where
  "days_in_month y m =
     (if m = 2 then (if leap_year y then 29 else 28) else if m \<in> {4, 6, 9, 11} then 30 else 31)"

fun next_day :: "int \<times> int \<times> int \<Rightarrow> int \<times> int \<times> int" where
  "next_day (y, m, d) =
     (if d < days_in_month y m then (y, m, d + 1) else if m < 12 then (y, m + 1, 1) else (y + 1, 1, 1))"

section \<open>Years that begin in March\<close>

text \<open>The year \<open>y\<close> that begins on 1 March has the leap day of the year \<open>y + 1\<close> at its end.\<close>

definition year_start :: "int \<Rightarrow> int" where
  "year_start y = 365 * y + y div 4 - y div 100 + y div 400"

definition march_year_length :: "int \<Rightarrow> int" where
  "march_year_length y = (if leap_year (y + 1) then 366 else 365)"

definition march_date :: "int \<Rightarrow> int \<Rightarrow> int \<times> int \<times> int" where
  "march_date y doy =
     (let mp = (5 * doy + 2) div 153; m = month_of_mp mp
      in (if m \<le> 2 then y + 1 else y, m, doy - (153 * mp + 2) div 5 + 1))"

lemma div_plus_one: "(y + 1) div k = y div k + (if (y + 1) mod k = 0 then 1 else 0)" if k: "1 < k" for k :: int
proof -
  have m: "(y + 1) mod k = (y mod k + 1) mod k" by (simp add: mod_add_left_eq)
  have "y mod k + 1 \<le> k" using k pos_mod_bound [of k y] by linarith
  then consider "y mod k + 1 = k" | "0 \<le> y mod k + 1" "y mod k + 1 < k" "y mod k + 1 \<noteq> 0"
    using k pos_mod_sign [of k y] by linarith
  then show ?thesis using k by cases (auto simp: m div_add1_eq [of y 1])
qed

lemma year_start_Suc: "year_start (y + 1) = year_start y + march_year_length y"
proof -
  define a b c where "a \<longleftrightarrow> (y + 1) mod 4 = 0" "b \<longleftrightarrow> (y + 1) mod 100 = 0" "c \<longleftrightarrow> (y + 1) mod 400 = 0"
  define p q r p' q' r' where "p = y div 4" "q = y div 100" "r = y div 400"
    "p' = (y + 1) div 4" "q' = (y + 1) div 100" "r' = (y + 1) div 400"
  have "c \<Longrightarrow> b" "b \<Longrightarrow> a"
    using mod_mod_cancel [of 100 400 "y + 1"] mod_mod_cancel [of 4 100 "y + 1"] by (simp_all add: a_b_c_def)
  moreover have "p' = p + (if a then 1 else 0)" "q' = q + (if b then 1 else 0)" "r' = r + (if c then 1 else 0)"
    unfolding a_b_c_def p_q_r_p'_q'_r'_def by (rule div_plus_one, simp)+
  moreover have "leap_year (y + 1) \<longleftrightarrow> a \<and> (\<not> b \<or> c)" by (simp add: leap_year_def a_b_c_def)
  ultimately show ?thesis
    unfolding year_start_def march_year_length_def p_q_r_p'_q'_r'_def [symmetric] by (cases a; cases b; cases c) simp_all
qed

text \<open>The day of the year at which the months from March on begin.\<close>

definition month_start :: "int \<Rightarrow> int" where
  "month_start mp = (153 * mp + 2) div 5"

lemma month_of_doy: "(5 * doy + 2) div 153 = mp \<longleftrightarrow> month_start mp \<le> doy \<and> doy < month_start (mp + 1)"
proof -
  have d: "5 * month_start k \<le> 153 * k + 2" "153 * k + 2 < 5 * month_start k + 5" for k
    unfolding month_start_def by linarith+
  show ?thesis
  proof
    assume "(5 * doy + 2) div 153 = mp"
    then have "153 * mp \<le> 5 * doy + 2" "5 * doy + 2 < 153 * mp + 153" by linarith+
    with d [of mp] d [of "mp + 1"] show "month_start mp \<le> doy \<and> doy < month_start (mp + 1)" by simp
  next
    assume "month_start mp \<le> doy \<and> doy < month_start (mp + 1)"
    with d [of mp] d [of "mp + 1"] have "153 * mp \<le> 5 * doy + 2" "5 * doy + 2 < 153 * mp + 153" by simp_all
    then show "(5 * doy + 2) div 153 = mp" by linarith
  qed
qed

lemma month_starts:
  "month_start 0 = 0" "month_start 1 = 31" "month_start 2 = 61" "month_start 3 = 92" "month_start 4 = 122"
  "month_start 5 = 153" "month_start 6 = 184" "month_start 7 = 214" "month_start 8 = 245" "month_start 9 = 275"
  "month_start 10 = 306" "month_start 11 = 337" "month_start 12 = 367"
  by (simp_all add: month_start_def)

lemma march_date_eq:
  assumes "month_start mp \<le> doy" "doy < month_start (mp + 1)"
  shows "march_date y doy = (if month_of_mp mp \<le> 2 then y + 1 else y, month_of_mp mp, doy - month_start mp + 1)"
  using assms month_of_doy [of doy mp] by (simp add: march_date_def Let_def month_start_def)

lemma doy_month:
  assumes "0 \<le> doy" "doy < 366"
  obtains mp where "mp \<in> {0, 1, 2, 3, 4, 5, 6, 7, 8, 9, 10, 11}" "month_start mp \<le> doy" "doy < month_start (mp + 1)"
proof -
  let ?mp = "(5 * doy + 2) div 153"
  have "{0..11 :: int} = {0, 1, 2, 3, 4, 5, 6, 7, 8, 9, 10, 11}" by code_simp
  moreover have "?mp \<in> {0..11}" using assms unfolding atLeastAtMost_iff by linarith
  ultimately have "?mp \<in> {0, 1, 2, 3, 4, 5, 6, 7, 8, 9, 10, 11}" by blast
  with that month_of_doy show ?thesis by blast
qed

lemma month_facts:
  assumes "mp \<in> {0, 1, 2, 3, 4, 5, 6, 7, 8, 9, 10}"
  shows "month_start (mp + 1) - month_start mp = days_in_month y (month_of_mp mp)"
    "month_of_mp (mp + 1) = (if month_of_mp mp < 12 then month_of_mp mp + 1 else 1)"
    "month_of_mp mp \<le> 2 \<longleftrightarrow> mp = 10" "month_of_mp (mp + 1) \<le> 2 \<longleftrightarrow> mp = 9 \<or> mp = 10" "month_of_mp mp = 12 \<longleftrightarrow> mp = 9"
    "month_of_mp mp \<le> 12"
  using assms
  by (elim insertE emptyE; simp add: month_starts month_of_mp_def days_in_month_def)+

lemma march_date_next:
  assumes "0 \<le> doy" "doy + 1 < march_year_length y"
  shows "next_day (march_date y doy) = march_date y (doy + 1)"
proof -
  have b: "doy < 366" "doy + 1 < 366" using assms(2) by (simp_all add: march_year_length_def split: if_splits)
  from assms(1) b(1) obtain mp where mp: "mp \<in> {0, 1, 2, 3, 4, 5, 6, 7, 8, 9, 10, 11}"
    "month_start mp \<le> doy" "doy < month_start (mp + 1)" by (rule doy_month)
  note here = march_date_eq [OF mp(2,3), of y]
  show ?thesis
  proof (cases "mp = 11")
    case True
    then have "march_date y (doy + 1) = (y + 1, 2, doy - 337 + 2)"
      using b mp by (subst march_date_eq [of 11]) (simp_all add: month_starts month_of_mp_def)
    with here True assms show ?thesis
      by (simp add: month_starts month_of_mp_def days_in_month_def march_year_length_def split: if_splits)
  next
    case False
    with mp(1) have m: "mp \<in> {0, 1, 2, 3, 4, 5, 6, 7, 8, 9, 10}" by blast
    note f = month_facts [OF m]
    show ?thesis
    proof (cases "doy + 1 < month_start (mp + 1)")
      case True
      with mp(2) have "march_date y (doy + 1) = (if month_of_mp mp \<le> 2 then y + 1 else y, month_of_mp mp, doy + 1 - month_start mp + 1)"
        by (intro march_date_eq) simp_all
      moreover have "doy - month_start mp + 1 < days_in_month z (month_of_mp mp)" for z using True f(1) [of z] by linarith
      ultimately show ?thesis using here by (simp add: algebra_simps)
    next
      case False
      with mp(3) have e: "doy + 1 = month_start (mp + 1)" by simp
      have "month_start (mp + 1) < month_start (mp + 1 + 1)"
        using m by (elim insertE emptyE; simp add: month_starts)
      with e have n: "march_date y (doy + 1) = (if month_of_mp (mp + 1) \<le> 2 then y + 1 else y, month_of_mp (mp + 1), 1)"
        using march_date_eq [of "mp + 1" "doy + 1" y] by simp
      have "\<not> doy - month_start mp + 1 < days_in_month z (month_of_mp mp)" for z using e f(1) [of z] by linarith
      then show ?thesis unfolding here n using f(2-6) by auto
    qed
  qed
qed

lemma march_date_last:
  assumes "doy + 1 = march_year_length y"
  shows "next_day (march_date y doy) = march_date (y + 1) 0"
proof -
  have "march_date (y + 1) 0 = (y + 1, 3, 1)" by (simp add: march_date_eq [of 0] month_starts month_of_mp_def)
  moreover have "march_date y doy = (y + 1, 2, doy - 337 + 1)"
    using assms by (subst march_date_eq [of 11]) (auto simp: month_starts month_of_mp_def march_year_length_def split: if_splits)
  ultimately show ?thesis using assms by (auto simp: days_in_month_def march_year_length_def split: if_splits)
qed

section \<open>The code computes the calendar\<close>

lemma year_of_era:
  fixes c q r doy :: int
  assumes b: "0 \<le> c" "c \<le> 3" "0 \<le> q" "q \<le> 24" "0 \<le> r" "r \<le> 3" "0 \<le> doy" "doy \<le> 365"
    and leap: "doy = 365 \<longrightarrow> r = 3 \<and> (q = 24 \<longrightarrow> c = 3)"
    and doe: "doe = 36524 * c + 1461 * q + 365 * r + doy"
  shows "(doe - doe div 1460 + doe div 36524 - doe div 146096) div 365 = 100 * c + 4 * q + r" "0 \<le> doe" "doe < 146097"
proof -
  define rest where "rest = 24 * c + q + 365 * r + doy"
  define d1 :: int where "d1 = (if rest \<ge> 1460 then 1 else 0)"
  define d2 :: int where "d2 = (if q = 24 \<and> r = 3 \<and> doy = 365 then 1 else 0)"
  have "doe = 1460 * (25 * c + q) + rest" "0 \<le> rest" "rest < 2920" using b by (simp_all add: doe rest_def)
  then have "doe div 1460 = 25 * c + q + d1" by (auto simp: d1_def)
  moreover have "doe div 36524 = c + d2" using b by (auto simp: d2_def doe)
  moreover have "doe div 146096 = d2" using b leap by (auto simp: d2_def doe)
  ultimately have "doe - doe div 1460 + doe div 36524 - doe div 146096 = 365 * (100 * c + 4 * q + r) + (doy - d1)"
    by (simp add: doe)
  moreover have "0 \<le> doy - d1" "doy - d1 \<le> 364" using b leap by (cases "doy = 365"; auto simp: d1_def rest_def)+
  ultimately show "(doe - doe div 1460 + doe div 36524 - doe div 146096) div 365 = 100 * c + 4 * q + r" by simp
  show "0 \<le> doe" "doe < 146097" using b by (simp_all add: doe)
qed

text \<open>A year in its position within the era, the century and the group of four.\<close>

lemma year_parts:
  assumes "0 \<le> (y :: int)"
  obtains era c q r where "y = 400 * era + 100 * c + 4 * q + r" "0 \<le> era"
    "0 \<le> c" "c \<le> 3" "0 \<le> q" "q \<le> 24" "0 \<le> r" "r \<le> 3"
proof -
  define era c q r where "era = y div 400" "c = y mod 400 div 100" "q = y mod 400 mod 100 div 4" "r = y mod 400 mod 100 mod 4"
  have "y = 400 * era + y mod 400" "y mod 400 = 100 * c + y mod 400 mod 100" "y mod 400 mod 100 = 4 * q + r"
    unfolding era_c_q_r_def by simp_all
  then have "y = 400 * era + 100 * c + 4 * q + r" by linarith
  moreover have "0 \<le> era" using assms by (simp add: era_c_q_r_def pos_imp_zdiv_nonneg_iff)
  moreover have "0 \<le> c" "c \<le> 3" "0 \<le> q" "q \<le> 24" "0 \<le> r" "r \<le> 3"
  proof -
    have a: "0 \<le> x mod k" "x mod k < k" if "0 < k" for x k :: int using that by simp_all
    show "0 \<le> c" "c \<le> 3" "0 \<le> q" "q \<le> 24" "0 \<le> r" "r \<le> 3"
      using a [of 400 y] a [of 100 "y mod 400"] a [of 4 "y mod 400 mod 100"] unfolding era_c_q_r_def by linarith+
  qed
  ultimately show ?thesis by (rule that)
qed

lemma year_start_parts:
  assumes "0 \<le> c" "c \<le> 3" "0 \<le> q" "q \<le> 24" "0 \<le> r" "r \<le> (3 :: int)"
  shows "year_start (400 * era + 100 * c + 4 * q + r) = 146097 * era + 36524 * c + 1461 * q + 365 * r"
    "(100 * c + 4 * q + r) div 4 = 25 * c + q" "(100 * c + 4 * q + r) div 100 = c"
proof -
  have "(400 * era + 100 * c + 4 * q + r) div 4 = 100 * era + 25 * c + q" using assms by simp
  moreover have "(400 * era + 100 * c + 4 * q + r) div 100 = 4 * era + c" using assms by simp
  moreover have "(400 * era + 100 * c + 4 * q + r) div 400 = era" using assms by simp
  ultimately show "year_start (400 * era + 100 * c + 4 * q + r) = 146097 * era + 36524 * c + 1461 * q + 365 * r"
    by (simp add: year_start_def)
  show "(100 * c + 4 * q + r) div 4 = 25 * c + q" "(100 * c + 4 * q + r) div 100 = c" using assms by simp_all
qed

lemma leap_parts:
  assumes "0 \<le> c" "c \<le> 3" "0 \<le> q" "q \<le> 24" "0 \<le> r" "r \<le> (3 :: int)" "leap_year (400 * era + 100 * c + 4 * q + r + 1)"
  shows "r = 3 \<and> (q = 24 \<longrightarrow> c = 3)"
proof -
  let ?y = "400 * era + 100 * c + 4 * q + r + 1"
  have "?y = 4 * (100 * era + 25 * c + q) + (r + 1)" by simp
  then have "?y mod 4 = (r + 1) mod 4" by (simp only: mod_mult_self4)
  then have "(r + 1) mod 4 = 0" using assms(7) by (simp add: leap_year_def)
  then have r: "r = 3" using assms(5,6) zdvd_imp_le [of 4 "r + 1"] by auto
  moreover have "c = 3" if "q = 24"
  proof -
    have "?y = 100 * (4 * era + c + 1)" using that r by simp
    then have "?y mod 100 = 0" by (simp only: mod_mult_self1_is_0)
    moreover have "?y = 400 * era + 100 * (c + 1)" using that r by simp
    then have "?y mod 400 = (100 * (c + 1)) mod 400" by (simp only: mod_mult_self4)
    moreover have "c = 0 \<or> c = 1 \<or> c = 2 \<or> c = 3" using assms(1,2) by linarith
    ultimately show ?thesis using assms(7) by (auto simp: leap_year_def)
  qed
  ultimately show ?thesis by blast
qed

lemma sdiv_div: "0 \<le> x \<Longrightarrow> 0 < k \<Longrightarrow> x sdiv k = x div (k :: int)"
  by (simp add: signed_divide_int_def sgn_if)

lemma civil_steps:
  assumes "0 \<le> z" "z div 146097 = era" "z - era * 146097 = doe" "0 \<le> doe" "0 \<le> yoe" "0 \<le> doy"
    "(doe - doe div 1460 + doe div 36524 - doe div 146096) div 365 = yoe"
    "doe - (365 * yoe + yoe div 4 - yoe div 100) = doy"
  shows "civil_from_days z = march_date (yoe + era * 400) doy"
proof -
  let ?x = "doe - doe div 1460 + doe div 36524 - doe div 146096"
  have "0 \<le> ?x" using assms(5,7) pos_imp_zdiv_nonneg_iff [of 365 ?x] by linarith
  then have x: "?x sdiv 365 = yoe" using assms(7) by (simp only: sdiv_div)
  have s: "doe sdiv 1460 = doe div 1460" "doe sdiv 36524 = doe div 36524" "doe sdiv 146096 = doe div 146096"
    "yoe sdiv 4 = yoe div 4" "yoe sdiv 100 = yoe div 100" "z sdiv 146097 = era"
    "(5 * doy + 2) sdiv 153 = (5 * doy + 2) div 153"
    "(153 * ((5 * doy + 2) div 153) + 2) sdiv 5 = (153 * ((5 * doy + 2) div 153) + 2) div 5"
    using assms(1,2,4-6) by (simp_all add: sdiv_div)
  show ?thesis
    unfolding civil_from_days_def march_date_def Let_def by (simp only: assms(1) if_True s assms(3) x assms(8))
qed

lemma civil_march:
  assumes "0 \<le> y" "0 \<le> doy" "doy < march_year_length y"
  shows "civil_from_days (year_start y + doy) = march_date y doy"
proof -
  obtain era c q r where y: "y = 400 * era + 100 * c + 4 * q + r" "0 \<le> era"
    and b: "0 \<le> c" "c \<le> 3" "0 \<le> q" "q \<le> 24" "0 \<le> r" "r \<le> 3" using assms(1) by (rule year_parts)
  define doe where "doe = 36524 * c + 1461 * q + 365 * r + doy"
  have doy: "doy \<le> 365" "doy = 365 \<longrightarrow> r = 3 \<and> (q = 24 \<longrightarrow> c = 3)"
    using assms(3) leap_parts [OF b] by (auto simp: march_year_length_def y split: if_splits)
  note e = year_of_era [OF b assms(2) doy doe_def]
  have z: "year_start y + doy = 146097 * era + doe" by (simp add: y year_start_parts [OF b] doe_def)
  have "civil_from_days (146097 * era + doe) = march_date (100 * c + 4 * q + r + era * 400) doy"
  proof (rule civil_steps [OF _ _ _ e(2) _ assms(2) e(1)])
    show "0 \<le> 146097 * era + doe" "0 \<le> 100 * c + 4 * q + r" using e(2) y(2) b by simp_all
    show "(146097 * era + doe) div 146097 = era" using e(2,3) by simp
    show "doe - (365 * (100 * c + 4 * q + r) + (100 * c + 4 * q + r) div 4 - (100 * c + 4 * q + r) div 100) = doy"
      by (simp add: year_start_parts [OF b] doe_def)
  qed simp
  moreover have "100 * c + 4 * q + r + era * 400 = y" by (simp add: y(1))
  ultimately show ?thesis by (simp add: z)
qed

lemma calendar_reached:
  "\<exists>y doy. 0 \<le> y \<and> 0 \<le> doy \<and> doy < march_year_length y \<and> 719468 + int n = year_start y + doy
     \<and> (next_day ^^ n) (1970, 1, 1) = march_date y doy"
proof (induction n)
  case 0
  have "year_start 1969 + 306 = 719468" by (simp add: year_start_def)
  moreover have "march_date 1969 306 = (1970, 1, 1)" by (simp add: march_date_eq [of 10] month_starts month_of_mp_def)
  moreover have "306 < march_year_length 1969" by (simp add: march_year_length_def)
  ultimately show ?case by (intro exI [of _ 1969] exI [of _ 306]) simp
next
  case (Suc n)
  then obtain y doy where h: "0 \<le> y" "0 \<le> doy" "doy < march_year_length y" "719468 + int n = year_start y + doy"
    "(next_day ^^ n) (1970, 1, 1) = march_date y doy" by blast
  show ?case
  proof (cases "doy + 1 < march_year_length y")
    case True
    with h march_date_next [OF h(2) True] show ?thesis by (intro exI [of _ y] exI [of _ "doy + 1"]) simp
  next
    case False
    with h(3) have l: "doy + 1 = march_year_length y" by simp
    then have "719468 + int (Suc n) = year_start (y + 1) + 0" using h(4) by (simp add: year_start_Suc)
    moreover have "0 < march_year_length (y + 1)" by (simp add: march_year_length_def)
    ultimately show ?thesis using h march_date_last [OF l] by (intro exI [of _ "y + 1"] exI [of _ 0]) simp
  qed
qed

lemma civil_calendar: "civil_from_days (719468 + int n) = (next_day ^^ n) (1970, 1, 1)"
  using calendar_reached [of n] civil_march by metis

text \<open>The fields of a date fit the widths they are cast to.\<close>

lemma calendar_bounds:
  assumes "(next_day ^^ n) (1970, 1, 1) = (y, m, d)"
  shows "1970 \<le> y" "y \<le> 1970 + int n" "1 \<le> m" "m \<le> 12" "1 \<le> d" "d \<le> 31"
proof -
  have "1970 \<le> y \<and> y \<le> 1970 + int n \<and> 1 \<le> m \<and> m \<le> 12 \<and> 1 \<le> d \<and> d \<le> 31"
    using assms
  proof (induction n arbitrary: y m d)
    case (Suc n)
    obtain y' m' d' where h: "(next_day ^^ n) (1970, 1, 1) = (y', m', d')" by (metis prod_cases3)
    from Suc.IH [OF h] Suc.prems h show ?case by (auto simp: days_in_month_def split: if_splits)
  qed simp
  then show "1970 \<le> y" "y \<le> 1970 + int n" "1 \<le> m" "m \<le> 12" "1 \<le> d" "d \<le> 31" by simp_all
qed

lemma casts:
  "- (2 ^ 31) \<le> y \<Longrightarrow> y < 2 ^ 31 \<Longrightarrow> sint (word_of_int y :: i32) = y"
  "0 \<le> x \<Longrightarrow> x < 2 ^ 32 \<Longrightarrow> uint (word_of_int x :: u32) = x"
  by (simp_all add: sint_sbintrunc' signed_take_bit_int_eq_self unsigned_of_int take_bit_int_eq_self)

lemma uint_seconds_of_day: "uint (ucast (w mod 86400 :: u64) :: u32) = uint w mod 86400"
proof -
  have "uint w mod 86400 < 86400" by simp
  then show ?thesis by (simp add: unsigned_ucast_eq uint_mod take_bit_int_eq_self)
qed

lemma time_of_day:
  fixes t :: int
  assumes "0 \<le> t" "t < 86400"
  shows "t div 3600 * 3600 + t mod 3600 div 60 * 60 + t mod 60 = t" "t div 3600 < 24" "t mod 3600 div 60 < 60"
proof -
  have "t mod 3600 = t mod 3600 div 60 * 60 + t mod 3600 mod 60" by simp
  moreover have "t mod 3600 mod 60 = t mod 60" by (simp add: mod_mod_cancel)
  moreover have "t = t div 3600 * 3600 + t mod 3600" by simp
  ultimately show "t div 3600 * 3600 + t mod 3600 div 60 * 60 + t mod 60 = t" by linarith
  show "t div 3600 < 24" "t mod 3600 div 60 < 60" using assms by simp_all
qed

text \<open>
  C21. The conversion of seconds to a date is the calendar. For every time of the first four million
  years, the year, month and day that \<open>epoch_to_utc\<close> computes by divisions are the date reached from
  1 January 1970 by as many steps to the next day as there are whole days, with the leap years of
  the Gregorian calendar, and the hour, minute and second make up the rest.
\<close>

theorem epoch_to_utc_calendar:
  assumes "uint secs < 2 ^ 47" "epoch_to_utc secs = (y, mo, d, h, mi, s)"
  shows "(sint y, uint mo, uint d) = (next_day ^^ nat (uint secs div 86400)) (1970, 1, 1)
    \<and> uint h * 3600 + uint mi * 60 + uint s = uint secs mod 86400 \<and> uint h < 24 \<and> uint mi < 60 \<and> uint s < 60"
proof -
  define n where "n = nat (uint secs div 86400)"
  obtain y' m' d' where c: "(next_day ^^ n) (1970, 1, 1) = (y', m', d')" by (metis prod_cases3)
  have "uint (secs div 86400) = int n" by (simp add: uint_div n_def)
  then have "civil_from_days (uint (secs div 86400) + 719468) = (y', m', d')"
    using civil_calendar [of n] c by (simp add: add.commute)
  with assms(2) have e: "y = word_of_int y'" "mo = word_of_int m'" "d = word_of_int d'"
    "h = ucast (secs mod 86400) div 3600" "mi = ucast (secs mod 86400) mod 3600 div 60" "s = ucast (secs mod 86400) mod 60"
    by (auto simp: epoch_to_utc_def Let_def)
  have "uint secs div 86400 < 2 ^ 31 - 1970" using assms(1) by simp
  then have "int n < 2 ^ 31 - 1970" by (simp add: n_def)
  with calendar_bounds [OF c] have b: "- (2 ^ 31) \<le> y'" "y' < 2 ^ 31" "0 \<le> m'" "m' < 2 ^ 32" "0 \<le> d'" "d' < 2 ^ 32" by simp_all
  have "sint y = y'" "uint mo = m'" "uint d = d'" unfolding e(1-3) using b by (blast intro: casts)+
  then have date: "(sint y, uint mo, uint d) = (next_day ^^ n) (1970, 1, 1)" by (simp only: c)
  define t where "t = uint secs mod 86400"
  have t: "0 \<le> t" "t < 86400" by (simp_all add: t_def)
  have "uint h = t div 3600" "uint mi = t mod 3600 div 60" "uint s = t mod 60"
    unfolding e(4-6) t_def by (simp_all add: uint_div uint_mod uint_seconds_of_day)
  with time_of_day [OF t] have "uint h * 3600 + uint mi * 60 + uint s = t" "uint h < 24" "uint mi < 60" "uint s < 60"
    by simp_all
  with date show ?thesis unfolding n_def t_def by blast
qed

theorem epoch_to_utc_calendar_witness:
  "epoch_to_utc 951786061 = (2000, 2, 29, 1, 1, 1) \<and> (next_day ^^ 11016) (1970, 1, 1) = (2000, 2, 29)"
proof -
  have e: "epoch_to_utc 951786061 = (2000, 2, 29, 1, 1, 1)" by code_simp
  from epoch_to_utc_calendar [OF _ e] e show ?thesis by simp
qed

lemma demo_stamps: "utc_stamp_compact 951786061 = ''20000229T010101Z''" "utc_iso8601 951786061 = ''2000-02-29T01:01:01Z''"
  by code_simp+

end
