(* ===== verification/Published_Files.thy ===== *)
theory Published_Files
  imports Mac_Policy Registry Credentials
begin

text \<open>
  Files that are replaced as a whole: the session file (\<open>RegistryStore\<close> in \<open>registry/store.rs\<close>,
  \<open>write_sessions_atomic\<close> in \<open>state.rs\<close>), the socket of the daemon (\<open>bind_with_label\<close> in \<open>server.rs\<close>)
  and the report of \<open>dump_host_id.rs\<close> (\<open>write_atomic\<close>). Each function prepares a temporary file and
  renames it into place.

  A function returns its result with the operations it performed on the file system. Which system
  calls fail is an argument. The operations act on a volume: inodes, the directory entries that
  running processes see, and for each name the entries that may be found there after a loss of
  power. Only \<open>fsync\<close> of the file fixes its content, and only \<open>fsync\<close> of the directory fixes which
  file a name means. \<open>apply_ops\<close> is the view of running processes, where none of this shows.
\<close>

section \<open>Files\<close>

record fnode =
  nd_data :: bytes
  nd_synced :: bool
  nd_mode :: nat
  nd_label :: "(integrity_label \<times> bool) option"

type_synonym disk = "string \<rightharpoonup> fnode"

datatype fs_op =
    OpCreate string nat
  | OpTruncate string nat
  | OpWrite string bytes
  | OpSync string
  | OpChmod string nat
  | OpLabel string integrity_label bool
  | OpRename string string
  | OpRemove string
  | OpMkdirAll string
  | OpSyncDir string

definition MODE_0600 :: nat where "MODE_0600 = 6 * 64"
definition MODE_0644 :: nat where "MODE_0644 = 6 * 64 + 4 * 8 + 4"
definition MODE_0660 :: nat where "MODE_0660 = 6 * 64 + 6 * 8"

definition fresh_node :: "nat \<Rightarrow> fnode" where
  "fresh_node mode = \<lparr>nd_data = [], nd_synced = False, nd_mode = mode, nd_label = None\<rparr>"

fun apply_op :: "fs_op \<Rightarrow> disk \<Rightarrow> disk" where
  "apply_op (OpCreate p mode) d = d(p \<mapsto> fresh_node mode)"
| "apply_op (OpTruncate p mode) d =
     d(p \<mapsto> case d p of None \<Rightarrow> fresh_node mode | Some n \<Rightarrow> n\<lparr>nd_data := [], nd_synced := False\<rparr>)"
| "apply_op (OpWrite p bs) d = d(p := map_option (\<lambda>n. n\<lparr>nd_data := nd_data n @ bs, nd_synced := False\<rparr>) (d p))"
| "apply_op (OpSync p) d = d(p := map_option (\<lambda>n. n\<lparr>nd_synced := True\<rparr>) (d p))"
| "apply_op (OpChmod p mode) d = d(p := map_option (\<lambda>n. n\<lparr>nd_mode := mode\<rparr>) (d p))"
| "apply_op (OpLabel p l irelax) d = d(p := map_option (\<lambda>n. n\<lparr>nd_label := Some (l, irelax)\<rparr>) (d p))"
| "apply_op (OpRename p q) d = (d(q := d p))(p := None)"
| "apply_op (OpRemove p) d = d(p := None)"
| "apply_op (OpMkdirAll p) d = d"
| "apply_op (OpSyncDir p) d = d"

definition apply_ops :: "fs_op list \<Rightarrow> disk \<Rightarrow> disk" where
  "apply_ops ops d = fold apply_op ops d"

section \<open>Paths\<close>

text \<open>The standard library's view of a path: trailing separators and \<open>.\<close> components do not count.\<close>

fun strip_tail :: "string \<Rightarrow> string" where
  "strip_tail (c # xs) =
     (if c = CHR ''/'' then strip_tail xs
      else if c = CHR ''.'' \<and> xs \<noteq> [] \<and> hd xs = CHR ''/'' then strip_tail xs
      else c # xs)"
| "strip_tail [] = []"

definition path_parent :: "string \<Rightarrow> string option" where
  "path_parent p =
     (let q = strip_tail (rev p); r = dropWhile (\<lambda>c. c \<noteq> CHR ''/'') q
      in if q = [] then None
         else if r = [] then Some []
         else Some (let s = rev (strip_tail r) in if s = [] then ''/'' else s))"

definition path_file_name :: "string \<Rightarrow> string option" where
  "path_file_name p =
     (let q = strip_tail (rev p); n = rev (takeWhile (\<lambda>c. c \<noteq> CHR ''/'') q)
      in if q = [] \<or> n = ''..'' \<or> n = ''.'' then None else Some n)"

section \<open>Loss of power\<close>

text \<open>
  \<open>vl_names\<close> is what running processes see. \<open>vl_pending\<close> has the entries that a name may turn out to
  have after a loss of power: every one it had since its directory was last synced. \<open>vl_dirs\<close> are
  the directories that certainly still exist then; a directory that was only just made is not among
  them. The content of an inode is certain once it was synced and nothing was written to it since.
\<close>

record volume =
  vl_names :: "string \<Rightarrow> nat option"
  vl_pending :: "string \<Rightarrow> nat option set"
  vl_inodes :: "nat \<Rightarrow> fnode"
  vl_next :: nat
  vl_dirs :: "string set"

definition set_entry :: "string \<Rightarrow> nat option \<Rightarrow> volume \<Rightarrow> volume" where
  "set_entry p e v = v\<lparr>vl_names := (vl_names v)(p := e), vl_pending := (vl_pending v)(p := insert e (vl_pending v p))\<rparr>"

definition on_inode :: "(fnode \<Rightarrow> fnode) \<Rightarrow> string \<Rightarrow> volume \<Rightarrow> volume" where
  "on_inode f p v =
     (case vl_names v p of None \<Rightarrow> v | Some i \<Rightarrow> v\<lparr>vl_inodes := (vl_inodes v)(i := f (vl_inodes v i))\<rparr>)"

definition new_file :: "string \<Rightarrow> nat \<Rightarrow> volume \<Rightarrow> volume" where
  "new_file p mode v =
     set_entry p (Some (vl_next v)) (v\<lparr>vl_inodes := (vl_inodes v)(vl_next v := fresh_node mode), vl_next := Suc (vl_next v)\<rparr>)"

fun volume_op :: "fs_op \<Rightarrow> volume \<Rightarrow> volume" where
  "volume_op (OpCreate p mode) v = new_file p mode v"
| "volume_op (OpTruncate p mode) v =
     (if vl_names v p = None then new_file p mode v else on_inode (\<lambda>n. n\<lparr>nd_data := [], nd_synced := False\<rparr>) p v)"
| "volume_op (OpWrite p bs) v = on_inode (\<lambda>n. n\<lparr>nd_data := nd_data n @ bs, nd_synced := False\<rparr>) p v"
| "volume_op (OpSync p) v = on_inode (\<lambda>n. n\<lparr>nd_synced := True\<rparr>) p v"
| "volume_op (OpChmod p mode) v = on_inode (\<lambda>n. n\<lparr>nd_mode := mode\<rparr>) p v"
| "volume_op (OpLabel p l irelax) v = on_inode (\<lambda>n. n\<lparr>nd_label := Some (l, irelax)\<rparr>) p v"
| "volume_op (OpRename p q) v = set_entry p None (set_entry q (vl_names v p) v)"
| "volume_op (OpRemove p) v = set_entry p None v"
| "volume_op (OpMkdirAll p) v = v"
| "volume_op (OpSyncDir dir) v =
     v\<lparr>vl_pending := (\<lambda>p. if path_parent p = Some dir then {vl_names v p} else vl_pending v p)\<rparr>"

definition volume_ops :: "fs_op list \<Rightarrow> volume \<Rightarrow> volume" where
  "volume_ops ops v = fold volume_op ops v"

definition live :: "volume \<Rightarrow> disk" where
  "live v p = map_option (vl_inodes v) (vl_names v p)"

section \<open>The session file\<close>

datatype io_error = NoParent | NoFileName | NotFoundIo | IoFailed string

text \<open>A write that fails may have written a part.\<close>

record temp_env =
  te_tempfile :: "(io_error, string) result"
  te_fd :: int
  te_write :: "bytes \<Rightarrow> (io_error \<times> bytes) option"
  te_sync :: "(io_error, unit) result"
  te_rename :: "(io_error, unit) result"

text \<open>
  \<open>NamedTempFile\<close> is created exclusively with mode \<open>0600\<close> and removed when it is dropped before it
  was persisted.
\<close>

definition write_sessions_atomic ::
  "mac_backend \<Rightarrow> temp_env \<Rightarrow> string \<Rightarrow> bytes \<Rightarrow> (io_error, unit) result \<times> fs_op list" where
  "write_sessions_atomic backend E final_path bs =
     (case path_parent final_path of
        None \<Rightarrow> (Err NoParent, [])
      | Some _ \<Rightarrow>
          (case te_tempfile E of
             Inl e \<Rightarrow> (Err e, [])
           | Inr tmp \<Rightarrow>
               (let label = \<lparr>il_level = 0, il_categories = 0\<rparr>;
                    created = OpCreate tmp MODE_0600 #
                      (if is_ok (mb_set_fd_label backend (te_fd E) label False) then [OpLabel tmp label False] else [])
                in case te_write E bs of
                     Some (e, part) \<Rightarrow> (Err e, created @ [OpWrite tmp part, OpRemove tmp])
                   | None \<Rightarrow>
                       (case te_sync E of
                          Inl e \<Rightarrow> (Err e, created @ [OpWrite tmp bs, OpRemove tmp])
                        | Inr _ \<Rightarrow>
                            (case te_rename E of
                               Inl e \<Rightarrow> (Err e, created @ [OpWrite tmp bs, OpSync tmp, OpRemove tmp])
                             | Inr _ \<Rightarrow> (Ok (), created @ [OpWrite tmp bs, OpSync tmp, OpRename tmp final_path]))))))"

record store_env =
  so_create_dir :: "string \<Rightarrow> (io_error, unit) result"
  so_temp :: temp_env
  so_open_dir :: "string \<Rightarrow> (io_error, unit) result"
  so_sync_dir :: "(io_error, unit) result"

definition registry_store_persist ::
  "active_session list codec \<Rightarrow> mac_backend \<Rightarrow> store_env \<Rightarrow> string \<Rightarrow> active_session list \<Rightarrow>
   (io_error, unit) result \<times> fs_op list" where
  "registry_store_persist J backend E path snapshot =
     (case path_parent path of
        None \<Rightarrow> (Err NoParent, [])
      | Some parent \<Rightarrow>
          (case so_create_dir E parent of
             Inl e \<Rightarrow> (Err e, [])
           | Inr _ \<Rightarrow>
               (case js_to_vec J snapshot of
                  Inl e \<Rightarrow> (Err (IoFailed e), [OpMkdirAll parent])
                | Inr bs \<Rightarrow>
                    (case write_sessions_atomic backend (so_temp E) path bs of
                       (Inl e, ops) \<Rightarrow> (Err e, OpMkdirAll parent # ops)
                     | (Inr _, ops) \<Rightarrow>
                         (case so_open_dir E parent of
                            Inl e \<Rightarrow> (Err e, OpMkdirAll parent # ops)
                          | Inr _ \<Rightarrow>
                              (case so_sync_dir E of
                                 Inl e \<Rightarrow> (Err e, OpMkdirAll parent # ops)
                               | Inr _ \<Rightarrow> (Ok (), OpMkdirAll parent # ops @ [OpSyncDir parent])))))))"

definition registry_store_load ::
  "active_session list codec \<Rightarrow> (io_error, bytes) result \<Rightarrow> (io_error, active_session list) result" where
  "registry_store_load J file =
     (case file of
        Inr bs \<Rightarrow> Ok (case js_from_slice J bs of Inr v \<Rightarrow> v | Inl _ \<Rightarrow> [])
      | Inl NotFoundIo \<Rightarrow> Ok []
      | Inl e \<Rightarrow> Err e)"

section \<open>The socket\<close>

definition build_tmp_socket_path :: "nat \<Rightarrow> string \<Rightarrow> string" where
  "build_tmp_socket_path pid path =
     (let name = (case path_file_name path of Some n \<Rightarrow> n | None \<Rightarrow> ''monitord.sock'') @ ''.tmp.'' @ to_decimal pid
      in case path_parent path of Some parent \<Rightarrow> path_join parent name | None \<Rightarrow> name)"

text \<open>The mode of a new socket depends on the umask.\<close>

record socket_env =
  sk_pid :: nat
  sk_umask_mode :: nat
  sk_fd :: int
  sk_bind :: "(io_error, unit) result"
  sk_chmod :: "(io_error, unit) result"
  sk_rename :: "(io_error, unit) result"

definition bind_with_label :: "mac_backend \<Rightarrow> socket_env \<Rightarrow> string \<Rightarrow> (io_error, unit) result \<times> fs_op list" where
  "bind_with_label backend E final_path =
     (let tmp = build_tmp_socket_path (sk_pid E) final_path;
          label = \<lparr>il_level = 0, il_categories = 0\<rparr>
      in case sk_bind E of
           Inl e \<Rightarrow> (Err e, [OpRemove tmp])
         | Inr _ \<Rightarrow>
             (case sk_chmod E of
                Inl e \<Rightarrow> (Err e, [OpRemove tmp, OpCreate tmp (sk_umask_mode E)])
              | Inr _ \<Rightarrow>
                  (let ready = [OpRemove tmp, OpCreate tmp (sk_umask_mode E), OpChmod tmp MODE_0660] @
                         (if is_ok (mb_set_fd_label backend (sk_fd E) label True) then [OpLabel tmp label True] else [])
                   in case sk_rename E of
                        Inl e \<Rightarrow> (Err e, ready)
                      | Inr _ \<Rightarrow> (Ok (), ready @ [OpRename tmp final_path]))))"

text \<open>The parent directory is made first.\<close>

definition bind_listener ::
  "mac_backend \<Rightarrow> (string \<Rightarrow> (io_error, unit) result) \<Rightarrow> socket_env \<Rightarrow> string \<Rightarrow> (io_error, unit) result \<times> fs_op list" where
  "bind_listener backend create_dir E path =
     (case path_parent path of
        None \<Rightarrow> bind_with_label backend E path
      | Some parent \<Rightarrow>
          (case create_dir parent of
             Inl e \<Rightarrow> (Err e, [])
           | Inr _ \<Rightarrow> (case bind_with_label backend E path of (r, ops) \<Rightarrow> (r, OpMkdirAll parent # ops))))"

section \<open>The report\<close>

record file_env =
  fe_umask_mode :: nat
  fe_open :: "(io_error, unit) result"
  fe_write :: "bytes \<Rightarrow> (io_error \<times> bytes) option"
  fe_sync :: "(io_error, unit) result"
  fe_chmod :: "(io_error, unit) result"
  fe_rename :: "(io_error, unit) result"

definition report_tmp :: "string \<Rightarrow> string \<Rightarrow> string" where
  "report_tmp parent name = path_join parent (''.'' @ name @ ''.tmp'')"

definition write_atomic :: "file_env \<Rightarrow> string \<Rightarrow> string \<Rightarrow> (io_error, unit) result \<times> fs_op list" where
  "write_atomic E path content =
     (let parent = (case path_parent path of Some p \<Rightarrow> p | None \<Rightarrow> ''.'')
      in case path_file_name path of
           None \<Rightarrow> (Err NoFileName, [])
         | Some name \<Rightarrow>
             (let tmp = report_tmp parent name; bs = as_bytes content; opened = [OpTruncate tmp (fe_umask_mode E)]
              in case fe_open E of
                   Inl e \<Rightarrow> (Err e, [])
                 | Inr _ \<Rightarrow>
                     (case fe_write E bs of
                        Some (e, part) \<Rightarrow> (Err e, opened @ [OpWrite tmp part])
                      | None \<Rightarrow>
                          (case fe_sync E of
                             Inl e \<Rightarrow> (Err e, opened @ [OpWrite tmp bs])
                           | Inr _ \<Rightarrow>
                               (let finished = opened @ [OpWrite tmp bs, OpSync tmp] @
                                      (if is_ok (fe_chmod E) then [OpChmod tmp MODE_0644] else [])
                                in case fe_rename E of
                                     Inl e \<Rightarrow> (Err e, finished)
                                   | Inr _ \<Rightarrow> (Ok (), finished @ [OpRename tmp path]))))))"

section \<open>Publishing by renaming\<close>

fun touches_only :: "string \<Rightarrow> fs_op \<Rightarrow> bool" where
  "touches_only t (OpCreate p mode) \<longleftrightarrow> p = t"
| "touches_only t (OpTruncate p mode) \<longleftrightarrow> p = t"
| "touches_only t (OpWrite p bs) \<longleftrightarrow> p = t"
| "touches_only t (OpSync p) \<longleftrightarrow> p = t"
| "touches_only t (OpChmod p mode) \<longleftrightarrow> p = t"
| "touches_only t (OpLabel p l irelax) \<longleftrightarrow> p = t"
| "touches_only t (OpRename p q) \<longleftrightarrow> False"
| "touches_only t (OpRemove p) \<longleftrightarrow> p = t"
| "touches_only t (OpMkdirAll p) \<longleftrightarrow> True"
| "touches_only t (OpSyncDir p) \<longleftrightarrow> True"

lemma apply_ops_simps [simp]:
  "apply_ops [] d = d" "apply_ops (op # ops) d = apply_ops ops (apply_op op d)"
  "apply_ops (ops @ ops') d = apply_ops ops' (apply_ops ops d)"
  by (simp_all add: apply_ops_def)

lemma apply_op_other: "touches_only t op \<Longrightarrow> q \<noteq> t \<Longrightarrow> apply_op op d q = d q"
  by (cases op) simp_all

lemma apply_ops_other: "list_all (touches_only t) ops \<Longrightarrow> q \<noteq> t \<Longrightarrow> apply_ops ops d q = d q"
  by (induction ops arbitrary: d) (auto simp: apply_op_other)

text \<open>
  The contract of a function that replaces a file: all its work is on a temporary file until it
  succeeds, and success is the rename at the end.
\<close>

locale publication =
  fixes publish :: "'i \<Rightarrow> (io_error, unit) result \<times> fs_op list"
    and staged published :: "'i \<Rightarrow> string"
  assumes failed: "publish x = (Err e, ops) \<Longrightarrow> list_all (touches_only (staged x)) ops"
    and succeeded: "publish x = (Ok u, ops) \<Longrightarrow>
      \<exists>work. ops = work @ [OpRename (staged x) (published x)] \<and> list_all (touches_only (staged x)) work"
begin

text \<open>At every moment the target is the old file or the finished new one.\<close>

lemma at_every_moment:
  assumes "publish x = (r, ops)" "staged x \<noteq> published x"
  shows "apply_ops (take n ops) d (published x) = d (published x) \<or>
    r = Ok () \<and> length ops \<le> n \<and> apply_ops (take n ops) d (published x) = apply_ops (butlast ops) d (staged x)"
proof (cases r)
  case (Inl e)
  with assms failed have "list_all (touches_only (staged x)) (take n ops)"
    by (auto simp: list_all_iff dest: in_set_takeD)
  with assms(2) show ?thesis by (simp add: apply_ops_other)
next
  case (Inr u)
  with assms(1) succeeded obtain work where
    w: "ops = work @ [OpRename (staged x) (published x)]" "list_all (touches_only (staged x)) work" by blast
  show ?thesis
  proof (cases "length ops \<le> n")
    case True
    with w(1) Inr assms(2) show ?thesis by simp
  next
    case False
    with w have "list_all (touches_only (staged x)) (take n ops)"
      by (auto simp: list_all_iff dest: in_set_takeD)
    with assms(2) show ?thesis by (simp add: apply_ops_other)
  qed
qed

lemma after_success:
  assumes "publish x = (Ok u, ops)" "staged x \<noteq> published x"
  shows "apply_ops ops d (published x) = apply_ops (butlast ops) d (staged x)" "apply_ops ops d (staged x) = None"
  using succeeded [OF assms(1)] assms(2) by auto

lemma after_failure:
  assumes "publish x = (Err e, ops)" "staged x \<noteq> published x"
  shows "apply_ops ops d (published x) = d (published x)"
  using failed [OF assms(1)] assms(2) by (simp add: apply_ops_other)

lemma others_untouched:
  assumes "publish x = (r, ops)" "q \<noteq> staged x" "q \<noteq> published x"
  shows "apply_ops ops d q = d q"
proof (cases r)
  case (Inl e)
  with failed [of x e ops] assms show ?thesis by (simp add: apply_ops_other)
next
  case (Inr u)
  with succeeded [of x u ops] assms show ?thesis by (auto simp: apply_ops_other)
qed

end

interpretation session_file: publication
  "\<lambda>(backend, E, path, bs). write_sessions_atomic backend E path bs"
  "\<lambda>(backend, E, path, bs). case te_tempfile E of Inr t \<Rightarrow> t | Inl _ \<Rightarrow> []"
  "\<lambda>(backend, E, path, bs). path"
  by unfold_locales
    (auto simp: write_sessions_atomic_def Let_def split: option.splits sum.splits if_splits)

interpretation socket: publication
  "\<lambda>(backend, E, path). bind_with_label backend E path"
  "\<lambda>(backend, E, path). build_tmp_socket_path (sk_pid E) path"
  "\<lambda>(backend, E, path). path"
  by unfold_locales
    (auto simp: bind_with_label_def Let_def split: sum.splits if_splits)

interpretation report: publication
  "\<lambda>(E, path, content). write_atomic E path content"
  "\<lambda>(E, path, content). report_tmp (case path_parent path of Some p \<Rightarrow> p | None \<Rightarrow> ''.'') (case path_file_name path of Some n \<Rightarrow> n | None \<Rightarrow> [])"
  "\<lambda>(E, path, content). path"
  by unfold_locales
    (auto simp: write_atomic_def Let_def split: option.splits sum.splits if_splits)

section \<open>The session file survives\<close>

text \<open>What a reader finds while the host runs, and what may be found after a loss of power.\<close>

definition stored :: "disk \<Rightarrow> string \<Rightarrow> (io_error, bytes) result" where
  "stored d path = (case d path of None \<Rightarrow> Err NotFoundIo | Some n \<Rightarrow> Ok (nd_data n))"

definition dir_kept :: "volume \<Rightarrow> string \<Rightarrow> bool" where
  "dir_kept v path \<longleftrightarrow> (\<exists>dir \<in> vl_dirs v. path_parent path = Some dir)"

definition entry_after_loss :: "volume \<Rightarrow> nat option \<Rightarrow> (io_error, bytes) result set" where
  "entry_after_loss v e =
     (case e of
        None \<Rightarrow> {Err NotFoundIo}
      | Some i \<Rightarrow> if nd_synced (vl_inodes v i) then {Ok (nd_data (vl_inodes v i))} else range Ok)"

definition power_loss :: "volume \<Rightarrow> string \<Rightarrow> (io_error, bytes) result set" where
  "power_loss v path =
     (\<Union>e \<in> vl_pending v path. entry_after_loss v e) \<union> (if dir_kept v path then {} else {Err NotFoundIo})"

text \<open>No two names share an inode, the next inode is unused, and the present entry may be found later.\<close>

definition volume_ok :: "volume \<Rightarrow> bool" where
  "volume_ok v \<longleftrightarrow>
     (\<forall>p i. Some i \<in> vl_pending v p \<longrightarrow> i < vl_next v) \<and> (\<forall>p. vl_names v p \<in> vl_pending v p)
     \<and> (\<forall>p q i. vl_names v p = Some i \<longrightarrow> vl_names v q = Some i \<longrightarrow> p = q)"

lemmas volume_defs = set_entry_def on_inode_def new_file_def

lemma volume_ops_simps [simp]:
  "volume_ops [] v = v" "volume_ops (op # ops) v = volume_ops ops (volume_op op v)"
  "volume_ops (ops @ ops') v = volume_ops ops' (volume_ops ops v)"
  by (simp_all add: volume_ops_def)

lemma names_below: "volume_ok v \<Longrightarrow> vl_names v p = Some i \<Longrightarrow> i < vl_next v"
  unfolding volume_ok_def by metis

lemma volume_ok_new_file: "volume_ok v \<Longrightarrow> volume_ok (new_file p mode v)"
  using names_below [of v] unfolding volume_ok_def new_file_def set_entry_def
  by (auto simp: less_Suc_eq)

lemma volume_ok_on_inode: "volume_ok v \<Longrightarrow> volume_ok (on_inode f p v)"
  by (simp add: volume_ok_def on_inode_def split: option.split)

lemma volume_ok_op: "volume_ok v \<Longrightarrow> volume_ok (volume_op op v)"
proof (cases op)
  case (OpRename p q)
  assume "volume_ok v"
  with OpRename names_below [of v] show ?thesis by (auto simp: volume_ok_def set_entry_def dest: sym)
next
  case (OpSyncDir dir)
  assume "volume_ok v"
  with OpSyncDir names_below [of v] show ?thesis by (auto simp: volume_ok_def dest: sym)
qed (auto simp: volume_ok_new_file volume_ok_on_inode, auto simp: volume_ok_def set_entry_def)

lemma volume_ok_ops: "volume_ok v \<Longrightarrow> volume_ok (volume_ops ops v)"
  by (induction ops arbitrary: v) (simp_all add: volume_ok_op)

text \<open>Running processes see the operations as \<open>apply_ops\<close> says.\<close>

lemma live_new_file: "volume_ok v \<Longrightarrow> live (new_file p mode v) = (live v)(p \<mapsto> fresh_node mode)"
  using names_below [of v] by (fastforce simp: live_def new_file_def set_entry_def fun_eq_iff intro: option.map_cong0)

lemma live_on_inode: "volume_ok v \<Longrightarrow> live (on_inode f p v) = (live v)(p := map_option f (live v p))"
  by (auto simp: live_def on_inode_def fun_eq_iff volume_ok_def split: option.split intro!: option.map_cong0)

lemma live_op: "volume_ok v \<Longrightarrow> live (volume_op op v) = apply_op op (live v)"
  by (cases op)
    (auto simp: live_new_file live_on_inode, auto simp: live_def set_entry_def fun_eq_iff split: option.split)

lemma live_ops: "volume_ok v \<Longrightarrow> live (volume_ops ops v) = apply_ops ops (live v)"
  by (induction ops arbitrary: v) (simp_all add: live_op volume_ok_op)

text \<open>
  The temporary file has an inode of its own: whatever is done to it, what a loss of power can leave
  under the other name does not grow.
\<close>

definition apart :: "string \<Rightarrow> string \<Rightarrow> volume \<Rightarrow> bool" where
  "apart t p v \<longleftrightarrow> (\<forall>i. vl_names v t = Some i \<longrightarrow> Some i \<notin> vl_pending v p)"

lemma loss_mono:
  assumes "vl_dirs v' = vl_dirs v" "vl_pending v' p \<subseteq> vl_pending v p"
    and "\<And>i. Some i \<in> vl_pending v' p \<Longrightarrow> vl_inodes v' i = vl_inodes v i"
  shows "power_loss v' p \<subseteq> power_loss v p"
proof -
  have "entry_after_loss v' e = entry_after_loss v e" if "e \<in> vl_pending v' p" for e
    using assms(3) that by (cases e) (simp_all add: entry_after_loss_def)
  with assms(1,2) show ?thesis by (auto simp: power_loss_def dir_kept_def)
qed

lemma new_file_loss:
  assumes "volume_ok v" "t \<noteq> p"
  shows "power_loss (new_file t mode v) p \<subseteq> power_loss v p" "apart t p (new_file t mode v)"
proof -
  have n: "Some (vl_next v) \<notin> vl_pending v p" using assms(1) by (auto simp: volume_ok_def)
  then show "apart t p (new_file t mode v)" using assms(2) by (simp add: apart_def new_file_def set_entry_def)
  show "power_loss (new_file t mode v) p \<subseteq> power_loss v p"
    using n assms(2) by (intro loss_mono) (auto simp: new_file_def set_entry_def)
qed

lemma on_inode_loss:
  assumes "apart t p v"
  shows "power_loss (on_inode f t v) p \<subseteq> power_loss v p" "apart t p (on_inode f t v)"
proof -
  show "power_loss (on_inode f t v) p \<subseteq> power_loss v p"
    using assms by (intro loss_mono) (auto simp: on_inode_def apart_def split: option.splits)
  show "apart t p (on_inode f t v)" using assms by (simp add: apart_def on_inode_def split: option.split)
qed

lemma temp_op_loss:
  assumes "volume_ok v" "apart t p v" "t \<noteq> p" "touches_only t op"
  shows "power_loss (volume_op op v) p \<subseteq> power_loss v p" "apart t p (volume_op op v)"
proof -
  have new: "power_loss (new_file t mode v) p \<subseteq> power_loss v p" "apart t p (new_file t mode v)" for mode
    using new_file_loss [OF assms(1,3)] by simp_all
  have "power_loss (volume_op op v) p \<subseteq> power_loss v p \<and> apart t p (volume_op op v)"
  proof (cases op)
    case (OpRemove q)
    with assms have "q = t" by simp
    with assms(3) have "power_loss (volume_op op v) p \<subseteq> power_loss v p"
      by (intro loss_mono) (auto simp: OpRemove set_entry_def)
    with \<open>q = t\<close> assms(3) show ?thesis by (simp add: OpRemove apart_def set_entry_def)
  next
    case (OpSyncDir dir)
    have "vl_names v p \<in> vl_pending v p" using assms(1) by (simp add: volume_ok_def)
    then have "power_loss (volume_op op v) p \<subseteq> power_loss v p"
      by (intro loss_mono) (auto simp: OpSyncDir)
    with assms(2) \<open>vl_names v p \<in> vl_pending v p\<close> show ?thesis by (auto simp: OpSyncDir apart_def)
  qed (use assms(2,4) new on_inode_loss [OF assms(2)] in simp_all)
  then show "power_loss (volume_op op v) p \<subseteq> power_loss v p" "apart t p (volume_op op v)" by simp_all
qed

lemma temp_ops_loss:
  assumes "volume_ok v" "apart t p v" "t \<noteq> p" "list_all (touches_only t) ops"
  shows "power_loss (volume_ops ops v) p \<subseteq> power_loss v p \<and> apart t p (volume_ops ops v)"
  using assms
proof (induction ops arbitrary: v)
  case (Cons op ops)
  then have "power_loss (volume_op op v) p \<subseteq> power_loss v p" "apart t p (volume_op op v)"
    using temp_op_loss [of v t p op] by simp_all
  with Cons.IH [of "volume_op op v"] Cons.prems volume_ok_op [of v op] show ?case by auto
qed simp

lemma rename_loss:
  assumes "vl_names v t = Some i" "nd_synced (vl_inodes v i)" "nd_data (vl_inodes v i) = bs" "t \<noteq> p"
  shows "power_loss (volume_op (OpRename t p) v) p = insert (Ok bs) (power_loss v p)"
proof -
  let ?v = "volume_op (OpRename t p) v"
  have "entry_after_loss ?v e = entry_after_loss v e" for e
    by (simp add: entry_after_loss_def set_entry_def split: option.split)
  moreover have "vl_pending ?v p = insert (Some i) (vl_pending v p)" "dir_kept ?v p = dir_kept v p"
    using assms(1,4) by (simp_all add: set_entry_def dir_kept_def)
  moreover have "entry_after_loss v (Some i) = {Ok bs}" using assms(2,3) by (simp add: entry_after_loss_def)
  ultimately show ?thesis by (simp add: power_loss_def)
qed

lemma sync_dir_loss:
  assumes "volume_ok v"
  shows "power_loss (volume_op (OpSyncDir dir) v) p \<subseteq> power_loss v p"
    and "path_parent p = Some dir \<Longrightarrow> dir \<in> vl_dirs v \<Longrightarrow> live v p = Some n \<Longrightarrow> nd_synced n \<Longrightarrow>
      power_loss (volume_op (OpSyncDir dir) v) p = {Ok (nd_data n)}"
proof -
  have "vl_names v p \<in> vl_pending v p" using assms by (simp add: volume_ok_def)
  then show "power_loss (volume_op (OpSyncDir dir) v) p \<subseteq> power_loss v p" by (intro loss_mono) auto
  show "power_loss (volume_op (OpSyncDir dir) v) p = {Ok (nd_data n)}"
    if "path_parent p = Some dir" "dir \<in> vl_dirs v" "live v p = Some n" "nd_synced n"
    using that by (auto simp: power_loss_def dir_kept_def entry_after_loss_def live_def)
qed

lemma dirs_op [simp]: "vl_dirs (volume_op op v) = vl_dirs v"
  by (cases op) (simp_all add: volume_defs split: option.split)

lemma dirs_ops [simp]: "vl_dirs (volume_ops ops v) = vl_dirs v"
  by (induction ops arbitrary: v) simp_all

text \<open>The writing of the session file: what its new inode holds, and what is visible at each moment.\<close>

definition holds_snapshot :: "bytes \<Rightarrow> fnode \<Rightarrow> bool" where
  "holds_snapshot bs node \<longleftrightarrow> nd_data node = bs \<and> nd_synced node \<and> nd_mode node = MODE_0600"

lemma session_node:
  assumes "write_sessions_atomic backend E path bs = (Ok u, ops)" "te_tempfile E = Ok tmp"
  shows "\<exists>node. apply_ops (butlast ops) d tmp = Some node \<and> holds_snapshot bs node"
  using assms
  by (auto simp: write_sessions_atomic_def Let_def fresh_node_def holds_snapshot_def butlast_append
      split: option.splits sum.splits if_splits)

lemma session_ops:
  assumes "write_sessions_atomic backend E path bs = (r, ops)"
  obtains "is_err r" "ops = []"
  | tmp work where "te_tempfile E = Ok tmp" "list_all (touches_only tmp) work"
      "ops = OpCreate tmp MODE_0600 # work @ (if is_ok r then [OpRename tmp path] else [])"
proof -
  have "is_err r \<and> ops = [] \<or> (\<exists>tmp work. te_tempfile E = Ok tmp \<and> list_all (touches_only tmp) work
      \<and> ops = OpCreate tmp MODE_0600 # work @ (if is_ok r then [OpRename tmp path] else []))"
    using assms
    by (cases r) (auto simp: write_sessions_atomic_def Let_def split: option.splits sum.splits if_splits)
  then show ?thesis using that by blast
qed

lemma session_write_moments:
  assumes w: "write_sessions_atomic backend E path bs = (r, ops)" and t: "te_tempfile E \<noteq> Ok path"
  shows "apply_ops (take n ops) d path = d path \<or> (\<exists>node. apply_ops (take n ops) d path = Some node \<and> holds_snapshot bs node)"
    and "r = Ok () \<Longrightarrow> \<exists>node. apply_ops ops d path = Some node \<and> holds_snapshot bs node"
proof -
  show "apply_ops (take n ops) d path = d path \<or> (\<exists>node. apply_ops (take n ops) d path = Some node \<and> holds_snapshot bs node)"
    using w
  proof (cases rule: session_ops)
    case 1
    then show ?thesis by simp
  next
    case (2 tmp work)
    with t w session_file.at_every_moment [of "(backend, E, path, bs)" r ops n d] session_node [of backend E path bs "()" ops tmp d]
    show ?thesis by auto
  qed
  show "\<exists>node. apply_ops ops d path = Some node \<and> holds_snapshot bs node" if r: "r = Ok ()"
    using w
  proof (cases rule: session_ops)
    case 1
    with r show ?thesis by simp
  next
    case (2 tmp work)
    with t w r session_file.after_success(1) [of "(backend, E, path, bs)" "()" ops d] session_node [of backend E path bs "()" ops tmp d]
    show ?thesis by auto
  qed
qed

lemma session_write_loss:
  assumes w: "write_sessions_atomic backend E path bs = (r, ops)" and t: "te_tempfile E \<noteq> Ok path" and v: "volume_ok v"
  shows "power_loss (volume_ops (take n ops) v) path \<subseteq> insert (Ok bs) (power_loss v path)"
  using w
proof (cases rule: session_ops)
  case 1
  then show ?thesis by auto
next
  case (2 tmp work)
  let ?v = "volume_op (OpCreate tmp MODE_0600) v"
  have tp: "tmp \<noteq> path" using 2(1) t by auto
  have part: "power_loss (volume_ops (take k work) ?v) path \<subseteq> power_loss v path" for k
  proof -
    have "list_all (touches_only tmp) (take k work)" using 2(2) by (auto simp: list_all_iff dest: in_set_takeD)
    with temp_ops_loss [of ?v tmp path] new_file_loss [OF v tp] volume_ok_op [OF v, of "OpCreate tmp MODE_0600"] tp
    show ?thesis by fastforce
  qed
  show ?thesis
  proof (cases "n \<le> Suc (length work) \<or> is_err r")
    case True
    then have "\<exists>k. take n ops = [] \<or> take n ops = OpCreate tmp MODE_0600 # take k work"
      using 2(3) by (cases n) (auto simp: is_err_def is_ok_def split: sum.splits)
    with part show ?thesis by fastforce
  next
    case False
    then have ok: "r = Ok ()" "is_ok r" by (cases r; simp)+
    with False 2(3) have ops: "take n ops = ops" "butlast ops = OpCreate tmp MODE_0600 # work" by simp_all
    let ?u = "volume_ops work ?v"
    obtain node where "live ?u tmp = Some node" "holds_snapshot bs node"
      using session_node [of backend E path bs "()" ops tmp "live v"] w ok(1) 2(1) ops(2) live_ops [OF v, of "butlast ops"] by auto
    then obtain i where "vl_names ?u tmp = Some i" "holds_snapshot bs (vl_inodes ?u i)" by (auto simp: live_def)
    then have "power_loss (volume_op (OpRename tmp path) ?u) path = insert (Ok bs) (power_loss ?u path)"
      using tp by (intro rename_loss [of _ _ i]) (simp_all add: holds_snapshot_def)
    with part [of "length work"] 2(3) ok(2) ops(1) show ?thesis by auto
  qed
qed

lemma persist_steps:
  assumes "registry_store_persist J backend E path snapshot = (r, ops)"
  obtains (early) "is_err r" "\<And>n d. apply_ops (take n ops) d = d" "\<And>n v. volume_ops (take n ops) v = v"
  | (wrote) parent bs r' ops' where "path_parent path = Some parent" "js_to_vec J snapshot = Ok bs"
      "write_sessions_atomic backend (so_temp E) path bs = (r', ops')" "is_ok r \<Longrightarrow> r' = Ok ()"
      "ops = OpMkdirAll parent # ops' @ (if is_ok r then [OpSyncDir parent] else [])"
proof -
  have "is_err r \<and> (\<exists>p. ops = [] \<or> ops = [OpMkdirAll p]) \<or>
    (\<exists>parent bs r' ops'. path_parent path = Some parent \<and> js_to_vec J snapshot = Ok bs
      \<and> write_sessions_atomic backend (so_temp E) path bs = (r', ops') \<and> (is_ok r \<longrightarrow> r' = Ok ())
      \<and> ops = OpMkdirAll parent # ops' @ (if is_ok r then [OpSyncDir parent] else []))"
    using assms
    by (cases r) (auto simp: registry_store_persist_def split: option.splits sum.splits prod.splits)
  moreover have "apply_ops (take n [OpMkdirAll p]) d = d" "volume_ops (take n [OpMkdirAll p]) v = v" for n p d v
    by (cases n; simp)+
  ultimately show ?thesis using early wrote by auto
qed

lemma persist_prefix:
  assumes "ops = OpMkdirAll parent # ops' @ (if b then [OpSyncDir parent] else [])"
  obtains k where "apply_ops (take n ops) d = apply_ops (take k ops') d"
    "volume_ops (take n ops) v = volume_ops (take k ops') v \<or>
     volume_ops (take n ops) v = volume_op (OpSyncDir parent) (volume_ops (take k ops') v)"
proof (cases n)
  case 0
  then show ?thesis using that [of 0] by simp
next
  case (Suc m)
  have "take (m - length ops') (if b then [OpSyncDir parent] else []) \<in> {[], [OpSyncDir parent]}"
    by (simp add: take_Cons')
  then show ?thesis using that [of m] Suc assms by auto
qed

lemma loads_snapshot:
  assumes "js_to_vec J snapshot = Ok bs" "\<And>bs. js_to_vec J snapshot = Ok bs \<Longrightarrow> js_from_slice J bs = Ok snapshot"
  shows "registry_store_load J (Ok bs) = Ok snapshot"
    and "d path = Some node \<Longrightarrow> holds_snapshot bs node \<Longrightarrow> registry_store_load J (stored d path) = Ok snapshot"
  using assms by (simp_all add: registry_store_load_def stored_def holds_snapshot_def)

lemma persisted_reads_back:
  assumes "registry_store_persist J backend E path snapshot = (Ok (), ops)" "te_tempfile (so_temp E) \<noteq> Ok path"
    and "\<And>bs. js_to_vec J snapshot = Ok bs \<Longrightarrow> js_from_slice J bs = Ok snapshot" "volume_ok v"
  shows "registry_store_load J (stored (apply_ops ops (live v)) path) = Ok snapshot"
    and "dir_kept v path \<Longrightarrow> registry_store_load J ` power_loss (volume_ops ops v) path = {Ok snapshot}"
proof -
  obtain parent bs ops' where p: "path_parent path = Some parent" and bs: "js_to_vec J snapshot = Ok bs"
    and w: "write_sessions_atomic backend (so_temp E) path bs = (Ok (), ops')"
    and ops: "ops = OpMkdirAll parent # ops' @ [OpSyncDir parent]"
    using assms(1) by (cases rule: persist_steps) auto
  note loads = loads_snapshot [OF bs assms(3)]
  obtain node where node: "apply_ops ops' (live v) path = Some node" "holds_snapshot bs node"
    using session_write_moments(2) [OF w assms(2)] by blast
  show "registry_store_load J (stored (apply_ops ops (live v)) path) = Ok snapshot"
    using loads(2) node ops by simp
  show "registry_store_load J ` power_loss (volume_ops ops v) path = {Ok snapshot}" if "dir_kept v path"
  proof -
    have "power_loss (volume_op (OpSyncDir parent) (volume_ops ops' v)) path = {Ok (nd_data node)}"
      using node that p by (intro sync_dir_loss(2)) (auto simp: volume_ok_ops assms(4) live_ops dir_kept_def holds_snapshot_def)
    with node(2) loads(1) ops show ?thesis by (simp add: holds_snapshot_def)
  qed
qed

text \<open>
  C18. The session file is never torn. Whenever the writing of a snapshot is interrupted, a daemon
  that starts then loads what it could have loaded before or the complete new snapshot; this holds
  for a reader on the running host and for every outcome of a loss of power, where each name has any
  of the entries it had since its directory was synced and a file that was written and not synced
  has any content. When the write reports success, a reader loads the snapshot, and after a loss of
  power it is the only thing that can be loaded, if the directory of the file survives. The
  temporary name is not the file's own and the JSON library reads back what it wrote.
\<close>

theorem session_file_never_torn:
  assumes "registry_store_persist J backend E path snapshot = (r, ops)" "te_tempfile (so_temp E) \<noteq> Ok path"
    and "\<And>bs. js_to_vec J snapshot = Ok bs \<Longrightarrow> js_from_slice J bs = Ok snapshot"
    and "volume_ok v"
  shows "registry_store_load J (stored (apply_ops (take n ops) (live v)) path)
      \<in> {registry_store_load J (stored (live v) path), Ok snapshot}
    \<and> registry_store_load J ` power_loss (volume_ops (take n ops) v) path
      \<subseteq> insert (Ok snapshot) (registry_store_load J ` power_loss v path)
    \<and> (r = Ok () \<longrightarrow> registry_store_load J (stored (apply_ops ops (live v)) path) = Ok snapshot
        \<and> (dir_kept v path \<longrightarrow> registry_store_load J ` power_loss (volume_ops ops v) path = {Ok snapshot}))"
  using assms(1)
proof (cases rule: persist_steps)
  case early
  then show ?thesis by auto
next
  case (wrote parent bs r' ops')
  note loads = loads_snapshot [OF wrote(2) assms(3)]
  obtain k where k: "apply_ops (take n ops) (live v) = apply_ops (take k ops') (live v)"
    "volume_ops (take n ops) v = volume_ops (take k ops') v \<or>
     volume_ops (take n ops) v = volume_op (OpSyncDir parent) (volume_ops (take k ops') v)"
    using wrote(5) by (rule persist_prefix)
  have "registry_store_load J (stored (apply_ops (take n ops) (live v)) path)
      \<in> {registry_store_load J (stored (live v) path), Ok snapshot}"
    using session_write_moments(1) [OF wrote(3) assms(2), of k "live v"] loads(2) k(1) by (auto simp: stored_def)
  moreover have "power_loss (volume_ops (take n ops) v) path \<subseteq> insert (Ok bs) (power_loss v path)"
    using session_write_loss [OF wrote(3) assms(2,4), of k] k(2)
      sync_dir_loss(1) [OF volume_ok_ops [OF assms(4)], of parent "take k ops'" path] by auto
  then have "registry_store_load J ` power_loss (volume_ops (take n ops) v) path
      \<subseteq> insert (Ok snapshot) (registry_store_load J ` power_loss v path)"
    using loads(1) by auto
  moreover have "r = Ok () \<longrightarrow> registry_store_load J (stored (apply_ops ops (live v)) path) = Ok snapshot
        \<and> (dir_kept v path \<longrightarrow> registry_store_load J ` power_loss (volume_ops ops v) path = {Ok snapshot})"
    using persisted_reads_back [OF _ assms(2,3,4)] assms(1) by blast
  ultimately show ?thesis by blast
qed

text \<open>
  A directory that \<open>create_dir_all\<close> has only just made is synced itself, its entry in the directory
  above is not: until that is on the disk, a loss of power can take the new session file with it.
\<close>

lemma new_directory_may_vanish:
  assumes "\<not> dir_kept v path"
  shows "Ok [] \<in> registry_store_load J ` power_loss (volume_ops ops v) path"
  using assms by (force simp: power_loss_def dir_kept_def registry_store_load_def)

definition demo_store_env :: store_env where
  "demo_store_env = \<lparr>so_create_dir = (\<lambda>_. Ok ()),
     so_temp = \<lparr>te_tempfile = Ok ''/run/.tmp1'', te_fd = 3, te_write = (\<lambda>_. None), te_sync = Ok (), te_rename = Ok ()\<rparr>,
     so_open_dir = (\<lambda>_. Ok ()), so_sync_dir = Ok ()\<rparr>"

definition demo_sessions_codec :: "active_session list codec" where
  "demo_sessions_codec = \<lparr>js_to_vec = (\<lambda>s. if s = [demo_session1] then Ok [91, 49, 93] else Err ''none''),
     js_from_slice = (\<lambda>b. if b = [91, 49, 93] then Ok [demo_session1] else Err ''none'')\<rparr>"

text \<open>An old session file in a directory that exists.\<close>

definition demo_volume :: volume where
  "demo_volume = \<lparr>vl_names = (\<lambda>p. if p = ''/run/s.json'' then Some 0 else None),
     vl_pending = (\<lambda>p. if p = ''/run/s.json'' then {Some 0} else {None}),
     vl_inodes = (\<lambda>_. (fresh_node MODE_0600)\<lparr>nd_data := [91, 93], nd_synced := True\<rparr>), vl_next = 1, vl_dirs = {''/run''}\<rparr>"

lemma demo_volume_ok: "volume_ok demo_volume"
  by (auto simp: demo_volume_def volume_ok_def)

lemma demo_parent: "path_parent ''/run/s.json'' = Some ''/run''"
  by code_simp

lemma demo_dir_kept: "dir_kept demo_volume ''/run/s.json''"
  by (simp add: dir_kept_def demo_parent) (simp add: demo_volume_def)

lemma demo_persist:
  "\<exists>ops. registry_store_persist demo_sessions_codec stub_backend demo_store_env ''/run/s.json'' [demo_session1] = (Ok (), ops)"
  by (simp add: registry_store_persist_def write_sessions_atomic_def demo_store_env_def demo_sessions_codec_def Let_def demo_parent)

lemma demo_temp: "te_tempfile (so_temp demo_store_env) \<noteq> Ok ''/run/s.json''"
  by (simp add: demo_store_env_def)

lemma demo_codec_reads_back:
  "js_to_vec demo_sessions_codec [demo_session1] = Ok bs \<Longrightarrow> js_from_slice demo_sessions_codec bs = Ok [demo_session1]"
  by (simp add: demo_sessions_codec_def)

lemma demo_loads: "registry_store_load demo_sessions_codec x = Ok [demo_session1] \<Longrightarrow> x = Ok [91, 49, 93]"
  by (auto simp: registry_store_load_def demo_sessions_codec_def split: sum.splits io_error.splits if_splits)

theorem session_file_never_torn_witness:
  "\<exists>ops. registry_store_persist demo_sessions_codec stub_backend demo_store_env ''/run/s.json'' [demo_session1] = (Ok (), ops)
     \<and> registry_store_load demo_sessions_codec ` power_loss (volume_ops ops demo_volume) ''/run/s.json'' = {Ok [demo_session1]}"
proof -
  obtain ops where r: "registry_store_persist demo_sessions_codec stub_backend demo_store_env ''/run/s.json'' [demo_session1] = (Ok (), ops)"
    using demo_persist by blast
  from session_file_never_torn [OF r demo_temp demo_codec_reads_back demo_volume_ok] r demo_dir_kept show ?thesis by auto
qed

section \<open>The socket is never open to all\<close>

lemma strip_tail_plain: "q \<noteq> [] \<Longrightarrow> hd q \<noteq> CHR ''/'' \<Longrightarrow> hd q \<noteq> CHR ''.'' \<Longrightarrow> strip_tail q = q"
  by (cases q) simp_all

text \<open>The name of a file in a directory, which does not end in a dot.\<close>

definition plain_name :: "string \<Rightarrow> bool" where
  "plain_name n \<longleftrightarrow> n \<noteq> [] \<and> CHR ''/'' \<notin> set n \<and> last n \<noteq> CHR ''.''"

lemma plain_path:
  assumes "plain_name n"
  shows "path_file_name (dir @ ''/'' @ n) = Some n"
proof -
  have h: "rev n \<noteq> []" "hd (rev n) \<noteq> CHR ''/''" "hd (rev n) \<noteq> CHR ''.''"
    using assms by (auto simp: plain_name_def hd_rev) (metis last_in_set)
  then have "strip_tail (rev n @ ''/'' @ rev dir) = rev n @ ''/'' @ rev dir"
    by (intro strip_tail_plain) auto
  moreover have "takeWhile (\<lambda>c. c \<noteq> CHR ''/'') (rev n @ ''/'' @ rev dir) = rev n"
    using assms by (auto simp: plain_name_def takeWhile_append)
  moreover have "n \<noteq> ''.''" "n \<noteq> ''..''" using assms by (auto simp: plain_name_def)
  ultimately show ?thesis using h by (simp add: path_file_name_def)
qed

lemma path_join_suffix: "\<exists>pre. path_join p q = pre @ q"
  by (auto simp: path_join_def)

lemma tmp_socket_differs:
  assumes "plain_name n"
  shows "build_tmp_socket_path pid (dir @ ''/'' @ n) \<noteq> dir @ ''/'' @ n"
proof
  assume e: "build_tmp_socket_path pid (dir @ ''/'' @ n) = dir @ ''/'' @ n"
  define name where "name = n @ ''.tmp.'' @ to_decimal pid"
  have "CHR ''/'' \<notin> set name"
    using assms to_radix_no [of 10 "CHR ''/''" pid] by (auto simp: name_def plain_name_def to_decimal_def)
  then have w: "takeWhile (\<lambda>c. c \<noteq> CHR ''/'') (rev name @ xs) = rev name @ takeWhile (\<lambda>c. c \<noteq> CHR ''/'') xs" for xs
    by (auto simp: takeWhile_append)
  have "takeWhile (\<lambda>c. c \<noteq> CHR ''/'') (rev n @ ''/'' @ rev dir) = rev n"
    using assms by (auto simp: plain_name_def takeWhile_append)
  moreover have "build_tmp_socket_path pid (dir @ ''/'' @ n) =
      (case path_parent (dir @ ''/'' @ n) of Some parent \<Rightarrow> path_join parent name | None \<Rightarrow> name)"
    unfolding build_tmp_socket_path_def plain_path [OF assms] option.case Let_def name_def ..
  then obtain pre where "build_tmp_socket_path pid (dir @ ''/'' @ n) = pre @ name"
    using path_join_suffix [of _ name] by (cases "path_parent (dir @ ''/'' @ n)") auto
  with e have "pre @ name = dir @ ''/'' @ n" by metis
  then have "rev (pre @ name) = rev n @ ''/'' @ rev dir" by (simp only: rev_append) simp
  ultimately have "rev name @ takeWhile (\<lambda>c. c \<noteq> CHR ''/'') (rev pre) = rev n" using w by (metis rev_append)
  then have "length name \<le> length n" by (metis le_add1 length_append length_rev)
  then show False by (simp add: name_def)
qed

lemma socket_node:
  assumes "bind_with_label backend E path = (Ok u, ops)"
  shows "\<exists>node. apply_ops (butlast ops) d (build_tmp_socket_path (sk_pid E) path) = Some node \<and> nd_mode node = MODE_0660"
  using assms
  by (auto simp: bind_with_label_def Let_def fresh_node_def butlast_append split: sum.splits if_splits)

text \<open>
  C19. The socket of the daemon is never open to all. At every moment of the binding, whatever the
  umask is, the name of the socket holds what it held before or a socket of mode 0660; after success
  it holds the socket and the temporary name is free, and after a failure it is unchanged.
\<close>

theorem socket_never_exposed:
  assumes "bind_with_label backend E (dir @ ''/'' @ n) = (r, ops)" "plain_name n"
  shows "(apply_ops (take k ops) d (dir @ ''/'' @ n) = d (dir @ ''/'' @ n)
      \<or> (\<exists>node. apply_ops (take k ops) d (dir @ ''/'' @ n) = Some node \<and> nd_mode node = MODE_0660))
    \<and> (if r = Ok () then (\<exists>node. apply_ops ops d (dir @ ''/'' @ n) = Some node \<and> nd_mode node = MODE_0660)
          \<and> apply_ops ops d (build_tmp_socket_path (sk_pid E) (dir @ ''/'' @ n)) = None
       else apply_ops ops d (dir @ ''/'' @ n) = d (dir @ ''/'' @ n))"
proof -
  let ?p = "dir @ ''/'' @ n"
  let ?x = "(backend, E, ?p)"
  have t: "build_tmp_socket_path (sk_pid E) ?p \<noteq> ?p" using assms(2) by (rule tmp_socket_differs)
  have moment: "apply_ops (take k ops) d ?p = d ?p \<or> (\<exists>node. apply_ops (take k ops) d ?p = Some node \<and> nd_mode node = MODE_0660)"
    using socket.at_every_moment [of ?x r ops k d] socket_node [of backend E ?p "()" ops d] assms(1) t by auto
  show ?thesis
  proof (cases r)
    case (Inl e)
    with socket.after_failure [of ?x e ops d] assms(1) t moment show ?thesis by simp
  next
    case (Inr u)
    with socket.after_success [of ?x u ops d] socket_node [of backend E ?p u ops d] assms(1) t moment show ?thesis by auto
  qed
qed

definition demo_socket_env :: socket_env where
  "demo_socket_env = \<lparr>sk_pid = 7, sk_umask_mode = 511, sk_fd = 3, sk_bind = Ok (), sk_chmod = Ok (), sk_rename = Ok ()\<rparr>"

theorem socket_never_exposed_witness:
  "\<exists>ops node. bind_with_label stub_backend demo_socket_env ''/run/m.sock'' = (Ok (), ops)
     \<and> apply_ops ops Map.empty ''/run/m.sock'' = Some node \<and> nd_mode node = MODE_0660"
proof -
  obtain ops where r: "bind_with_label stub_backend demo_socket_env (''/run'' @ ''/'' @ ''m.sock'') = (Ok (), ops)"
    by (simp add: bind_with_label_def demo_socket_env_def stub_backend_def Let_def)
  have "plain_name ''m.sock''" by (simp add: plain_name_def)
  from socket_never_exposed [OF r this, of _ Map.empty] r show ?thesis by auto
qed

end
