(* ===== verification/Host_Dump.thy ===== *)
theory Host_Dump
  imports Utc_Time Published_Files Host_Identity Usb_Mount Hooks
begin

text \<open>
  The two places that show the identity of the machine to a person: the report of
  \<open>dump_host_id.rs\<close>, which goes to the terminal, to a file or to a USB stick, and the banner that
  \<open>fly_dm_wallpaper_writer.rs\<close> draws over the background of the login screen.

  The outcome of every system call is an argument, and each function returns the operations it
  performed with its result. The wording of an error of the operating system, the image and font
  libraries and the \<open>f32\<close> layout of the glyphs (which pixels they cover, and how much) are
  arguments too; the blending of a pixel is the code's.
\<close>

section \<open>The probes\<close>

type_synonym probe_result = "host_id_source_kind \<times> (string, resolved_host_id) result"

definition hash_prefix :: "resolved_host_id \<Rightarrow> string" where
  "hash_prefix r = take (min (length (rh_hash_hex r)) 8) (rh_hash_hex r)"

definition fanout_cfg :: "host_identity_section \<Rightarrow> host_identity_section" where
  "fanout_cfg validated =
     validated\<lparr>hi_sources := [MachineId, DmiBoardSerial, DmiSystemUuid, DmiSystemSerial, Hostname] @
       (if hi_custom_command validated \<noteq> None then [CustomCommand] else [])\<rparr>"

definition override_probe :: "crypto \<Rightarrow> host_sys \<Rightarrow> string option \<Rightarrow> probe_result" where
  "override_probe C S override_value =
     (Override,
      case override_value of
        None \<Rightarrow> Err ''no [host_identity].override configured''
      | Some raw \<Rightarrow>
          (let normalized = normalize_host_id S raw in
           if normalized = [] then Err ''empty after normalization'' else Ok (resolved C Override raw normalized)))"

text \<open>\<open>W\<close> is the wording of the errors of a source.\<close>

fun attempt_text :: "(host_identity_error \<Rightarrow> string) \<Rightarrow> attempt \<Rightarrow> string" where
  "attempt_text W (FetchFailed e) = W e"
| "attempt_text W EmptyAfterNormalization = ''empty after normalization''"

definition dump_probes ::
  "(host_identity_error \<Rightarrow> string) \<Rightarrow> crypto \<Rightarrow> host_sys \<Rightarrow> host_identity_section \<Rightarrow> string \<Rightarrow> probe_result list option" where
  "dump_probes W C S cfg fs_root =
     map_option (\<lambda>probes. map (\<lambda>(kind, outcome). (kind, map_err (attempt_text W) outcome)) probes @
         [override_probe C S (hi_override_value cfg)])
       (probe_all C S (from_validated S (fanout_cfg cfg) fs_root))"

text \<open>The source that the resolver takes under the configured list.\<close>

definition dump_active_kind ::
  "crypto \<Rightarrow> host_sys \<Rightarrow> host_identity_section \<Rightarrow> string \<Rightarrow> host_id_source_kind option option" where
  "dump_active_kind C S cfg fs_root =
     map_option (\<lambda>r. case r of Inr found \<Rightarrow> Some (rh_source_kind found) | Inl _ \<Rightarrow> None)
       (resolve_sources C S (hi_fallback cfg) [] (from_validated S cfg fs_root))"

section \<open>The report\<close>

definition TAB :: char where "TAB = CHR 0x09"
definition NEWLINE :: char where "NEWLINE = CHR 0x0A"

definition sanitize_field :: "string \<Rightarrow> string" where
  "sanitize_field s = map (\<lambda>c. if c = TAB \<or> c = NEWLINE \<or> c = CHR 0x0D then CHR '' '' else c) s"

fun tabbed :: "string list \<Rightarrow> string" where
  "tabbed [] = []"
| "tabbed [c] = c"
| "tabbed (c # cs) = c @ TAB # tabbed cs"

text \<open>The columns of a row; \<open>render_row\<close> prints them with a tab between any two.\<close>

definition row_columns :: "host_id_source_kind option \<Rightarrow> probe_result \<Rightarrow> string list" where
  "row_columns active_kind p =
     (let active = (if active_kind = Some (fst p) then ''yes'' else ''no'')
      in case snd p of
           Inr r \<Rightarrow> [source_display (fst p), ''ok'', rh_hash_hex r, hash_prefix r, sanitize_field (rh_raw r),
                     sanitize_field (rh_normalized r), active, ''-'']
         | Inl reason \<Rightarrow> [source_display (fst p), ''err'', ''-'', ''-'', ''-'', ''-'', active, sanitize_field reason])"

definition render_row :: "host_id_source_kind option \<Rightarrow> probe_result \<Rightarrow> string" where
  "render_row active_kind p = tabbed (row_columns active_kind p) @ [NEWLINE]"

definition tsv_header :: "string list" where
  "tsv_header = [''source'', ''status'', ''hash_hex'', ''hash_prefix'', ''raw'', ''normalized'',
     ''active_under_current_config'', ''reason'']"

text \<open>A dash is three bytes of UTF-8.\<close>

definition tsv_comment :: "string \<Rightarrow> string \<Rightarrow> string" where
  "tsv_comment hostname ts =
     ''# pam-certauth host identity probe '' @ [CHR 0xE2, CHR 0x80, CHR 0x94] @ '' '' @ hostname @ '' '' @
     [CHR 0xE2, CHR 0x80, CHR 0x94] @ '' '' @ ts"

definition render_tsv :: "probe_result list \<Rightarrow> string \<Rightarrow> string \<Rightarrow> host_id_source_kind option \<Rightarrow> string" where
  "render_tsv probes hostname ts active_kind =
     tsv_comment hostname ts @ [NEWLINE] @
     ''# probes EVERY known source kind (not just [host_identity].sources).'' @ [NEWLINE] @
     ''# active_under_current_config=yes marks the source the daemon currently picks.'' @ [NEWLINE] @
     tabbed tsv_header @ [NEWLINE] @
     concat (map (render_row active_kind) probes)"

text \<open>The name of the machine, from two files or the environment.\<close>

fun first_hostname :: "host_sys \<Rightarrow> string list \<Rightarrow> string option" where
  "first_hostname S [] = None"
| "first_hostname S (p # ps) =
     (case hs_read S p of
        Inr s \<Rightarrow> if trim s \<noteq> [] then Some (trim s) else first_hostname S ps
      | Inl _ \<Rightarrow> first_hostname S ps)"

definition local_hostname :: "host_sys \<Rightarrow> (string \<Rightarrow> string option) \<Rightarrow> string" where
  "local_hostname S env_var =
     (case first_hostname S [''/proc/sys/kernel/hostname'', ''/etc/hostname''] of
        Some h \<Rightarrow> h
      | None \<Rightarrow> (case env_var ''HOSTNAME'' of Some v \<Rightarrow> v | None \<Rightarrow> ''unknown''))"

section \<open>The USB stick\<close>

datatype dump_error = DumpConfig string | NoActiveHostId | DumpOutput io_error | DumpUsb string

datatype usb_op =
    UsbMkdir string
  | UsbRemoveTree string
  | UsbMount string string string "ms_flag list"
  | UsbWrite string string
  | UsbSync string
  | UsbUmount string
  | UsbRmdir string

record usb_env =
  ux_enumerate :: "(usb_error, usb_device list) result"
  ux_pid :: nat
  ux_mkdir :: "string \<Rightarrow> (string, unit) result"
  ux_exists :: "string \<Rightarrow> bool"
  ux_mount :: "(string, unit) result"
  ux_open :: "(string, unit) result"
  ux_write :: "(string \<times> string) option"
  ux_sync :: "(string, unit) result"
  ux_umount :: "(string, unit) result"

definition pick_usb_partition :: "usb_env \<Rightarrow> (dump_error, usb_device) result" where
  "pick_usb_partition U =
     and_then (map_err (\<lambda>_. DumpUsb ''udev enumerate failed'') (ux_enumerate U)) (\<lambda>devs.
     ok_or (DumpUsb ''no USB partition with writable filesystem found'')
       (find (\<lambda>d. case dev_fs_type d of Some fs \<Rightarrow> fs \<in> set ALLOWED_FS | None \<Rightarrow> False) devs))"

text \<open>A write that fails may have written a part.\<close>

definition write_usb_file :: "usb_env \<Rightarrow> string \<Rightarrow> string \<Rightarrow> (dump_error, unit) result \<times> usb_op list" where
  "write_usb_file U target content =
     (case ux_open U of
        Inl _ \<Rightarrow> (Err (DumpUsb ''open''), [])
      | Inr _ \<Rightarrow>
          (case ux_write U of
             Some (_, part) \<Rightarrow> (Err (DumpUsb ''write''), [UsbWrite target part])
           | None \<Rightarrow>
               (case ux_sync U of
                  Inl _ \<Rightarrow> (Err (DumpUsb ''fsync''), [UsbWrite target content])
                | Inr _ \<Rightarrow> (Ok (), [UsbWrite target content, UsbSync target]))))"

definition usb_mountpoint :: "nat \<Rightarrow> string" where
  "usb_mountpoint pid = path_join ''/run/pam_certauth/host-id-dump'' (''mnt-'' @ to_decimal pid)"

definition write_to_usb :: "usb_env \<Rightarrow> usb_device \<Rightarrow> string \<Rightarrow> string \<Rightarrow> (dump_error, string) result \<times> usb_op list" where
  "write_to_usb U dev filename content =
     (case dev_fs_type dev of
        None \<Rightarrow> (Err (DumpUsb ''USB partition has no fs_type''), [])
      | Some fs \<Rightarrow>
          (let base = ''/run/pam_certauth/host-id-dump''; mp = usb_mountpoint (ux_pid U)
           in case ux_mkdir U base of
                Inl _ \<Rightarrow> (Err (DumpUsb ''mkdir''), [])
              | Inr _ \<Rightarrow>
                  (let cleared = UsbMkdir base # (if ux_exists U mp then [UsbRemoveTree mp] else [])
                   in case ux_mkdir U mp of
                        Inl _ \<Rightarrow> (Err (DumpUsb ''mkdir''), cleared)
                      | Inr _ \<Rightarrow>
                          (case ux_mount U of
                             Inl _ \<Rightarrow> (Err (DumpUsb ''mount''), cleared @ [UsbMkdir mp, UsbRmdir mp])
                           | Inr _ \<Rightarrow>
                               (let target = path_join mp filename;
                                    (write_res, written) = write_usb_file U target content;
                                    umount_res = map_err (\<lambda>_. DumpUsb ''umount'') (ux_umount U);
                                    ops = cleared @ [UsbMkdir mp,
                                            UsbMount (dev_devnode dev) mp fs [MS_NOSUID, MS_NODEV, MS_NOEXEC]] @
                                          written @ [UsbUmount mp, UsbRmdir mp]
                                in (and_then write_res (\<lambda>_. and_then umount_res (\<lambda>_. Ok target)), ops))))))"

section \<open>The command\<close>

record dump_host_id_options =
  do_output :: "string option"
  do_usb :: bool
  do_fs_root :: "string option"

datatype dump_destination = DestStdout | DestFile string | DestUsb string string

datatype dump_effect = FileOps "fs_op list" | UsbOps "usb_op list" | Printed string

record dump_env =
  de_wording :: "host_identity_error \<Rightarrow> string"
  de_env_var :: "string \<Rightarrow> string option"
  de_now :: u64
  de_file :: file_env
  de_usb :: usb_env

definition dump_write ::
  "dump_env \<Rightarrow> dump_host_id_options \<Rightarrow> string \<Rightarrow> string \<Rightarrow> (dump_error, dump_destination) result \<times> dump_effect list" where
  "dump_write E opts hostname tsv =
     (case do_output opts of
        Some path \<Rightarrow>
          (case write_atomic (de_file E) path tsv of
             (r, ops) \<Rightarrow> (and_then (map_err DumpOutput r) (\<lambda>_. Ok (DestFile path)), [FileOps ops]))
      | None \<Rightarrow>
          if do_usb opts then
            (case pick_usb_partition (de_usb E) of
               Inl e \<Rightarrow> (Err e, [])
             | Inr dev \<Rightarrow>
                 (case write_to_usb (de_usb E) dev
                         (''host-ids-'' @ hostname @ ''-'' @ utc_stamp_compact (de_now E) @ ''.tsv'') tsv of
                    (r, ops) \<Rightarrow> (and_then r (\<lambda>written. Ok (DestUsb (dev_devnode dev) written)), [UsbOps ops])))
          else (Ok DestStdout, [Printed tsv]))"

text \<open>\<open>None\<close>: the custom command never gave an answer.\<close>

definition dump_run ::
  "dump_env \<Rightarrow> crypto \<Rightarrow> host_sys \<Rightarrow> (string, validated_config) result \<Rightarrow> dump_host_id_options \<Rightarrow>
   ((dump_error, dump_destination) result \<times> dump_effect list) option" where
  "dump_run E C S config opts =
     (case config of
        Inl e \<Rightarrow> Some (Err (DumpConfig e), [])
      | Inr validated \<Rightarrow>
          (let cfg = vf_host_identity validated;
               fs_root = (case do_fs_root opts of Some r \<Rightarrow> r | None \<Rightarrow> ''/'')
           in case (dump_probes (de_wording E) C S cfg fs_root, dump_active_kind C S cfg fs_root) of
                (Some probes, Some active_kind) \<Rightarrow>
                  if \<not> list_ex (\<lambda>p. is_ok (snd p)) probes then Some (Err NoActiveHostId, [])
                  else
                    (let hostname = local_hostname S (de_env_var E)
                     in Some (dump_write E opts hostname (render_tsv probes hostname (utc_iso8601 (de_now E)) active_kind)))
              | _ \<Rightarrow> None))"

definition dump_run_cli :: "(dump_error, dump_destination) result \<Rightarrow> nat" where
  "dump_run_cli r = (if is_ok r then 0 else 1)"

section \<open>The banner on the login screen\<close>

record rgba_image =
  im_width :: u32
  im_height :: u32
  im_pixel :: "nat \<Rightarrow> nat \<Rightarrow> u8 \<times> u8 \<times> u8 \<times> u8"

definition blend_channel :: "u8 \<Rightarrow> u8 \<Rightarrow> u8 \<Rightarrow> u8" where
  "blend_channel color alpha pixel =
     ucast ((ucast color * ucast alpha + ucast pixel * (255 - ucast alpha)) div (255 :: u16))"

text \<open>One point of the outline of a glyph, with how much of it is covered.\<close>

definition draw_point :: "u8 list \<Rightarrow> int \<times> int \<times> u8 \<Rightarrow> rgba_image \<Rightarrow> rgba_image" where
  "draw_point color = (\<lambda>(px, py, alpha) img.
     if px \<ge> 0 \<and> py \<ge> 0 \<and> nat px < unat (im_width img) \<and> nat py < unat (im_height img) \<and> alpha > 0 then
       (let (r, g, b, _) = im_pixel img (nat px) (nat py)
        in img\<lparr>im_pixel := (im_pixel img)(nat px := (im_pixel img (nat px))(nat py :=
             (blend_channel (color ! 0) alpha r, blend_channel (color ! 1) alpha g, blend_channel (color ! 2) alpha b, 255)))\<rparr>)
     else img)"

datatype writer_error =
    WriterIo string io_error
  | ImageDecode string string
  | ImageEncode string string
  | FontLoad string string

datatype update_outcome = Disabled | NoBackupSourceNoTarget | Wrote bool

text \<open>
  \<open>we_glyphs\<close> is the layout of a text by the font library: the covered points in the order they are
  drawn. A copy or a save that fails may have written a part.
\<close>

record 'font wallpaper_env =
  we_pid :: nat
  we_dir_exists :: "string \<Rightarrow> bool"
  we_mkdir :: "string \<Rightarrow> (io_error, unit) result"
  we_copy :: "bytes \<Rightarrow> (io_error \<times> bytes) option"
  we_decode :: "bytes \<Rightarrow> (string, rgba_image) result"
  we_font :: "bytes \<Rightarrow> (string, 'font) result"
  we_glyphs :: "rgba_image \<Rightarrow> 'font \<Rightarrow> fly_dm_greeter_section \<Rightarrow> string \<Rightarrow> (int \<times> int \<times> u8) list"
  we_encode :: "rgba_image \<Rightarrow> bytes"
  we_save :: "bytes \<Rightarrow> (string \<times> bytes) option"
  we_rename :: "(io_error, unit) result"
  we_var :: "string \<Rightarrow> string option"

definition draw_text :: "'font wallpaper_env \<Rightarrow> 'font \<Rightarrow> fly_dm_greeter_section \<Rightarrow> string \<Rightarrow> rgba_image \<Rightarrow> rgba_image" where
  "draw_text E font cfg text img = fold (draw_point (fg_wallpaper_text_color cfg)) (we_glyphs E img font cfg text) img"

definition is_russian_locale :: "host_sys \<Rightarrow> (string \<Rightarrow> string option) \<Rightarrow> bool" where
  "is_russian_locale S env_var =
     (let lang = (case env_var ''LC_MESSAGES'' of
              Some v \<Rightarrow> v
            | None \<Rightarrow> (case env_var ''LANG'' of Some v \<Rightarrow> v | None \<Rightarrow> []))
      in take 2 (hs_lower S lang) = ''ru'')"

definition substitute :: "string \<Rightarrow> resolved_host_id \<Rightarrow> string \<Rightarrow> string" where
  "substitute template r hostname =
     str_replace ''%n'' hostname
       (str_replace ''{source}'' (source_display (rh_source_kind r))
         (str_replace ''{host_id_short}'' (hash_prefix r) template))"

definition make_dir :: "'font wallpaper_env \<Rightarrow> string \<Rightarrow> (writer_error, unit) result \<times> fs_op list" where
  "make_dir E dir =
     (if dir = [] \<or> we_dir_exists E dir then (Ok (), [])
      else case we_mkdir E dir of
             Inl e \<Rightarrow> (Err (WriterIo dir e), [])
           | Inr _ \<Rightarrow> (Ok (), [OpMkdirAll dir]))"

text \<open>The copy of the stock image, when there is none yet; whether it was made.\<close>

definition back_up :: "'font wallpaper_env \<Rightarrow> fly_dm_greeter_section \<Rightarrow> disk \<Rightarrow> (writer_error, bool) result \<times> fs_op list" where
  "back_up E cfg d =
     (let target = fg_wallpaper_target cfg; backup = fg_wallpaper_backup cfg
      in case (d backup, d target) of
           (Some _, _) \<Rightarrow> (Ok False, [])
         | (None, None) \<Rightarrow> (Err (WriterIo target NotFoundIo), [])
         | (None, Some stock) \<Rightarrow>
             (case (case path_parent backup of None \<Rightarrow> (Ok (), []) | Some parent \<Rightarrow> make_dir E parent) of
                (Inl e, ops) \<Rightarrow> (Err e, ops)
              | (Inr _, ops) \<Rightarrow>
                  (case we_copy E (nd_data stock) of
                     Some (e, part) \<Rightarrow> (Err (WriterIo backup e), ops @ [OpTruncate backup (nd_mode stock), OpWrite backup part])
                   | None \<Rightarrow> (Ok True, ops @ [OpTruncate backup (nd_mode stock), OpWrite backup (nd_data stock)]))))"

definition banner_text :: "'font wallpaper_env \<Rightarrow> host_sys \<Rightarrow> fly_dm_greeter_section \<Rightarrow> resolved_host_id \<Rightarrow> string" where
  "banner_text E S cfg r =
     substitute (if is_russian_locale S (we_var E) then fg_template_ru cfg else fg_template_en cfg) r
       (local_hostname S (we_var E))"

text \<open>The new image, from the copy of the stock image.\<close>

definition render_banner ::
  "'font wallpaper_env \<Rightarrow> host_sys \<Rightarrow> fly_dm_greeter_section \<Rightarrow> resolved_host_id \<Rightarrow> disk \<Rightarrow> (writer_error, rgba_image) result" where
  "render_banner E S cfg r d =
     (let backup = fg_wallpaper_backup cfg; font_path = fg_wallpaper_font cfg
      in and_then (case d backup of
                     None \<Rightarrow> Err (ImageDecode backup ''not found'')
                   | Some n \<Rightarrow> map_err (ImageDecode backup) (we_decode E (nd_data n))) (\<lambda>img.
         and_then (ok_or (WriterIo font_path NotFoundIo) (d font_path)) (\<lambda>n.
         and_then (map_err (FontLoad font_path) (we_font E (nd_data n))) (\<lambda>font.
         Ok (draw_text E font cfg (banner_text E S cfg r) img)))))"

definition wallpaper_tmp :: "'font wallpaper_env \<Rightarrow> string \<Rightarrow> string" where
  "wallpaper_tmp E parent = path_join parent (''.pam_certauth_wallpaper.'' @ to_decimal (we_pid E) @ ''.tmp.jpg'')"

definition install_banner ::
  "'font wallpaper_env \<Rightarrow> fly_dm_greeter_section \<Rightarrow> rgba_image \<Rightarrow> (writer_error, unit) result \<times> fs_op list" where
  "install_banner E cfg img =
     (let target = fg_wallpaper_target cfg
      in case path_parent target of
           None \<Rightarrow> (Err (WriterIo target NoParent), [])
         | Some parent \<Rightarrow>
             (case make_dir E parent of
                (Inl e, ops) \<Rightarrow> (Err e, ops)
              | (Inr _, ops) \<Rightarrow>
                  (let tmp = wallpaper_tmp E parent; bs = we_encode E img
                   in case we_save E bs of
                        Some (e, part) \<Rightarrow> (Err (ImageEncode tmp e), ops @ [OpTruncate tmp MODE_0644, OpWrite tmp part])
                      | None \<Rightarrow>
                          (case we_rename E of
                             Inl e \<Rightarrow> (Err (WriterIo target e), ops @ [OpTruncate tmp MODE_0644, OpWrite tmp bs])
                           | Inr _ \<Rightarrow> (Ok (), ops @ [OpTruncate tmp MODE_0644, OpWrite tmp bs, OpRename tmp target])))))"

definition update_wallpaper ::
  "'font wallpaper_env \<Rightarrow> host_sys \<Rightarrow> fly_dm_greeter_section \<Rightarrow> resolved_host_id \<Rightarrow> disk \<Rightarrow>
   (writer_error, update_outcome) result \<times> fs_op list" where
  "update_wallpaper E S cfg r d =
     (if \<not> fg_update_wallpaper cfg then (Ok Disabled, [])
      else if d (fg_wallpaper_backup cfg) = None \<and> d (fg_wallpaper_target cfg) = None then (Ok NoBackupSourceNoTarget, [])
      else case back_up E cfg d of
             (Inl e, ops) \<Rightarrow> (Err e, ops)
           | (Inr backed_up, ops) \<Rightarrow>
               (case render_banner E S cfg r (apply_ops ops d) of
                  Inl e \<Rightarrow> (Err e, ops)
                | Inr img \<Rightarrow>
                    (case install_banner E cfg img of
                       (Inl e, ops') \<Rightarrow> (Err e, ops @ ops')
                     | (Inr _, ops') \<Rightarrow> (Ok (Wrote backed_up), ops @ ops'))))"

section \<open>The report reads back\<close>

lemma sanitize_clean [simp]: "TAB \<notin> set (sanitize_field s)" "NEWLINE \<notin> set (sanitize_field s)"
  by (auto simp: sanitize_field_def TAB_def NEWLINE_def)

lemma split_tabbed: "cs \<noteq> [] \<Longrightarrow> list_all (\<lambda>c. TAB \<notin> set c) cs \<Longrightarrow> split_on TAB (tabbed cs) = cs"
  by (induction cs rule: tabbed.induct) (simp_all add: split_on_no_sep split_on_append)

lemma tabbed_clean: "NEWLINE \<notin> set (tabbed cs) \<longleftrightarrow> list_all (\<lambda>c. NEWLINE \<notin> set c) cs"
  by (induction cs rule: tabbed.induct) (auto simp: TAB_def NEWLINE_def)

lemma split_lines:
  "list_all (\<lambda>l. NEWLINE \<notin> set l) ls \<Longrightarrow> split_on NEWLINE (concat (map (\<lambda>l. l @ [NEWLINE]) ls)) = ls @ [[]]"
  by (induction ls) (simp_all add: split_on_append)

definition plain :: "string \<Rightarrow> bool" where
  "plain s \<longleftrightarrow> TAB \<notin> set s \<and> NEWLINE \<notin> set s"

lemma digit_char_plain: "n < 16 \<Longrightarrow> digit_char n \<noteq> TAB \<and> digit_char n \<noteq> NEWLINE"
proof -
  assume "n < 16"
  then have "n \<in> set [0..<16]" by simp
  moreover have "list_all (\<lambda>n. digit_char n \<noteq> TAB \<and> digit_char n \<noteq> NEWLINE) [0..<16]" by code_simp
  ultimately show ?thesis unfolding list_all_iff by blast
qed

lemma hash_plain: "plain (sha256_hex C s)"
proof -
  have "plain (hex02 b)" for b :: u8
  proof -
    have "unat b < 256" by (rule unat_u8_lt)
    then have "unat b div 16 < 16" "unat b mod 16 < 16" by (simp_all add: less_mult_imp_div_less)
    then show ?thesis
      using digit_char_plain [of "unat b div 16"] digit_char_plain [of "unat b mod 16"] by (auto simp: plain_def hex02_def)
  qed
  then show ?thesis by (auto simp: plain_def sha256_hex_def)
qed

lemma source_plain: "plain (source_display k)"
  by (cases k) (simp_all add: plain_def TAB_def NEWLINE_def)

definition probe_ok :: "probe_result \<Rightarrow> bool" where
  "probe_ok p \<longleftrightarrow> (case snd p of Inr r \<Rightarrow> plain (rh_hash_hex r) | Inl _ \<Rightarrow> True)"

lemma plain_words: "plain ''ok''" "plain ''err''" "plain ''-''" "plain ''yes''" "plain ''no''"
  by (simp_all add: plain_def TAB_def NEWLINE_def)

lemma row_columns_plain: "probe_ok p \<Longrightarrow> list_all plain (row_columns active p)"
proof -
  have s: "plain (sanitize_field x)" for x by (simp add: plain_def)
  have h: "plain (rh_hash_hex r) \<Longrightarrow> plain (hash_prefix r)" for r
    by (auto simp: plain_def hash_prefix_def dest: in_set_takeD)
  show "probe_ok p \<Longrightarrow> list_all plain (row_columns active p)"
    by (simp add: row_columns_def probe_ok_def Let_def plain_words source_plain s h split: sum.splits)
qed

lemma row_columns_length [simp]: "length (row_columns active p) = 8"
  by (simp add: row_columns_def Let_def split: sum.split)

lemma probe_ok_resolved: "probe_ok (k, map_err f (probe C S k r))"
  by (auto simp: probe_ok_def probe_def resolved_def hash_plain Let_def result_simps split: sum.splits)

lemma probe_all_ok:
  "probe_all C S ss = Some probes \<Longrightarrow> list_all probe_ok (map (\<lambda>(k, o'). (k, map_err f o')) probes)"
  by (induction C S ss arbitrary: probes rule: probe_all.induct) (auto simp: probe_ok_resolved split: option.splits)

lemma dump_probes_ok: "dump_probes W C S cfg fs_root = Some probes \<Longrightarrow> list_all probe_ok probes"
  using probe_all_ok
  by (fastforce simp: dump_probes_def override_probe_def probe_ok_def resolved_def hash_plain Let_def split: option.splits)

lemma tsv_header_plain: "list_all plain tsv_header"
  by (simp add: tsv_header_def plain_def TAB_def NEWLINE_def)

lemma plain_columns:
  "list_all plain cs \<Longrightarrow> list_all (\<lambda>c. TAB \<notin> set c) cs" "list_all plain cs \<Longrightarrow> NEWLINE \<notin> set (tabbed cs)"
  by (auto simp: list_all_iff plain_def tabbed_clean)

lemma render_tsv_lines:
  assumes "list_all probe_ok probes" "NEWLINE \<notin> set hostname" "NEWLINE \<notin> set ts"
  shows "\<exists>a b c. split_on NEWLINE (render_tsv probes hostname ts active) =
    a # b # c # tabbed tsv_header # map (\<lambda>p. tabbed (row_columns active p)) probes @ [[]]"
proof -
  let ?comments = "[tsv_comment hostname ts,
     ''# probes EVERY known source kind (not just [host_identity].sources).'',
     ''# active_under_current_config=yes marks the source the daemon currently picks.'']"
  let ?ls = "?comments @ tabbed tsv_header # map (\<lambda>p. tabbed (row_columns active p)) probes"
  have "render_tsv probes hostname ts active = concat (map (\<lambda>l. l @ [NEWLINE]) ?ls)"
    by (simp add: render_tsv_def render_row_def [abs_def] comp_def)
  moreover have "list_all (\<lambda>l. NEWLINE \<notin> set l) ?comments"
    using assms(2,3) by (simp add: tsv_comment_def) (simp add: NEWLINE_def)
  moreover have "list_all (\<lambda>p. NEWLINE \<notin> set (tabbed (row_columns active p))) probes"
    using assms(1) plain_columns(2) [OF row_columns_plain] unfolding list_all_iff by blast
  ultimately show ?thesis
    using split_lines [of ?ls] plain_columns(2) [OF tsv_header_plain] by (simp add: list.pred_map comp_def)
qed

text \<open>How a person at the certification authority reads the report.\<close>

definition read_table :: "string \<Rightarrow> string list list" where
  "read_table text = map (split_on TAB) (butlast (drop 3 (split_on NEWLINE text)))"

text \<open>
  C25. The report of \<open>dump-host-id\<close> is a table: whatever the firmware puts into its strings, after
  the three comment lines each line has exactly eight tab-separated fields, and splitting the lines
  gives back the header and the columns of every probe, in order.
\<close>

theorem report_reads_back:
  assumes "dump_probes W C S cfg fs_root = Some probes" "NEWLINE \<notin> set hostname" "NEWLINE \<notin> set ts"
  shows "read_table (render_tsv probes hostname ts active) = tsv_header # map (row_columns active) probes
    \<and> list_all (\<lambda>cols. length cols = 8) (read_table (render_tsv probes hostname ts active))"
proof -
  have ok: "list_all probe_ok probes" by (rule dump_probes_ok [OF assms(1)])
  have row: "row_columns active p \<noteq> []" for p using row_columns_length [of active p] by force
  have "map (split_on TAB) (map (\<lambda>p. tabbed (row_columns active p)) probes) = map (row_columns active) probes"
    using ok by (auto simp: list_all_iff [of _ probes] intro!: split_tabbed plain_columns row_columns_plain row)
  moreover have "split_on TAB (tabbed tsv_header) = tsv_header"
    by (rule split_tabbed [OF _ plain_columns(1) [OF tsv_header_plain]]) (simp add: tsv_header_def)
  ultimately have "read_table (render_tsv probes hostname ts active) = tsv_header # map (row_columns active) probes"
    using render_tsv_lines [OF ok assms(2,3), of active] by (auto simp: read_table_def numeral_3_eq_3 butlast_append)
  then show ?thesis by (simp add: tsv_header_def list.pred_map comp_def list_all_iff)
qed

lemma demo_probes:
  "\<exists>probes. dump_probes (\<lambda>_. ''failed'') demo_crypto demo_host (demo_section FbDeny) ''/'' = Some probes"
  by (simp add: dump_probes_def fanout_cfg_def from_validated_def source_of_def demo_section_def)

theorem report_reads_back_witness:
  "\<exists>probes. dump_probes (\<lambda>_. ''failed'') demo_crypto demo_host (demo_section FbDeny) ''/'' = Some probes
     \<and> read_table (render_tsv probes ''box1'' ''now'' (Some Hostname)) = tsv_header # map (row_columns (Some Hostname)) probes"
proof -
  have "NEWLINE \<notin> set ''box1''" "NEWLINE \<notin> set ''now''" by (simp_all add: NEWLINE_def)
  with demo_probes report_reads_back show ?thesis by blast
qed

section \<open>The row that is marked as active\<close>

lemma from_validated_kind: "(kind, fetched) \<in> set (from_validated S cfg fs_root) \<Longrightarrow> kind \<noteq> Override"
proof -
  have "(kind, fetched) \<in> set (source_of S cfg fs_root k) \<Longrightarrow> kind \<noteq> Override" for k
    by (cases k) (auto simp: source_of_def split: option.splits)
  then show "(kind, fetched) \<in> set (from_validated S cfg fs_root) \<Longrightarrow> kind \<noteq> Override"
    by (auto simp: from_validated_def)
qed

lemma active_override:
  assumes "dump_active_kind C S cfg fs_root = Some (Some Override)"
  shows "hi_fallback cfg \<noteq> FbDeny \<and> list_all (source_failed C S) (from_validated S cfg fs_root)"
proof -
  from assms obtain q where
    q: "resolve_sources C S (hi_fallback cfg) [] (from_validated S cfg fs_root) = Some q"
      "(case q of Inr found \<Rightarrow> Some (rh_source_kind found) | Inl _ \<Rightarrow> None) = Some Override"
    by (auto simp: dump_active_kind_def)
  then obtain found where
    f: "resolve_sources C S (hi_fallback cfg) [] (from_validated S cfg fs_root) = Some (Ok found)" "rh_source_kind found = Override"
    by (cases q) simp_all
  from resolve_sources_Ok [OF f(1)] show ?thesis
  proof
    assume "\<exists>ys kind raw zs. from_validated S cfg fs_root = ys @ (kind, Some (Ok raw)) # zs \<and> list_all (source_failed C S) ys \<and>
      normalize_host_id S raw \<noteq> [] \<and> found = resolved C kind raw (normalize_host_id S raw)"
    then obtain ys raw zs where "from_validated S cfg fs_root = ys @ (Override, Some (Ok raw)) # zs"
      using f(2) by (auto simp: resolved_def)
    with from_validated_kind [of Override "Some (Ok raw)" S cfg fs_root] show ?thesis by simp
  qed blast
qed

text \<open>
  Where no override is in force, the row that \<open>dump-host-id\<close> marks as active is the source the
  PAM module identifies the machine by. With an override listed and set it is not: the module takes
  the override, and the report marks the first other source that works, or no row when none does
  and the fallback is to deny.
\<close>

theorem dump_active_row:
  assumes "resolve_host_identity C S cfg = Some r"
  shows "if Override \<in> set (hi_sources cfg) \<and> hi_override_value cfg \<noteq> None
    then (\<exists>raw h. r = Ok (Override, raw, h) \<and> hi_override_value cfg = Some raw)
       \<and> (dump_active_kind C S cfg ''/'' = Some (Some Override) \<longrightarrow>
            hi_fallback cfg \<noteq> FbDeny \<and> list_all (source_failed C S) (from_validated S cfg ''/''))
    else dump_active_kind C S cfg ''/'' = Some (case r of Inr (kind, _) \<Rightarrow> Some kind | Inl _ \<Rightarrow> None)"
proof (cases "Override \<in> set (hi_sources cfg) \<and> hi_override_value cfg \<noteq> None")
  case True
  with assms active_override [of C S cfg "''/''"] show ?thesis by (auto simp: resolve_host_identity_def hash_tuple_def)
next
  case False
  with assms obtain q where "resolve_sources C S (hi_fallback cfg) [] (from_validated S cfg ''/'') = Some q"
    "r = and_then q (\<lambda>found. Ok (rh_source_kind found, rh_raw found, rh_hash_hex found))"
    by (auto simp: resolve_host_identity_def Let_def split: bool.splits option.splits)
  with False show ?thesis by (auto simp: dump_active_kind_def result_simps split: sum.splits)
qed

text \<open>A cloned image with an override: the module uses it, the report marks the host name.\<close>

definition cloned_section :: host_identity_section where
  "cloned_section = (demo_section FbDeny)\<lparr>hi_sources := [Override, Hostname], hi_override_value := Some ''clone''\<rparr>"

theorem dump_active_row_witness:
  "dump_active_kind demo_crypto demo_host (demo_section FbDeny) ''/'' = Some (Some Hostname)
   \<and> (\<exists>h. resolve_host_identity demo_crypto demo_host cloned_section = Some (Ok (Override, ''clone'', h)))
   \<and> dump_active_kind demo_crypto demo_host cloned_section ''/'' = Some (Some Hostname)"
proof (intro conjI)
  show "dump_active_kind demo_crypto demo_host (demo_section FbDeny) ''/'' = Some (Some Hostname)"
    using dump_active_row [OF demo_section_resolves [of demo_crypto]] by (simp add: demo_section_def)
  show "\<exists>h. resolve_host_identity demo_crypto demo_host cloned_section = Some (Ok (Override, ''clone'', h))"
    by (simp add: resolve_host_identity_def cloned_section_def demo_section_def hash_tuple_def)
  show "dump_active_kind demo_crypto demo_host cloned_section ''/'' = Some (Some Hostname)"
    by (simp add: dump_active_kind_def cloned_section_def demo_section_def from_validated_def source_of_def probe_def
        resolved_def demo_host_facts Let_def)
qed

section \<open>The stick is unmounted\<close>

fun mounting :: "usb_op \<Rightarrow> bool" where
  "mounting (UsbMount _ _ _ _) \<longleftrightarrow> True"
| "mounting (UsbUmount _) \<longleftrightarrow> True"
| "mounting _ \<longleftrightarrow> False"

lemma write_usb_file_ops:
  assumes "write_usb_file U target content = (res, ops)"
  shows "\<not> list_ex mounting ops" "res = Ok () \<Longrightarrow> ops = [UsbWrite target content, UsbSync target]"
  using assms by (auto simp: write_usb_file_def split: sum.splits option.splits)

text \<open>
  C26. \<open>dump-host-id --usb\<close> leaves no stick mounted behind it on its own account: it mounts at most
  once, with the flags that switch off set-uid bits, devices and execution, and whether or not the
  report could be written it asks for the unmount of that directory and then removes it. It reports
  success only when the whole report was written and synced in between and the unmount succeeded.
\<close>

theorem usb_dump_unmounts:
  assumes "write_to_usb U dev filename content = (r, ops)"
  shows "(UsbMount node mp fs flags \<in> set ops \<longrightarrow>
      (\<exists>before during. ops = before @ UsbMount node mp fs flags # during @ [UsbUmount mp, UsbRmdir mp]
         \<and> \<not> list_ex mounting (before @ during)
         \<and> node = dev_devnode dev \<and> dev_fs_type dev = Some fs \<and> flags = [MS_NOSUID, MS_NODEV, MS_NOEXEC]))
    \<and> (\<forall>written. r = Ok written \<longrightarrow> ux_umount U = Ok () \<and>
      (\<exists>before mp'. ops = before @ [UsbWrite written content, UsbSync written, UsbUmount mp', UsbRmdir mp']
         \<and> written = path_join mp' filename))"
proof (cases "r = Err (DumpUsb ''mount'') \<or> \<not> is_ok (ux_mount U) \<or> dev_fs_type dev = None
    \<or> \<not> is_ok (ux_mkdir U ''/run/pam_certauth/host-id-dump'') \<or> \<not> is_ok (ux_mkdir U (usb_mountpoint (ux_pid U)))")
  case True
  with assms show ?thesis
    by (auto simp: write_to_usb_def write_usb_file_def Let_def result_simps split: option.splits sum.splits if_splits prod.splits)
next
  case False
  let ?mp = "usb_mountpoint (ux_pid U)"
  let ?cleared = "UsbMkdir ''/run/pam_certauth/host-id-dump'' # (if ux_exists U ?mp then [UsbRemoveTree ?mp] else []) @ [UsbMkdir ?mp]"
  obtain res during where w: "write_usb_file U (path_join ?mp filename) content = (res, during)" by fastforce
  from False obtain fs' where f: "dev_fs_type dev = Some fs'" by auto
  with False assms w have o: "ops = ?cleared @ UsbMount (dev_devnode dev) ?mp fs' [MS_NOSUID, MS_NODEV, MS_NOEXEC] # during @ [UsbUmount ?mp, UsbRmdir ?mp]"
    and r: "r = and_then res (\<lambda>_. and_then (map_err (\<lambda>_. DumpUsb ''umount'') (ux_umount U)) (\<lambda>_. Ok (path_join ?mp filename)))"
    by (auto simp: write_to_usb_def Let_def split: sum.splits)
  have d: "\<not> list_ex mounting (?cleared @ during)" using write_usb_file_ops(1) [OF w] by simp
  have "UsbMount node mp fs flags \<in> set ops \<Longrightarrow>
      mp = ?mp \<and> fs = fs' \<and> node = dev_devnode dev \<and> flags = [MS_NOSUID, MS_NODEV, MS_NOEXEC]"
    using d bexI [of mounting "UsbMount node mp fs flags" "set during"] unfolding o list_ex_iff by (auto split: if_splits)
  with o d f have "UsbMount node mp fs flags \<in> set ops \<longrightarrow>
      (\<exists>before during. ops = before @ UsbMount node mp fs flags # during @ [UsbUmount mp, UsbRmdir mp]
         \<and> \<not> list_ex mounting (before @ during)
         \<and> node = dev_devnode dev \<and> dev_fs_type dev = Some fs \<and> flags = [MS_NOSUID, MS_NODEV, MS_NOEXEC])" by blast
  moreover have "\<forall>written. r = Ok written \<longrightarrow> ux_umount U = Ok () \<and>
      (\<exists>before mp'. ops = before @ [UsbWrite written content, UsbSync written, UsbUmount mp', UsbRmdir mp']
         \<and> written = path_join mp' filename)"
    using write_usb_file_ops(2) [OF w] unfolding o by (auto simp: r result_simps)
  ultimately show ?thesis by blast
qed

definition demo_usb_env :: usb_env where
  "demo_usb_env = \<lparr>ux_enumerate = Ok [], ux_pid = 7, ux_mkdir = (\<lambda>_. Ok ()), ux_exists = (\<lambda>_. False), ux_mount = Ok (),
     ux_open = Ok (), ux_write = Some (''ENOSPC'', ''so''), ux_sync = Ok (), ux_umount = Ok ()\<rparr>"

definition demo_stick :: usb_device where
  "demo_stick = \<lparr>dev_devnode = ''/dev/sdb1'', dev_serial = None, dev_vid = 1, dev_pid = 2, dev_fs_type = Some ''vfat''\<rparr>"

text \<open>A full stick: the report is cut short, and the stick is unmounted all the same.\<close>

theorem usb_dump_unmounts_witness:
  "\<exists>mp ops before during. write_to_usb demo_usb_env demo_stick ''ids.tsv'' ''source'' = (Err (DumpUsb ''write''), ops)
     \<and> ops = before @ UsbMount ''/dev/sdb1'' mp ''vfat'' [MS_NOSUID, MS_NODEV, MS_NOEXEC] # during @ [UsbUmount mp, UsbRmdir mp]
     \<and> \<not> list_ex mounting (before @ during)"
proof -
  obtain ops where o: "write_to_usb demo_usb_env demo_stick ''ids.tsv'' ''source'' = (Err (DumpUsb ''write''), ops)"
    "UsbMount ''/dev/sdb1'' (usb_mountpoint 7) ''vfat'' [MS_NOSUID, MS_NODEV, MS_NOEXEC] \<in> set ops"
    by (simp add: write_to_usb_def write_usb_file_def demo_usb_env_def demo_stick_def Let_def)
  with usb_dump_unmounts [OF o(1)] show ?thesis by blast
qed

section \<open>The banner is drawn on the stock image\<close>

lemma blend_channel_value:
  "unat (blend_channel c a p) = (unat c * unat a + unat p * (255 - unat a)) div 255"
proof -
  have b: "unat c \<le> 255" "unat a \<le> 255" "unat p \<le> 255" using unat_u8_lt [of c] unat_u8_lt [of a] unat_u8_lt [of p] by simp_all
  have "unat c * unat a + unat p * (255 - unat a) \<le> 255 * unat a + 255 * (255 - unat a)"
    by (intro add_mono mult_right_mono) (use b in simp_all)
  also have "\<dots> = 65025" using b(2) by (simp add: algebra_simps flip: distrib_left)
  finally have s: "unat c * unat a + unat p * (255 - unat a) \<le> 65025" .
  define N where "N = unat c * unat a + unat p * (255 - unat a)"
  have w: "(ucast c * ucast a + ucast p * (255 - ucast a) :: u16) = of_nat N"
    using b(2) by (simp add: N_def of_nat_diff)
  have "unat (of_nat N :: u16) = N" using s by (simp add: N_def [symmetric] unat_of_nat take_bit_nat_eq_self)
  moreover have "N div 255 < 256" using s by (simp add: N_def [symmetric])
  ultimately have "unat (blend_channel c a p) = N div 255"
    by (simp add: blend_channel_def w unat_div_distrib take_bit_nat_eq_self unsigned_ucast_eq)
  then show ?thesis by (simp add: N_def)
qed

definition target_tmp :: "'font wallpaper_env \<Rightarrow> fly_dm_greeter_section \<Rightarrow> string" where
  "target_tmp E cfg = (case path_parent (fg_wallpaper_target cfg) of Some parent \<Rightarrow> wallpaper_tmp E parent | None \<Rightarrow> [])"

text \<open>The three files are different ones; the configuration does not check this.\<close>

definition distinct_files :: "'font wallpaper_env \<Rightarrow> fly_dm_greeter_section \<Rightarrow> bool" where
  "distinct_files E cfg \<longleftrightarrow> distinct [fg_wallpaper_target cfg, fg_wallpaper_backup cfg, target_tmp E cfg]"

definition stock_image :: "fly_dm_greeter_section \<Rightarrow> disk \<Rightarrow> bytes option" where
  "stock_image cfg d =
     (case d (fg_wallpaper_backup cfg) of Some n \<Rightarrow> Some (nd_data n) | None \<Rightarrow> map_option nd_data (d (fg_wallpaper_target cfg)))"

fun update_runs ::
  "fly_dm_greeter_section \<Rightarrow> ('font wallpaper_env \<times> host_sys \<times> resolved_host_id) list \<Rightarrow> disk \<Rightarrow> disk" where
  "update_runs cfg [] d = d"
| "update_runs cfg ((E, S, r) # us) d = update_runs cfg us (apply_ops (snd (update_wallpaper E S cfg r d)) d)"

lemma make_dir_ops: "make_dir E dir = (r, ops) \<Longrightarrow> apply_ops ops d = d"
  by (auto simp: make_dir_def split: if_splits sum.splits)

lemma install_banner_disk:
  assumes "install_banner E cfg img = (res, ops)" "distinct_files E cfg"
  shows "apply_ops ops d (fg_wallpaper_backup cfg) = d (fg_wallpaper_backup cfg)"
    "res = Ok () \<Longrightarrow> map_option nd_data (apply_ops ops d (fg_wallpaper_target cfg)) = Some (we_encode E img)"
    "is_err res \<Longrightarrow> apply_ops ops d (fg_wallpaper_target cfg) = d (fg_wallpaper_target cfg)"
  using assms
  by (auto simp: install_banner_def distinct_files_def target_tmp_def make_dir_ops fresh_node_def Let_def
      split: option.splits prod.splits sum.splits)

lemma back_up_disk:
  assumes "back_up E cfg d = (res, ops)" "distinct_files E cfg"
  shows "apply_ops ops d (fg_wallpaper_target cfg) = d (fg_wallpaper_target cfg)"
    "d (fg_wallpaper_backup cfg) = Some n \<Longrightarrow> res = Ok False \<and> ops = []"
    "res = Ok True \<Longrightarrow> d (fg_wallpaper_backup cfg) = None \<and> d (fg_wallpaper_target cfg) \<noteq> None \<and>
       map_option nd_data (apply_ops ops d (fg_wallpaper_backup cfg)) = map_option nd_data (d (fg_wallpaper_target cfg))"
    "res = Ok False \<Longrightarrow> ops = [] \<and> d (fg_wallpaper_backup cfg) \<noteq> None"
    "is_err res \<Longrightarrow> we_copy E = (\<lambda>_. None) \<Longrightarrow> apply_ops ops d = d"
  using assms
  by (auto simp: back_up_def distinct_files_def make_dir_ops fresh_node_def Let_def
      split: option.splits prod.splits sum.splits)

lemma update_disk:
  assumes "update_wallpaper E S cfg r d = (res, ops)" "distinct_files E cfg"
  shows update_keeps_backup: "d (fg_wallpaper_backup cfg) = Some n \<Longrightarrow> apply_ops ops d (fg_wallpaper_backup cfg) = Some n"
    and update_keeps_stock: "we_copy E = (\<lambda>_. None) \<Longrightarrow> stock_image cfg (apply_ops ops d) = stock_image cfg d"
proof -
  obtain br bops where b: "back_up E cfg d = (br, bops)" by fastforce
  note bd = back_up_disk [OF b assms(2)]
  show "apply_ops ops d (fg_wallpaper_backup cfg) = Some n" if "d (fg_wallpaper_backup cfg) = Some n"
    using assms(1) that bd(2) [OF that] b install_banner_disk(1) [OF _ assms(2)]
    by (auto simp: update_wallpaper_def split: if_splits sum.splits prod.splits)
  show "stock_image cfg (apply_ops ops d) = stock_image cfg d" if c: "we_copy E = (\<lambda>_. None)"
  proof (cases br)
    case (Inl e)
    with assms(1) b bd(5) c show ?thesis by (auto simp: update_wallpaper_def split: if_splits)
  next
    case (Inr backed_up)
    have k: "stock_image cfg (apply_ops bops d) = stock_image cfg d"
      using Inr bd(3,4) by (cases backed_up) (auto simp: stock_image_def split: option.splits)
    obtain rr where rr: "render_banner E S cfg r (apply_ops bops d) = rr" by simp
    from assms(1) b Inr have "apply_ops ops d = d \<or> apply_ops ops d = apply_ops bops d \<or>
      (\<exists>img ires iops. install_banner E cfg img = (ires, iops) \<and> apply_ops ops d = apply_ops iops (apply_ops bops d))"
    proof (cases rr)
      case (Inr img)
      obtain ires iops where ii: "install_banner E cfg img = (ires, iops)" by fastforce
      from assms(1) b \<open>br = Ok backed_up\<close> rr Inr ii have "ops = [] \<or> ops = bops @ iops"
        by (cases ires) (simp_all add: update_wallpaper_def split: if_splits)
      then have "apply_ops ops d = d \<or> apply_ops ops d = apply_ops iops (apply_ops bops d)" by auto
      with ii show ?thesis by blast
    qed (use assms(1) b Inr rr in \<open>simp add: update_wallpaper_def split: if_splits\<close>)
    then show ?thesis
    proof (elim disjE exE conjE)
      fix img ires iops
      assume "install_banner E cfg img = (ires, iops)" "apply_ops ops d = apply_ops iops (apply_ops bops d)"
      with install_banner_disk(1) [OF _ assms(2)] k Inr bd(3,4) show ?thesis
        by (cases backed_up) (auto simp: stock_image_def split: option.splits)
    qed (use k in simp_all)
  qed
qed

lemma update_Wrote:
  assumes "update_wallpaper E S cfg r d = (Ok (Wrote b), ops)" "distinct_files E cfg" "stock_image cfg d = Some stock"
  shows "(b \<longleftrightarrow> d (fg_wallpaper_backup cfg) = None) \<and>
    (\<exists>img font. we_decode E stock = Ok img \<and>
      map_option nd_data (apply_ops ops d (fg_wallpaper_target cfg)) = Some (we_encode E (draw_text E font cfg (banner_text E S cfg r) img)))"
proof -
  from assms(1) obtain bops img iops where u: "back_up E cfg d = (Ok b, bops)" "render_banner E S cfg r (apply_ops bops d) = Ok img"
    "install_banner E cfg img = (Ok (), iops)" "ops = bops @ iops"
    by (auto simp: update_wallpaper_def split: if_splits sum.splits prod.splits)
  note bd = back_up_disk [OF u(1) assms(2)]
  have s: "map_option nd_data (apply_ops bops d (fg_wallpaper_backup cfg)) = Some stock"
    using bd(3,4) assms(3) by (cases b) (auto simp: stock_image_def split: option.splits)
  then obtain img0 font where "we_decode E stock = Ok img0" "img = draw_text E font cfg (banner_text E S cfg r) img0"
    using u(2) by (auto simp: render_banner_def result_simps Let_def split: option.splits)
  moreover have "b \<longleftrightarrow> d (fg_wallpaper_backup cfg) = None" using bd(3,4) by (cases b) auto
  moreover have "map_option nd_data (apply_ops ops d (fg_wallpaper_target cfg)) = Some (we_encode E img)"
    using install_banner_disk(2) [OF u(3) assms(2) refl] u(4) by simp
  ultimately show ?thesis by (intro conjI exI [of _ img0] exI [of _ font]) simp_all
qed


text \<open>
  A copy of the stock image that fails half way is never made again: the part that was written
  counts as the copy at every later start, so each of them draws on the part or fails, although the
  stock image is still in place.
\<close>

theorem torn_copy_stays:
  assumes "fg_update_wallpaper cfg" "d (fg_wallpaper_backup cfg) = None" "d (fg_wallpaper_target cfg) = Some stock"
    and "path_parent (fg_wallpaper_backup cfg) = Some dir" "we_dir_exists E dir"
    and "we_copy E (nd_data stock) = Some (e, part)" "distinct_files E cfg"
    and "list_all (\<lambda>(E, _, _). distinct_files E cfg) us"
    and "update_wallpaper E S cfg r d = (res, ops)"
  shows "res = Err (WriterIo (fg_wallpaper_backup cfg) e)
    \<and> apply_ops ops d (fg_wallpaper_target cfg) = Some stock
    \<and> map_option nd_data (update_runs cfg us (apply_ops ops d) (fg_wallpaper_backup cfg)) = Some part"
proof -
  have u: "res = Err (WriterIo (fg_wallpaper_backup cfg) e)"
      "ops = [OpTruncate (fg_wallpaper_backup cfg) (nd_mode stock), OpWrite (fg_wallpaper_backup cfg) part]"
    using assms(1-6,9) by (simp_all add: update_wallpaper_def back_up_def make_dir_def Let_def)
  have keep: "dd (fg_wallpaper_backup cfg) = Some n \<Longrightarrow> update_runs cfg us dd (fg_wallpaper_backup cfg) = Some n" for dd n
    using assms(8)
  proof (induction us arbitrary: dd)
    case (Cons u us)
    obtain E' S' r' where u: "u = (E', S', r')" by (cases u)
    obtain res ops' where p: "update_wallpaper E' S' cfg r' dd = (res, ops')" by fastforce
    from Cons.prems u have "apply_ops ops' dd (fg_wallpaper_backup cfg) = Some n" by (intro update_keeps_backup [OF p]) simp_all
    with Cons u p show ?case by simp
  qed simp
  have "apply_ops ops d (fg_wallpaper_backup cfg) = Some ((fresh_node (nd_mode stock))\<lparr>nd_data := part\<rparr>)"
    "apply_ops ops d (fg_wallpaper_target cfg) = Some stock"
    using assms(2,3,7) by (simp_all add: u fresh_node_def distinct_files_def)
  with keep u show ?thesis by simp
qed

definition demo_greeter :: fly_dm_greeter_section where
  "demo_greeter = greeter_defaults\<lparr>fg_update_wallpaper := True\<rparr>"

definition demo_wallpaper_env :: "unit wallpaper_env" where
  "demo_wallpaper_env = \<lparr>we_pid = 7, we_dir_exists = (\<lambda>_. True), we_mkdir = (\<lambda>_. Ok ()), we_copy = (\<lambda>_. None),
     we_decode = (\<lambda>bs. Ok \<lparr>im_width = 1, im_height = 1, im_pixel = (\<lambda>_ _. (hd bs, 0, 0, 255))\<rparr>), we_font = (\<lambda>_. Ok ()),
     we_glyphs = (\<lambda>_ _ _ _. [(0, 0, 255)]), we_encode = (\<lambda>img. [fst (im_pixel img 0 0)]), we_save = (\<lambda>_. None),
     we_rename = Ok (), we_var = (\<lambda>_. None)\<rparr>"

definition demo_disk :: disk where
  "demo_disk = [fg_wallpaper_target demo_greeter \<mapsto> (fresh_node MODE_0644)\<lparr>nd_data := [200]\<rparr>,
     fg_wallpaper_font demo_greeter \<mapsto> fresh_node MODE_0644]"

definition demo_host_id :: resolved_host_id where
  "demo_host_id = \<lparr>rh_source_kind = Hostname, rh_raw = ''Box 1'', rh_normalized = ''box1'', rh_hash_hex = ''00ff''\<rparr>"

lemma demo_parents:
  "path_parent (fg_wallpaper_target demo_greeter) = Some ''/usr/share/wallpapers''"
  "path_parent (fg_wallpaper_backup demo_greeter) = Some ''/var/lib/pam_certauth''"
  by (simp_all add: demo_greeter_def greeter_defaults_def path_parent_def)

lemma demo_files:
  "fg_wallpaper_font demo_greeter \<notin> {fg_wallpaper_target demo_greeter, fg_wallpaper_backup demo_greeter}"
  "fg_wallpaper_target demo_greeter \<noteq> fg_wallpaper_backup demo_greeter" "fg_update_wallpaper demo_greeter"
  by (simp_all add: demo_greeter_def greeter_defaults_def)

lemma demo_distinct: "distinct_files demo_wallpaper_env demo_greeter"
  by (simp add: distinct_files_def target_tmp_def wallpaper_tmp_def demo_parents path_join_def)
    (simp add: demo_greeter_def greeter_defaults_def)

lemma demo_update:
  assumes "d (fg_wallpaper_font demo_greeter) = Some f" "d (fg_wallpaper_target demo_greeter) = Some n"
  shows "\<exists>b ops. update_wallpaper demo_wallpaper_env demo_host demo_greeter demo_host_id d = (Ok (Wrote b), ops)"
  using assms demo_files
  by (simp add: update_wallpaper_def back_up_def render_banner_def install_banner_def make_dir_def demo_parents Let_def
      demo_wallpaper_env_def split: option.split)
    (cases "d (fg_wallpaper_backup demo_greeter)"; auto)


theorem torn_copy_stays_witness:
  "\<exists>ops. update_wallpaper (demo_wallpaper_env\<lparr>we_copy := (\<lambda>_. Some (io_error.IoFailed ''ENOSPC'', []))\<rparr>) demo_host demo_greeter demo_host_id demo_disk
       = (Err (WriterIo (fg_wallpaper_backup demo_greeter) (io_error.IoFailed ''ENOSPC'')), ops)
     \<and> map_option nd_data (update_runs demo_greeter [(demo_wallpaper_env, demo_host, demo_host_id)] (apply_ops ops demo_disk)
         (fg_wallpaper_backup demo_greeter)) = Some []"
proof -
  let ?E = "demo_wallpaper_env\<lparr>we_copy := (\<lambda>_. Some (io_error.IoFailed ''ENOSPC'', []))\<rparr>"
  obtain res ops where u: "update_wallpaper ?E demo_host demo_greeter demo_host_id demo_disk = (res, ops)" by fastforce
  have d: "demo_disk (fg_wallpaper_backup demo_greeter) = None"
    "demo_disk (fg_wallpaper_target demo_greeter) = Some ((fresh_node MODE_0644)\<lparr>nd_data := [200]\<rparr>)"
    using demo_files by (auto simp: demo_disk_def)
  have "target_tmp ?E demo_greeter = target_tmp demo_wallpaper_env demo_greeter"
    by (simp add: target_tmp_def wallpaper_tmp_def demo_parents)
  then have "distinct_files ?E demo_greeter" "we_dir_exists ?E ''/var/lib/pam_certauth''"
    using demo_distinct by (simp_all add: distinct_files_def) (simp add: demo_wallpaper_env_def)
  from torn_copy_stays [OF demo_files(3) d demo_parents(2) this(2) _ this(1) _ u, of "io_error.IoFailed ''ENOSPC''" "[]"
      "[(demo_wallpaper_env, demo_host, demo_host_id)]"] u demo_distinct
  show ?thesis by simp
qed

end
