(* ===== verification/Daemon.thy ===== *)
theory Daemon
  imports Startup_Check Ipc_Server Host_Dump
begin

text \<open>
  The daemon as a whole (\<open>daemon/mod.rs\<close>): how it starts, in order (configuration, startup checks,
  banner, sessions of the last run, D-Bus, socket, \<open>READY=1\<close>), what is running then, and how it ends
  (\<open>shutdown.rs\<close>); with the parts only it puts together: \<open>notify.rs\<close>, \<open>udev_query.rs\<close>, the calls and
  signals of logind (\<open>logind/actions.rs\<close>, \<open>logind/listener.rs\<close>), the hook of the action runner
  (\<open>run_hook\<close> in \<open>actions.rs\<close>) and the accept loop of \<open>server.rs\<close> as a step relation.

  The start returns its result with the events that led to it; \<open>None\<close> is a start that hangs on
  the custom command of the host identity. The tasks that are spawned are the fields of
  \<open>running_daemon\<close>; the steps they take are those of \<open>Monitor\<close> and \<open>Ipc_Server\<close>.
\<close>

section \<open>Notification\<close>

record notify_handle =
  nh_sent :: bool
  nh_calls :: nat

definition system_default :: notify_handle where
  "system_default = \<lparr>nh_sent = False, nh_calls = 0\<rparr>"

text \<open>The messages to systemd; a failure to send is ignored.\<close>

definition notify_ready :: "notify_handle \<Rightarrow> notify_handle \<times> string list" where
  "notify_ready h =
     (if nh_sent h then (h, []) else (h\<lparr>nh_sent := True, nh_calls := nh_calls h + 1\<rparr>, [''READY=1'']))"

section \<open>The presence of a key\<close>

datatype udev_query = AlwaysPresent | RealUdevQuery

definition matches_serial :: "udev_node \<Rightarrow> string \<Rightarrow> bool" where
  "matches_serial d serial \<longleftrightarrow> list_ex (\<lambda>key. un_property d key = Some serial) [''ID_SERIAL_SHORT'', ''ID_SERIAL'']"

fun is_serial_present :: "udev_query \<Rightarrow> (string, udev_node list) result \<Rightarrow> string \<Rightarrow> bool" where
  "is_serial_present AlwaysPresent scan serial \<longleftrightarrow> True"
| "is_serial_present RealUdevQuery scan serial \<longleftrightarrow>
     (case scan of Inr devs \<Rightarrow> list_ex (\<lambda>d. matches_serial d serial) devs | Inl _ \<Rightarrow> False)"

section \<open>logind\<close>

datatype actions_backend = NoopActions | LogindActions

datatype bus_arg = ArgStr string | ArgBool bool

fun logind_request :: "runner_call \<Rightarrow> (string \<times> bus_arg) option" where
  "logind_request (LockSession i) = Some (''LockSession'', ArgStr i)"
| "logind_request (TerminateSession i) = Some (''TerminateSession'', ArgStr i)"
| "logind_request PowerOff = Some (''PowerOff'', ArgBool False)"
| "logind_request (RunHook path env) = None"

text \<open>\<open>hook\<close> runs a program with added variables and says whether it exited with zero.\<close>

definition run_removal_hook ::
  "(string \<Rightarrow> (string \<times> string) list \<Rightarrow> (string, bool) result) \<Rightarrow> string \<Rightarrow> (string \<times> string) list \<Rightarrow> (string, unit) result" where
  "run_removal_hook hook path env =
     and_then (hook path env) (\<lambda>success. if success then Ok () else Err ''hook returned non-zero status'')"

definition exec_call ::
  "actions_backend \<Rightarrow> (string \<times> bus_arg \<Rightarrow> (string, unit) result) \<Rightarrow>
   (string \<Rightarrow> (string \<times> string) list \<Rightarrow> (string, bool) result) \<Rightarrow> runner_call \<Rightarrow> (string, unit) result" where
  "exec_call backend bus hook call =
     (case logind_request call of
        Some req \<Rightarrow> (case backend of NoopActions \<Rightarrow> Ok () | LogindActions \<Rightarrow> bus req)
      | None \<Rightarrow> (case call of RunHook path env \<Rightarrow> run_removal_hook hook path env))"

datatype bus_body = BodyBool bool | BodySession string string | BodyOther

text \<open>A signal of logind: its member and its body. What does not parse is skipped.\<close>

definition logind_forward :: "string \<Rightarrow> bus_body \<Rightarrow> logind_signal option" where
  "logind_forward signal_name body =
     (if signal_name = ''PrepareForSleep'' then (case body of BodyBool b \<Rightarrow> Some (PrepareForSleep b) | _ \<Rightarrow> None)
      else if signal_name = ''SessionRemoved'' then (case body of BodySession i path \<Rightarrow> Some (SessionRemoved i path) | _ \<Rightarrow> None)
      else None)"

section \<open>The accept loop\<close>

record accept_config =
  ac_enforce_peercred :: bool
  ac_idle_timeout :: nat
  ac_max_concurrent_connections :: u32

definition accept_config_default :: accept_config where
  "accept_config_default = \<lparr>ac_enforce_peercred = True, ac_idle_timeout = 30, ac_max_concurrent_connections = 64\<rparr>"

text \<open>
  The state of the loop: the connections served now, a stream that was accepted and waits for a
  permit, whether the token is cancelled and whether the loop was left.
\<close>

record accept_state =
  as_live :: "(string, peer_cred) result list"
  as_waiting :: "(string, peer_cred) result option"
  as_cancelled :: bool
  as_stopped :: bool

definition accept_init :: accept_state where
  "accept_init = \<lparr>as_live = [], as_waiting = None, as_cancelled = False, as_stopped = False\<rparr>"

definition listening :: "accept_state \<Rightarrow> bool" where
  "listening s \<longleftrightarrow> \<not> as_stopped s \<and> as_waiting s = None"

datatype accept_label =
    AcceptFailed
  | PeerRejected "(string, peer_cred) result"
  | PeerAccepted "(string, peer_cred) result"
  | PermitGranted
  | ConnectionEnded nat
  | TokenCancelled
  | LoopLeft

inductive accept_step :: "accept_config \<Rightarrow> accept_state \<Rightarrow> accept_label \<Rightarrow> accept_state \<Rightarrow> bool" for cfg where
  failed: "listening s \<Longrightarrow> accept_step cfg s AcceptFailed s"
| rejected: "listening s \<Longrightarrow> ac_enforce_peercred cfg \<Longrightarrow> is_err (verify_peer_credentials c) \<Longrightarrow> accept_step cfg s (PeerRejected c) s"
| accepted: "listening s \<Longrightarrow> (ac_enforce_peercred cfg \<longrightarrow> is_ok (verify_peer_credentials c)) \<Longrightarrow>
    accept_step cfg s (PeerAccepted c) (s\<lparr>as_waiting := Some c\<rparr>)"
| permit: "as_waiting s = Some c \<Longrightarrow> length (as_live s) < unat (ac_max_concurrent_connections cfg) \<Longrightarrow>
    accept_step cfg s PermitGranted (s\<lparr>as_live := c # as_live s, as_waiting := None\<rparr>)"
| ended: "i < length (as_live s) \<Longrightarrow>
    accept_step cfg s (ConnectionEnded i) (s\<lparr>as_live := take i (as_live s) @ drop (Suc i) (as_live s)\<rparr>)"
| cancelled: "accept_step cfg s TokenCancelled (s\<lparr>as_cancelled := True\<rparr>)"
| left: "listening s \<Longrightarrow> as_cancelled s \<Longrightarrow> accept_step cfg s LoopLeft (s\<lparr>as_stopped := True\<rparr>)"

inductive_cases accept_leftE: "accept_step cfg s LoopLeft s'"

inductive accept_reachable :: "accept_config \<Rightarrow> accept_state \<Rightarrow> bool" for cfg where
  accept_start: "accept_reachable cfg accept_init"
| accept_next: "accept_reachable cfg s \<Longrightarrow> accept_step cfg s l s' \<Longrightarrow> accept_reachable cfg s'"

section \<open>The start\<close>

record daemon_args =
  da_socket :: "string option"
  da_state_file :: "string option"
  da_grace_seconds :: "nat option"
  da_suspend_grace_seconds :: "nat option"
  da_no_udev :: bool
  da_no_dbus :: bool

record 'font daemon_env =
  dn_config :: "(string, validated_config) result"
  dn_astra_mac :: bool
  dn_pdp :: libpdp
  dn_startup_sys :: startup_sys
  dn_crypto :: crypto
  dn_host :: host_sys
  dn_wallpaper :: "'font wallpaper_env"
  dn_disk :: disk
  dn_codec :: "active_session list codec"
  dn_session_file :: "string \<Rightarrow> (io_error, bytes) result"
  dn_dbus :: "(string, unit) result"
  dn_create_dir :: "string \<Rightarrow> (io_error, unit) result"
  dn_socket :: socket_env

datatype daemon_error =
    LoggingFailed string
  | ConfigLoadFailed string
  | StartupRefused nat
  | HookPathMissing
  | DbusRequired string
  | BindFailed io_error

datatype daemon_event =
    StartupReport "startup_check_record list"
  | WallpaperOps "fs_op list"
  | SocketOps "fs_op list"
  | Notified "string list"

record running_daemon =
  rd_socket_path :: string
  rd_state_file_path :: string
  rd_state_config :: state_config
  rd_monitor :: monitor
  rd_udev_query :: udev_query
  rd_actions :: actions_backend
  rd_udev_thread :: bool
  rd_logind_listener :: bool
  rd_accept :: accept_config

text \<open>The banner: every failure is only logged.\<close>

definition wallpaper_at_start :: "'font daemon_env \<Rightarrow> validated_config \<Rightarrow> fs_op list option" where
  "wallpaper_at_start E cfg =
     map_option (\<lambda>r. case r of
         Inl _ \<Rightarrow> []
       | Inr found \<Rightarrow> snd (update_wallpaper (dn_wallpaper E) (dn_host E) (vf_fly_dm_greeter cfg) found (dn_disk E)))
       (resolve_sources (dn_crypto E) (dn_host E) (hi_fallback (vf_host_identity cfg)) []
          (from_validated (dn_host E) (vf_host_identity cfg) ''/''))"

definition map_on_usb_removed :: "monitor_section \<Rightarrow> (daemon_error, on_usb_removed) result" where
  "map_on_usb_removed m =
     (case mn_on_usb_removed m of
        ActLock \<Rightarrow> Ok Lock
      | ActLogout \<Rightarrow> Ok Logout
      | ActShutdown \<Rightarrow> Ok Shutdown
      | ActHook \<Rightarrow> and_then (ok_or HookPathMissing (mn_on_usb_removed_hook_path m)) (\<lambda>path. Ok (Hook path)))"

definition bind_backend :: "'font daemon_env \<Rightarrow> mac_backend" where
  "bind_backend E = (if dn_astra_mac E then parsec_backend (dn_pdp E) else stub_backend)"

text \<open>A session file that cannot be read counts as empty.\<close>

definition load_sessions :: "'font daemon_env \<Rightarrow> string \<Rightarrow> active_session list" where
  "load_sessions E path = (case registry_store_load (dn_codec E) (dn_session_file E path) of Inr ss \<Rightarrow> ss | Inl _ \<Rightarrow> [])"

text \<open>The connection to logind is required unless it is switched off.\<close>

definition logind_backend :: "'font daemon_env \<Rightarrow> daemon_args \<Rightarrow> (daemon_error, actions_backend) result" where
  "logind_backend E args =
     (if da_no_dbus args then Ok NoopActions else and_then (map_err DbusRequired (dn_dbus E)) (\<lambda>_. Ok LogindActions))"

definition bring_up ::
  "'font daemon_env \<Rightarrow> daemon_args \<Rightarrow> monitor_section \<Rightarrow> (daemon_error, running_daemon) result \<times> daemon_event list" where
  "bring_up E args m =
     (let socket_path = unwrap_or (mn_socket_path m) (da_socket args);
          state_file_path = unwrap_or (mn_state_file_path m) (da_state_file args);
          grace_seconds = unwrap_or (mn_usb_removed_grace m) (da_grace_seconds args);
          suspend_grace_seconds = unwrap_or (mn_suspend_grace m) (da_suspend_grace_seconds args);
          initial = load_sessions E state_file_path
      in case map_on_usb_removed m of
           Inl e \<Rightarrow> (Err e, [])
         | Inr action \<Rightarrow>
             (case logind_backend E args of
                Inl e \<Rightarrow> (Err e, [])
              | Inr actions \<Rightarrow>
                  (case bind_listener (bind_backend E) (dn_create_dir E) (dn_socket E) socket_path of
                     (Inl e, ops) \<Rightarrow> (Err (BindFailed e), [SocketOps ops])
                   | (Inr _, ops) \<Rightarrow>
                       (Ok \<lparr>rd_socket_path = socket_path, rd_state_file_path = state_file_path,
                            rd_state_config = \<lparr>cf_grace_seconds = grace_seconds, cf_suspend_grace_seconds = suspend_grace_seconds,
                              cf_on_usb_removed = action\<rparr>,
                            rd_monitor = monitor_init initial,
                            rd_udev_query = (if da_no_udev args then AlwaysPresent else RealUdevQuery),
                            rd_actions = actions, rd_udev_thread = (\<not> da_no_udev args),
                            rd_logind_listener = (\<not> da_no_dbus args), rd_accept = accept_config_default\<rparr>,
                        [SocketOps ops, Notified (snd (notify_ready system_default))]))))"

text \<open>The start of \<open>run_async\<close> once the log is set up.\<close>

definition daemon_start ::
  "'font daemon_env \<Rightarrow> daemon_args \<Rightarrow> ((daemon_error, running_daemon) result \<times> daemon_event list) option" where
  "daemon_start E args =
     (case dn_config E of
        Inl e \<Rightarrow> Some (Err (ConfigLoadFailed e), [])
      | Inr cfg \<Rightarrow>
          (case run_startup_checks (dn_astra_mac E) (dn_pdp E) (dn_startup_sys E) (dn_crypto E) (dn_host E) cfg of
             None \<Rightarrow> None
           | Some report \<Rightarrow>
               if has_errors report
               then Some (Err (StartupRefused (count_severity SevError report)), [StartupReport report])
               else map_option (\<lambda>wops. case bring_up E args (vf_monitor cfg) of
                      (r, evs) \<Rightarrow> (r, StartupReport report # WallpaperOps wops # evs))
                    (wallpaper_at_start E cfg)))"

section \<open>The end\<close>

text \<open>When the tasks end, in milliseconds from the signal; \<open>None\<close>: never.\<close>

fun await_all :: "nat option list \<Rightarrow> nat option" where
  "await_all [] = Some 0"
| "await_all (h # hs) = (case (h, await_all hs) of (Some a, Some b) \<Rightarrow> Some (max a b) | _ \<Rightarrow> None)"

definition graceful_finish :: "nat \<Rightarrow> nat option list \<Rightarrow> string \<Rightarrow> disk \<Rightarrow> nat \<times> disk" where
  "graceful_finish budget handles socket_path d =
     ((case await_all handles of Some t \<Rightarrow> min t budget | None \<Rightarrow> budget), apply_op (OpRemove socket_path) d)"

definition daemon_exit_code :: "(daemon_error, running_daemon) result \<Rightarrow> nat" where
  "daemon_exit_code r = (if is_ok r then 0 else 1)"

text \<open>
  The whole of \<open>run_async\<close> and of \<open>run\<close>: setting up the log can fail, when a subscriber is installed
  already, and so can building the runtime. A daemon that started ends with success.
\<close>

definition run_async ::
  "(string, unit) result \<Rightarrow> 'font daemon_env \<Rightarrow> daemon_args \<Rightarrow> ((daemon_error, running_daemon) result \<times> daemon_event list) option" where
  "run_async logging E args =
     (case logging of Inl e \<Rightarrow> Some (Err (LoggingFailed e), []) | Inr _ \<Rightarrow> daemon_start E args)"

definition daemon_run ::
  "(string, unit) result \<Rightarrow> (string, unit) result \<Rightarrow> 'font daemon_env \<Rightarrow> daemon_args \<Rightarrow> (nat \<times> daemon_event list) option" where
  "daemon_run runtime logging E args =
     (case runtime of
        Inl _ \<Rightarrow> Some (1, [])
      | Inr _ \<Rightarrow> map_option (\<lambda>(r, evs). (daemon_exit_code r, evs)) (run_async logging E args))"

section \<open>Connections\<close>

definition accept_ok :: "accept_config \<Rightarrow> accept_state \<Rightarrow> bool" where
  "accept_ok cfg s \<longleftrightarrow>
     length (as_live s) \<le> unat (ac_max_concurrent_connections cfg) \<and>
     (ac_enforce_peercred cfg \<longrightarrow>
        list_all (\<lambda>c. is_ok (verify_peer_credentials c)) (as_live s) \<and> pred_option (\<lambda>c. is_ok (verify_peer_credentials c)) (as_waiting s))"

lemma accept_ok_step: "accept_step cfg s l s' \<Longrightarrow> accept_ok cfg s \<Longrightarrow> accept_ok cfg s'"
  by (induction rule: accept_step.induct)
    (auto simp: accept_ok_def list_all_iff dest: in_set_takeD in_set_dropD)

lemma accept_ok_reachable: "accept_reachable cfg s \<Longrightarrow> accept_ok cfg s"
proof (induction rule: accept_reachable.induct)
  case accept_start
  show ?case by (simp add: accept_ok_def accept_init_def)
qed (rule accept_ok_step)

lemma verified_is_root: "is_ok (verify_peer_credentials c) \<longleftrightarrow> (\<exists>pc. c = Ok pc \<and> pc_uid pc = 0)"
  by (cases c) (auto simp: verify_peer_credentials_def)

text \<open>Root can fill every place.\<close>

lemma fills_up:
  "n \<le> unat (ac_max_concurrent_connections cfg) \<Longrightarrow> pc_uid pc = 0 \<Longrightarrow>
   accept_reachable cfg \<lparr>as_live = replicate n (Ok pc), as_waiting = None, as_cancelled = False, as_stopped = False\<rparr>"
proof (induction n)
  case 0
  show ?case using accept_start [of cfg] by (simp add: accept_init_def)
next
  case (Suc n)
  let ?s = "\<lparr>as_live = replicate n (Ok pc), as_waiting = None, as_cancelled = False, as_stopped = False\<rparr>"
  let ?w = "?s\<lparr>as_waiting := Some (Ok pc)\<rparr>"
  have ok: "is_ok (verify_peer_credentials (Ok pc))" using Suc.prems(2) by (simp add: verified_is_root)
  have "accept_reachable cfg ?s" using Suc by simp
  moreover have "accept_step cfg ?s (PeerAccepted (Ok pc)) ?w"
    using ok by (intro accept_step.accepted) (simp_all add: listening_def)
  ultimately have "accept_reachable cfg ?w" by (rule accept_next)
  moreover have "accept_step cfg ?w PermitGranted (?w\<lparr>as_live := Ok pc # as_live ?w, as_waiting := None\<rparr>)"
    using Suc.prems(1) by (intro accept_step.permit) simp_all
  ultimately have "accept_reachable cfg (?w\<lparr>as_live := Ok pc # as_live ?w, as_waiting := None\<rparr>)" by (rule accept_next)
  then show ?case by simp
qed

text \<open>
  With every place taken and a peer waiting, the loop does not leave although the token is
  cancelled, until a connection ends; the budget of the shutdown bounds this.
\<close>

lemma full_house_keeps_loop:
  assumes "accept_step cfg s l s'" "as_waiting s \<noteq> None"
    and "unat (ac_max_concurrent_connections cfg) \<le> length (as_live s)"
  shows "l = TokenCancelled \<or> (\<exists>i. l = ConnectionEnded i)"
  using assms by (cases rule: accept_step.cases) (auto simp: listening_def)

lemma graceful_finish_bounded:
  "fst (graceful_finish budget handles path d) \<le> budget" "snd (graceful_finish budget handles path d) path = None"
  by (simp_all add: graceful_finish_def split: option.split)

section \<open>Starting\<close>

lemma map_on_usb_removed_Err: "map_on_usb_removed m = Err e \<Longrightarrow> e = HookPathMissing \<and> mn_on_usb_removed m = ActHook \<and> mn_on_usb_removed_hook_path m = None"
  by (auto simp: map_on_usb_removed_def result_simps split: removal_action.splits)

lemma bring_up_Ok:
  assumes "bring_up E args m = (Ok D, evs)"
  shows "\<exists>ops. evs = [SocketOps ops, Notified [''READY=1'']]
        \<and> bind_listener (bind_backend E) (dn_create_dir E) (dn_socket E) (rd_socket_path D) = (Ok (), ops)"
    "map_on_usb_removed m = Ok (cf_on_usb_removed (rd_state_config D))" "logind_backend E args = Ok (rd_actions D)"
    "rd_monitor D = monitor_init (load_sessions E (rd_state_file_path D))" "rd_accept D = accept_config_default"
    "cf_grace_seconds (rd_state_config D) = unwrap_or (mn_usb_removed_grace m) (da_grace_seconds args)"
proof -
  from assms obtain action where a: "map_on_usb_removed m = Ok action"
    by (cases "map_on_usb_removed m") (simp_all add: bring_up_def Let_def)
  from assms a obtain b where b: "logind_backend E args = Ok b"
    by (cases "logind_backend E args") (simp_all add: bring_up_def Let_def)
  obtain x ops where x: "bind_listener (bind_backend E) (dn_create_dir E) (dn_socket E) (unwrap_or (mn_socket_path m) (da_socket args)) = (x, ops)"
    by fastforce
  with assms a b obtain u where "x = Ok u"
    by (cases x) (simp_all add: bring_up_def Let_def)
  with assms a b x show "\<exists>ops. evs = [SocketOps ops, Notified [''READY=1'']]
        \<and> bind_listener (bind_backend E) (dn_create_dir E) (dn_socket E) (rd_socket_path D) = (Ok (), ops)"
    "map_on_usb_removed m = Ok (cf_on_usb_removed (rd_state_config D))" "logind_backend E args = Ok (rd_actions D)"
    "rd_monitor D = monitor_init (load_sessions E (rd_state_file_path D))" "rd_accept D = accept_config_default"
    "cf_grace_seconds (rd_state_config D) = unwrap_or (mn_usb_removed_grace m) (da_grace_seconds args)"
    by (auto simp: bring_up_def Let_def notify_ready_def system_default_def)
qed

lemma bring_up_Err:
  assumes "bring_up E args m = (Err e, evs)"
  shows "Notified msgs \<notin> set evs \<and> (e = HookPathMissing \<and> map_on_usb_removed m = Err e
        \<or> (\<exists>x. e = DbusRequired x \<and> \<not> da_no_dbus args \<and> dn_dbus E = Err x) \<or> (\<exists>x. e = BindFailed x))"
proof (cases "map_on_usb_removed m")
  case (Inl e')
  with assms map_on_usb_removed_Err [OF Inl] show ?thesis by (auto simp: bring_up_def Let_def)
next
  case a: (Inr action)
  show ?thesis
  proof (cases "logind_backend E args")
    case (Inl e')
    with a assms have "e = e'" "evs = []" by (auto simp: bring_up_def Let_def)
    with Inl show ?thesis by (auto simp: logind_backend_def result_simps split: if_splits)
  next
    case (Inr b)
    obtain x ops where x: "bind_listener (bind_backend E) (dn_create_dir E) (dn_socket E) (unwrap_or (mn_socket_path m) (da_socket args)) = (x, ops)"
      by fastforce
    with assms a Inr show ?thesis by (cases x) (auto simp: bring_up_def Let_def)
  qed
qed

lemma map_on_usb_removed_ok: "monitor_ok m \<Longrightarrow> is_ok (map_on_usb_removed m)"
  by (auto simp: map_on_usb_removed_def monitor_ok_def split: removal_action.splits option.splits)

lemma daemon_start_up:
  assumes "daemon_start E args = Some (r, evs)" "dn_config E = Ok cfg" "\<not> has_errors report"
    and "run_startup_checks (dn_astra_mac E) (dn_pdp E) (dn_startup_sys E) (dn_crypto E) (dn_host E) cfg = Some report"
  shows "\<exists>wops up. bring_up E args (vf_monitor cfg) = (r, up) \<and> evs = StartupReport report # WallpaperOps wops # up"
  using assms by (cases "bring_up E args (vf_monitor cfg)") (auto simp: daemon_start_def)

lemma daemon_start_Ok:
  assumes "daemon_start E args = Some (Ok D, evs)"
  obtains cfg up where "dn_config E = Ok cfg" "bring_up E args (vf_monitor cfg) = (Ok D, up)"
proof -
  from assms obtain cfg report where "dn_config E = Ok cfg" "\<not> has_errors report"
    "run_startup_checks (dn_astra_mac E) (dn_pdp E) (dn_startup_sys E) (dn_crypto E) (dn_host E) cfg = Some report"
    by (auto simp: daemon_start_def split: sum.splits option.splits if_splits)
  with daemon_start_up [OF assms] show ?thesis using that by blast
qed

fun is_notified :: "daemon_event \<Rightarrow> bool" where
  "is_notified (Notified _) \<longleftrightarrow> True"
| "is_notified _ \<longleftrightarrow> False"

text \<open>
  C13. The daemon reports \<open>READY=1\<close> only when it can do its work. With the log set up and a validated
  configuration, a start that succeeds sends the message exactly once and as its last act: the startup checks
  allowed it, the socket is in place, the sessions of the session file are registered, the action
  for a removed key is the configured one and, unless this was switched off, D-Bus is connected. A
  start that fails never sends it, and it fails only because of the startup checks, of D-Bus or of
  the socket.
\<close>

theorem daemon_ready:
  assumes "try_from_raw astra_mac F raw = Ok cfg" "dn_config E = Ok cfg" "daemon_start E args = Some (r, evs)"
  shows "case r of
      Inr D \<Rightarrow> (\<exists>report wops ops. evs = [StartupReport report, WallpaperOps wops, SocketOps ops, Notified [''READY=1'']]
          \<and> bind_listener (bind_backend E) (dn_create_dir E) (dn_socket E) (rd_socket_path D) = (Ok (), ops))
        \<and> may_start (dn_astra_mac E) (dn_pdp E) (dn_startup_sys E) cfg
        \<and> rd_monitor D = monitor_init (load_sessions E (rd_state_file_path D))
        \<and> map_on_usb_removed (vf_monitor cfg) = Ok (cf_on_usb_removed (rd_state_config D))
        \<and> (\<not> da_no_dbus args \<longrightarrow> rd_actions D = LogindActions \<and> is_ok (dn_dbus E))
    | Inl e \<Rightarrow> \<not> list_ex is_notified evs
        \<and> ((\<exists>n. e = StartupRefused n \<and> \<not> may_start (dn_astra_mac E) (dn_pdp E) (dn_startup_sys E) cfg)
          \<or> (\<exists>x. e = DbusRequired x \<and> \<not> da_no_dbus args \<and> dn_dbus E = Err x) \<or> (\<exists>x. e = BindFailed x))"
proof -
  from assms(2,3) obtain report where
    rep: "run_startup_checks (dn_astra_mac E) (dn_pdp E) (dn_startup_sys E) (dn_crypto E) (dn_host E) cfg = Some report"
    by (auto simp: daemon_start_def split: option.splits)
  note verdict = startup_verdict [OF rep]
  have hook: "is_ok (map_on_usb_removed (vf_monitor cfg))"
    by (rule map_on_usb_removed_ok [OF validate_monitor_Ok [OF try_from_raw_monitor [OF assms(1)]]])
  show ?thesis
  proof (cases "has_errors report")
    case True
    with assms(2,3) rep verdict show ?thesis by (auto simp: daemon_start_def)
  next
    case False
    with daemon_start_up [OF assms(3,2)] rep obtain wops up where up: "bring_up E args (vf_monitor cfg) = (r, up)"
      and evs: "evs = StartupReport report # WallpaperOps wops # up" by blast
    show ?thesis
    proof (cases r)
      case (Inr D)
      note b = bring_up_Ok [OF up [unfolded Inr]]
      from b(3) have "\<not> da_no_dbus args \<longrightarrow> rd_actions D = LogindActions \<and> is_ok (dn_dbus E)"
        by (auto simp: logind_backend_def result_simps)
      with b(1,2,4) False verdict show ?thesis by (auto simp: Inr evs)
    next
      case (Inl e)
      note b = bring_up_Err [OF up [unfolded Inl]]
      then have "\<not> list_ex is_notified up" unfolding list_ex_iff by (metis is_notified.elims(2))
      with b hook show ?thesis by (auto simp: Inl evs)
    qed
  qed
qed

text \<open>Without a runtime or without the log the process fails, and nothing is reported or done before.\<close>

lemma daemon_run_needs:
  "is_err runtime \<or> is_err logging \<Longrightarrow> daemon_run runtime logging E args = Some (1, [])"
  "is_ok runtime \<Longrightarrow> is_ok logging \<Longrightarrow>
     daemon_run runtime logging E args = map_option (\<lambda>(r, evs). (daemon_exit_code r, evs)) (daemon_start E args)"
  by (cases runtime; cases logging; simp add: daemon_run_def run_async_def daemon_exit_code_def)+

text \<open>
  The banner cannot keep the daemon from starting: whatever happens to the image, the font and
  the files, and whatever was on the disk, a start has the same result, and it hangs in the same
  cases.
\<close>

theorem wallpaper_has_no_say:
  "map_option fst (daemon_start (E\<lparr>dn_wallpaper := W, dn_disk := d\<rparr>) args) = map_option fst (daemon_start E args)"
proof -
  let ?E = "E\<lparr>dn_wallpaper := W, dn_disk := d\<rparr>"
  have e: "load_sessions ?E = load_sessions E" "bind_backend ?E = bind_backend E" "logind_backend ?E = logind_backend E"
    "dn_create_dir ?E = dn_create_dir E" "dn_socket ?E = dn_socket E"
    by (simp_all add: load_sessions_def bind_backend_def logind_backend_def fun_eq_iff)
  have b: "bring_up ?E args m = bring_up E args m" for m unfolding bring_up_def e by (rule refl)
  have w: "map_option (\<lambda>_. x) (wallpaper_at_start ?E cfg) = map_option (\<lambda>_. x) (wallpaper_at_start E cfg)" for cfg and x :: 'b
    by (simp add: wallpaper_at_start_def option.map_comp comp_def)
  have "(\<lambda>wops. fst (case p of (r, evs) \<Rightarrow> (r, StartupReport report # WallpaperOps wops # evs))) = (\<lambda>_. fst p)"
    for p :: "(daemon_error, running_daemon) result \<times> daemon_event list" and report
    by (simp add: fun_eq_iff split: prod.split)
  then show ?thesis
    by (simp add: daemon_start_def option.map_comp comp_def b w split: sum.split option.split)
qed

text \<open>
  C33. The daemon serves root only and no more than 64 connections at a time: this holds in every
  state the accept loop of a running daemon can reach, and root can reach a state with 64 of them
  whatever limit is configured, for the configured one is not passed on to the loop.
\<close>

theorem connections_bounded:
  assumes "daemon_start E args = Some (Ok D, evs)"
  shows "(accept_reachable (rd_accept D) s \<longrightarrow>
       length (as_live s) \<le> 64 \<and> list_all (\<lambda>c. \<exists>pc. c = Ok pc \<and> pc_uid pc = 0) (as_live s))
    \<and> (\<exists>full. accept_reachable (rd_accept D) full \<and> length (as_live full) = 64)"
proof -
  have d: "rd_accept D = accept_config_default"
    using assms by (rule daemon_start_Ok) (rule bring_up_Ok(5))
  have u: "unat (ac_max_concurrent_connections accept_config_default) = 64" by (simp add: accept_config_default_def)
  have "accept_reachable accept_config_default s \<Longrightarrow> length (as_live s) \<le> 64 \<and> list_all (\<lambda>c. \<exists>pc. c = Ok pc \<and> pc_uid pc = 0) (as_live s)"
    using accept_ok_reachable [of accept_config_default s] u
    by (simp add: accept_ok_def verified_is_root) (simp add: accept_config_default_def)
  moreover have "\<exists>full. accept_reachable accept_config_default full \<and> length (as_live full) = 64"
    using fills_up [of 64 accept_config_default "\<lparr>pc_uid = 0, pc_gid = 0, pc_pid = None\<rparr>"] u by force
  ultimately show ?thesis by (simp add: d)
qed


section \<open>A daemon that starts\<close>

definition demo_daemon_env :: "unit daemon_env" where
  "demo_daemon_env = \<lparr>dn_config = Ok demo_config, dn_astra_mac = False, dn_pdp = demo_pdp, dn_startup_sys = demo_startup_sys,
     dn_crypto = demo_wire_crypto, dn_host = Host_Identity.demo_host, dn_wallpaper = demo_wallpaper_env, dn_disk = Map.empty,
     dn_codec = demo_sessions_codec, dn_session_file = (\<lambda>_. Ok [91, 49, 93]), dn_dbus = Ok (), dn_create_dir = (\<lambda>_. Ok ()),
     dn_socket = demo_socket_env\<rparr>"

definition demo_args :: daemon_args where
  "demo_args = \<lparr>da_socket = Some ''/run/m.sock'', da_state_file = Some ''/run/s.json'', da_grace_seconds = None,
     da_suspend_grace_seconds = None, da_no_udev = False, da_no_dbus = False\<rparr>"

lemma demo_bring_up:
  "\<exists>D evs. bring_up demo_daemon_env demo_args (vf_monitor demo_config) = (Ok D, evs) \<and> rd_state_file_path D = ''/run/s.json''"
proof -
  obtain action where a: "map_on_usb_removed (vf_monitor demo_config) = Ok action"
    using map_on_usb_removed_ok [OF validate_monitor_Ok [OF try_from_raw_monitor [OF demo_config_Ok]]]
    by (cases "map_on_usb_removed (vf_monitor demo_config)") simp_all
  have p: "path_parent ''/run/m.sock'' = Some ''/run''" by code_simp
  obtain ops where l: "bind_listener (bind_backend demo_daemon_env) (dn_create_dir demo_daemon_env) (dn_socket demo_daemon_env) ''/run/m.sock'' = (Ok (), ops)"
    by (simp add: bind_listener_def p bind_with_label_def demo_daemon_env_def demo_socket_env_def bind_backend_def stub_backend_def Let_def)
  have b: "logind_backend demo_daemon_env demo_args = Ok LogindActions"
    by (simp add: logind_backend_def demo_daemon_env_def demo_args_def)
  have "unwrap_or x (da_socket demo_args) = ''/run/m.sock''" "unwrap_or x (da_state_file demo_args) = ''/run/s.json''" for x
    by (simp_all add: demo_args_def unwrap_or_def)
  then show ?thesis by (simp add: bring_up_def a b l Let_def)
qed

lemma demo_daemon_start:
  "\<exists>D evs. daemon_start demo_daemon_env demo_args = Some (Ok D, evs) \<and> rd_state_file_path D = ''/run/s.json''"
proof -
  obtain report where r: "run_startup_checks False demo_pdp demo_startup_sys demo_wire_crypto Host_Identity.demo_host demo_config = Some report"
    using demo_startup by blast
  have n: "\<not> has_errors report" using startup_verdict [OF r] demo_may_start by simp
  obtain D evs where b: "bring_up demo_daemon_env demo_args (vf_monitor demo_config) = (Ok D, evs)" "rd_state_file_path D = ''/run/s.json''"
    using demo_bring_up by blast
  have "from_validated Host_Identity.demo_host (vf_host_identity demo_config) ''/'' = [(MachineId, Some (machine_id_fetch Host_Identity.demo_host ''/''))]"
    by (simp add: from_validated_def demo_config_host source_of_def)
  then have "wallpaper_at_start demo_daemon_env demo_config \<noteq> None"
    by (simp add: wallpaper_at_start_def split: sum.split) (simp add: demo_daemon_env_def split: sum.split)
  then obtain wops where "wallpaper_at_start demo_daemon_env demo_config = Some wops" by blast
  with r n b show ?thesis by (simp add: daemon_start_def) (simp add: demo_daemon_env_def)
qed

theorem daemon_ready_witness:
  "\<exists>D evs. daemon_start demo_daemon_env demo_args = Some (Ok D, evs) \<and> last evs = Notified [''READY=1''] \<and> rd_actions D = LogindActions"
proof -
  obtain D evs where s: "daemon_start demo_daemon_env demo_args = Some (Ok D, evs)" using demo_daemon_start by blast
  have "dn_config demo_daemon_env = Ok demo_config" "\<not> da_no_dbus demo_args" by (simp_all add: demo_daemon_env_def demo_args_def)
  with daemon_ready [OF demo_config_Ok this(1) s] s show ?thesis by auto
qed

theorem connections_bounded_witness:
  "\<exists>D evs full. daemon_start demo_daemon_env demo_args = Some (Ok D, evs)
     \<and> accept_reachable (rd_accept D) full \<and> length (as_live full) = 64"
proof -
  obtain D evs where s: "daemon_start demo_daemon_env demo_args = Some (Ok D, evs)" using demo_daemon_start by blast
  from connections_bounded [OF s] s show ?thesis by blast
qed

lemma demo_snapshot: "registry_snapshot (mo_registry (monitor_init [demo_session1])) = [demo_session1]"
  by (simp add: monitor_init_def registry_from_snapshot_def registry_snapshot_def registry_new_def snapshot_insert_def)

lemma demo_found: "find_by_session_id (mo_registry (monitor_init [demo_session1])) 1 = Some demo_session1"
  by (simp add: monitor_init_def registry_from_snapshot_def registry_new_def snapshot_insert_def find_by_session_id_def)
    (simp add: demo_session1_def)


end
