(* ===== verification/Spec2Isabelle.thy ===== *)
theory Spec2Isabelle
  imports Cert_Scope Mac_Policy Trust_Chain Ipc_Server Hook_Exec Usb_Mount Token Ipc_Client Pam_Module Daemon
begin

text \<open>
  Verification development of \<open>pam_certauth\<close>: login with a certificate on a USB medium or a token.

  \<^bold>\<open>The program.\<close> Two processes work together. The PAM module (crates \<open>pam_certauth\<close> and
  \<open>pam_certauth_core\<close>) is called by a login service: it finds a certificate, verifies it against the
  configured anchors, checks that it covers this machine and this user, has its private key answer a
  challenge, runs hooks, applies an integrity label to the session and reports the session to the
  daemon. The daemon (crate \<open>pam_certauth_cli\<close>) keeps the open sessions and, when the key of a
  session is removed and stays away for the grace period, locks or ends it. They talk over a Unix
  socket in the protocol of the crate \<open>pam_certauth_proto\<close>.

  \<^bold>\<open>Conventions.\<close> A Rust struct is a record, an enum a datatype, a function a definition of the same
  name. Bytes are \<open>8 word\<close>, \<open>u16\<close>, \<open>u32\<close>, \<open>u64\<close> and \<open>i32\<close> are words of their width, \<open>usize\<close> and
  durations are natural numbers, points in time are integers. A \<open>String\<close> is the list of its UTF-8
  bytes. A \<open>Result\<close> is the sum type \<open>result\<close> with \<open>Ok\<close> and \<open>Err\<close>; the question mark is \<open>and_then\<close>. A
  panic is an error of its own. Effects are returned as lists of events or operations, or thread a
  state. Third-party libraries (OpenSSL, the GOST engine, cryptoki, libpdp, serde, TOML, udev, D-Bus,
  the image and font libraries) and the operating system are records of functions; what a theorem
  needs of them is a hypothesis, and its witness instantiates them.

  \<^bold>\<open>Prelude.\<close> \<open>Rust_Prelude\<close> has the result type with its rewrite rules \<open>result_simps\<close>, integer parsing
  and printing, UTF-8, trimming and the byte orders; \<open>Btree_Map\<close> is \<open>BTreeMap\<close> as a sorted list.

  \<^bold>\<open>Certificates\<close> (\<open>x509/*.rs\<close>, \<open>trust/*.rs\<close>, \<open>crl/store.rs\<close>, \<open>gost/engine.rs\<close>). \<open>Der\<close>: one element of
  DER and dotted identifiers, with round trips against encoders. \<open>Cert_Ext\<close>: the walk to the
  extensions of a certificate and their decoding. \<open>Cert_Scope\<close>: \<open>host_binding_ext.rs\<close>,
  \<open>user_binding_ext.rs\<close>, \<open>host_binding.rs\<close>, \<open>mapping.rs\<close>; the scope check accepts exactly what the
  entries allow. \<open>Trust_Chain\<close>: path building, signatures, constraints, revocation and pinning; an
  accepted chain has every property at once.

  \<^bold>\<open>Mandatory access control\<close> (\<open>mac/*.rs\<close>). \<open>Integrity_Label\<close>: the lattice of labels and its two codecs.
  \<open>Mac_Policy\<close>: the policy and both backends; the label of a session is below those of the
  certificate and of the user.

  \<^bold>\<open>The PAM module.\<close> \<open>Config\<close> (\<open>config/*.rs\<close>): every validation, and what a validated configuration
  guarantees. \<open>Host_Identity\<close> (\<open>host_identity/*.rs\<close>), \<open>Credentials\<close> (\<open>discovery.rs\<close>, \<open>pkcs12/*.rs\<close>,
  \<open>challenge/*.rs\<close>), \<open>Token\<close> (\<open>token/pkcs11/*.rs\<close>), \<open>Usb_Mount\<close> (\<open>usb/*.rs\<close>, \<open>mount/usb.rs\<close>,
  \<open>mount_guard.rs\<close>), \<open>Hooks\<close> and \<open>Hook_Exec\<close> (\<open>hooks/*.rs\<close>: templates and environment; the child process
  as system calls, waiting, output), \<open>Ipc_Client\<close> (\<open>ipc/*.rs\<close>). \<open>Wiring\<close> (\<open>di.rs\<close>, \<open>self_check.rs\<close>) puts
  them together; \<open>Auth_Flow\<close> is \<open>flow.rs\<close>, both modes step by step; \<open>Pam_Module\<close> has the entry points
  (\<open>entry.rs\<close>, \<open>session.rs\<close>, \<open>lib.rs\<close> and the PAM helpers). Its main theorem says what a successful
  authentication means, from the return code back to the certificate.

  \<^bold>\<open>The daemon.\<close> \<open>Proto\<close> is the wire format. \<open>Registry\<close> (\<open>registry.rs\<close>) refines a map of sessions.
  \<open>Monitor\<close> (\<open>state.rs\<close>, \<open>udev_monitor.rs\<close>, \<open>actions.rs\<close>) is a transition relation over requests, udev
  events, logind signals and time; its theorems say that every action is justified by a removal and
  that no removal is lost. \<open>Ipc_Server\<close> (\<open>server.rs\<close>, \<open>peercred.rs\<close>) serves a connection.
  \<open>Published_Files\<close> has the files that are replaced by a rename (\<open>registry/store.rs\<close>, the socket, the
  report), with one locale for the contract they share. \<open>Startup_Check\<close> (\<open>startup_check/*.rs\<close>,
  \<open>check.rs\<close>) says when the daemon may start. \<open>Utc_Time\<close> and \<open>Host_Dump\<close> are \<open>dump_host_id.rs\<close> and
  \<open>fly_dm_wallpaper_writer.rs\<close>. \<open>Daemon\<close> (\<open>daemon/mod.rs\<close>, \<open>notify.rs\<close>, \<open>shutdown.rs\<close>, \<open>udev_query.rs\<close>,
  \<open>logind/*.rs\<close>) composes all of it: the start in order, the accept loop as a step relation, and the
  restart on the session file of an earlier run.

  \<^bold>\<open>Loops and bounds.\<close> Loops are structural recursion or have a termination proof. The only
  fuel is in trimming (\<open>Rust_Prelude\<close>): each round removes a byte, so the length of the string is
  enough, which is proved there. A loop that waits for its environment (polls of a child, udev, a token slot, reads of a
  socket) consumes the list of what the environment does, and an exhausted list is the value for
  \<open>not returned yet\<close> (\<open>None\<close>, or \<open>FlowWaiting\<close> in \<open>Auth_Flow\<close>). The deadline of the custom command, the
  escalation of signals to a hook and the PIN loops have theorems that they end.

  \<^bold>\<open>Not modelled.\<close> Log records and their wording; the overwriting of secrets in memory (\<open>secret.rs\<close>);
  the lock around PKCS\#11 calls (\<open>locking.rs\<close>), since the model makes them in sequence; the foreign
  function bindings (\<open>gost/sys.rs\<close>) and raw pointers of the PAM interface; the tokio runtime and the
  channels between its tasks, whose interleavings are those of the step relations; the \<open>f32\<close> layout
  of glyphs; test support, stubs for other platforms, the command line parser and the installation
  scripts.
\<close>

end
